(* ===== verification/Op_Prelude.thy ===== *)
theory Op_Prelude
  imports Main "HOL-Library.Word" "HOL-Library.Sublist" "HOL-Library.Multiset"
begin

text \<open>
  Shared vocabulary of the development: the outcome of a Go call (a value, an error or a
  run-time panic), Go's \<open>map[string]string\<close> with its nil value, and the functions of the
  packages \<open>strings\<close>, \<open>strconv\<close> and \<open>fmt\<close> that the operator calls.
\<close>

named_theorems outcome_simps
  \<open>unfolding rules for the outcome combinators\<close>

named_theorems gomap_simps
  \<open>unfolding rules for nil-able maps\<close>

section \<open>Errors and outcomes\<close>

text \<open>
  An \<open>error\<close> value: the status errors of the Kubernetes API with their reason, the errors
  made by \<open>errors.New\<close> and \<open>fmt.Errorf\<close>, and those wrapped with \<open>%w\<close>.
\<close>

datatype reason = NotFound | Conflict | BadRequest | OtherReason string

datatype go_error =
    StatusError reason string
  | Errorf string
  | WrapError string go_error

fun error_string :: "go_error \<Rightarrow> string" where
  "error_string (StatusError r m) = m"
| "error_string (Errorf m) = m"
| "error_string (WrapError m e) = m @ '': '' @ error_string e"

text \<open>\<open>errors.IsNotFound\<close> and \<open>errors.IsConflict\<close> look through wrapped errors.\<close>

fun error_reason :: "go_error \<Rightarrow> reason option" where
  "error_reason (StatusError r m) = Some r"
| "error_reason (Errorf m) = None"
| "error_reason (WrapError m e) = error_reason e"

definition is_not_found :: "go_error \<Rightarrow> bool" where
  "is_not_found e = (error_reason e = Some NotFound)"

definition is_conflict :: "go_error \<Rightarrow> bool" where
  "is_conflict e = (error_reason e = Some Conflict)"

lemma is_not_found_simps [simp]:
  "is_not_found (StatusError r m) = (r = NotFound)"
  "is_not_found (Errorf m) = False"
  "is_not_found (WrapError m e) = is_not_found e"
  by (simp_all add: is_not_found_def)

lemma is_conflict_simps [simp]:
  "is_conflict (StatusError r m) = (r = Conflict)"
  "is_conflict (Errorf m) = False"
  "is_conflict (WrapError m e) = is_conflict e"
  by (simp_all add: is_conflict_def)

lemma conflict_not_missing: "is_conflict e \<Longrightarrow> \<not> is_not_found e"
  by (simp add: is_conflict_def is_not_found_def)

text \<open>
  The outcome of a call. A panic is not an error value: no \<open>if err != nil\<close> sees it, so it
  passes through every combinator.
\<close>

datatype 'a outcome = Ok 'a | Err go_error | Panic string

definition bind_ok :: "'a outcome \<Rightarrow> ('a \<Rightarrow> 'b outcome) \<Rightarrow> 'b outcome" where
  "bind_ok m f = (case m of Ok x \<Rightarrow> f x | Err e \<Rightarrow> Err e | Panic p \<Rightarrow> Panic p)"

definition wrap_err :: "string \<Rightarrow> 'a outcome \<Rightarrow> 'a outcome" where
  "wrap_err msg m = (case m of Ok x \<Rightarrow> Ok x | Err e \<Rightarrow> Err (WrapError msg e) | Panic p \<Rightarrow> Panic p)"

lemma bind_ok_simps [simp, outcome_simps]:
  "bind_ok (Ok x) f = f x"
  "bind_ok (Err e) f = Err e"
  "bind_ok (Panic p) f = Panic p"
  by (simp_all add: bind_ok_def)

lemma wrap_err_simps [simp, outcome_simps]:
  "wrap_err msg (Ok x) = Ok x"
  "wrap_err msg (Err e) = Err (WrapError msg e)"
  "wrap_err msg (Panic p) = Panic p"
  by (simp_all add: wrap_err_def)

lemma bind_ok_eq_Ok:
  "bind_ok m f = Ok y \<longleftrightarrow> (\<exists>x. m = Ok x \<and> f x = Ok y)"
  by (cases m) auto

lemma wrap_err_eq_Ok: "wrap_err msg m = Ok y \<longleftrightarrow> m = Ok y"
  by (cases m) auto

lemma bind_ok_assoc: "bind_ok (bind_ok m f) g = bind_ok m (\<lambda>x. bind_ok (f x) g)"
  by (cases m) auto

lemmas outcome_ok = bind_ok_eq_Ok wrap_err_eq_Ok

section \<open>Go maps\<close>

text \<open>
  A \<open>map[string]string\<close> is nil (\<open>None\<close>) or a finite table. Reading a nil map gives no
  entry; writing to it panics.
\<close>

type_synonym 'v kvmap = "(string \<rightharpoonup> 'v) option"
type_synonym gomap = "string kvmap"

definition entries :: "'v kvmap \<Rightarrow> string \<rightharpoonup> 'v" where
  "entries m = (case m of None \<Rightarrow> Map.empty | Some f \<Rightarrow> f)"

definition map_store :: "'v kvmap \<Rightarrow> string \<Rightarrow> 'v \<Rightarrow> 'v kvmap outcome" where
  "map_store m k v =
     (case m of None \<Rightarrow> Panic ''assignment to entry in nil map'' | Some f \<Rightarrow> Ok (Some (f(k \<mapsto> v))))"

text \<open>\<open>delete(m, k)\<close> is a no-op on a nil map.\<close>

definition map_delete :: "'v kvmap \<Rightarrow> string \<Rightarrow> 'v kvmap" where
  "map_delete m k = map_option (\<lambda>f. f(k := None)) m"

text \<open>Reading a missing string entry gives the empty string.\<close>

definition str_entry :: "gomap \<Rightarrow> string \<Rightarrow> string" where
  "str_entry m k = (case entries m k of None \<Rightarrow> [] | Some v \<Rightarrow> v)"

lemma entries_simps [simp, gomap_simps]:
  "entries None = Map.empty"
  "entries (Some f) = f"
  by (simp_all add: entries_def)

lemma map_store_simps [simp, gomap_simps]:
  "map_store None k v = Panic ''assignment to entry in nil map''"
  "map_store (Some f) k v = Ok (Some (f(k \<mapsto> v)))"
  by (simp_all add: map_store_def)

lemma map_delete_simps [simp, gomap_simps]:
  "map_delete None k = None"
  "map_delete (Some f) k = Some (f(k := None))"
  by (simp_all add: map_delete_def)

lemma entries_map_delete [simp]: "entries (map_delete m k) = (entries m)(k := None)"
  by (cases m) auto

lemma entries_map_store:
  "map_store m k v = Ok m' \<Longrightarrow> entries m' = (entries m)(k \<mapsto> v)"
  by (cases m) auto

section \<open>Strings\<close>

text \<open>\<open>strings.HasPrefix\<close>, \<open>HasSuffix\<close>, \<open>TrimPrefix\<close>, \<open>TrimSuffix\<close>, \<open>Contains\<close>.\<close>

definition has_prefix :: "string \<Rightarrow> string \<Rightarrow> bool" where
  "has_prefix s p = (take (length p) s = p)"

definition has_suffix :: "string \<Rightarrow> string \<Rightarrow> bool" where
  "has_suffix s p = (length p \<le> length s \<and> drop (length s - length p) s = p)"

definition trim_prefix :: "string \<Rightarrow> string \<Rightarrow> string" where
  "trim_prefix s p = (if has_prefix s p then drop (length p) s else s)"

definition trim_suffix :: "string \<Rightarrow> string \<Rightarrow> string" where
  "trim_suffix s p = (if has_suffix s p then take (length s - length p) s else s)"

fun str_contains :: "string \<Rightarrow> string \<Rightarrow> bool" where
  "str_contains [] p = (p = [])"
| "str_contains (c # s) p = (has_prefix (c # s) p \<or> str_contains s p)"

text \<open>\<open>strings.Join\<close>.\<close>

fun join :: "string list \<Rightarrow> string \<Rightarrow> string" where
  "join [] sep = []"
| "join [x] sep = x"
| "join (x # y # zs) sep = x @ sep @ join (y # zs) sep"

text \<open>\<open>strings.Split\<close> for a separator of one character.\<close>

fun split_on :: "char \<Rightarrow> string \<Rightarrow> string list" where
  "split_on c [] = [[]]"
| "split_on c (x # xs) =
     (if x = c then [] # split_on c xs
      else (case split_on c xs of [] \<Rightarrow> [[x]] | y # ys \<Rightarrow> (x # y) # ys))"

text \<open>\<open>strconv.Itoa\<close> and the verb \<open>%d\<close>.\<close>

fun nat_digits :: "nat \<Rightarrow> string" where
  "nat_digits n =
     (if n < 10 then [char_of (48 + n)] else nat_digits (n div 10) @ [char_of (48 + n mod 10)])"

declare nat_digits.simps [simp del]

definition itoa :: "int \<Rightarrow> string" where
  "itoa i = (if i < 0 then ''-'' @ nat_digits (nat (- i)) else nat_digits (nat i))"

subsection \<open>Lemmas on strings\<close>

lemma has_prefix_iff: "has_prefix s p \<longleftrightarrow> prefix p s"
  unfolding has_prefix_def prefix_def
  by (metis append_eq_conv_conj append_take_drop_id)

lemma has_suffix_iff: "has_suffix s p \<longleftrightarrow> suffix p s"
proof
  assume "has_suffix s p"
  then have "s = take (length s - length p) s @ p"
    unfolding has_suffix_def by (metis append_take_drop_id)
  then show "suffix p s" unfolding suffix_def by blast
next
  assume "suffix p s"
  then show "has_suffix s p" by (auto simp: suffix_def has_suffix_def)
qed

lemma str_contains_iff: "str_contains s p \<longleftrightarrow> (\<exists>u v. s = u @ p @ v)"
proof (induction s)
  case Nil
  then show ?case by auto
next
  case (Cons c s)
  have "(\<exists>u v. c # s = u @ p @ v) \<longleftrightarrow> prefix p (c # s) \<or> (\<exists>u v. s = u @ p @ v)"
    by (auto simp: prefix_def Cons_eq_append_conv; metis append_Nil)
  with Cons show ?case by (simp add: has_prefix_iff)
qed

lemma split_on_Cons: "split_on c xs = hd (split_on c xs) # tl (split_on c xs)"
  by (cases xs) (auto split: list.splits)

lemma split_on_append:
  "c \<notin> set x \<Longrightarrow> split_on c (x @ c # ys) = x # split_on c ys"
  by (induction x) auto

lemma split_on_none: "c \<notin> set x \<Longrightarrow> split_on c x = [x]"
  by (induction x) auto

text \<open>Splitting what \<open>Join\<close> glued gives the pieces back, when no piece holds the separator.\<close>

lemma split_on_join:
  assumes "xs \<noteq> []" and "\<forall>x \<in> set xs. c \<notin> set x"
  shows "split_on c (join xs [c]) = xs"
  using assms
proof (induction xs "[c]" rule: join.induct)
  case (3 x y zs)
  then show ?case by (simp add: split_on_append)
qed (auto simp: split_on_none)

subsection \<open>Decimal numerals\<close>

fun digits_value :: "string \<Rightarrow> nat" where
  "digits_value s = foldl (\<lambda>acc c. 10 * acc + (of_char c - 48)) 0 s"

lemma nat_digits_value: "digits_value (nat_digits n) = n"
proof (induction n rule: nat_digits.induct)
  case (1 n)
  show ?case
  proof (cases "n < 10")
    case True
    then show ?thesis by (simp add: nat_digits.simps [of n])
  next
    case False
    with 1 have "digits_value (nat_digits (n div 10)) = n div 10" by simp
    with False show ?thesis by (simp add: nat_digits.simps [of n])
  qed
qed

lemma nat_digits_inj [simp]: "nat_digits m = nat_digits n \<longleftrightarrow> m = n"
  by (metis nat_digits_value)

lemma nat_digits_range: "\<forall>c \<in> set (nat_digits n). c \<in> char_of ` {48..<58::nat}"
proof (induction n rule: nat_digits.induct)
  case (1 n)
  show ?case
  proof (cases "n < 10")
    case True
    then show ?thesis by (auto simp: nat_digits.simps [of n])
  next
    case False
    with 1 have "\<forall>c \<in> set (nat_digits (n div 10)). c \<in> char_of ` {48..<58::nat}" by simp
    moreover have "char_of (48 + n mod 10) \<in> char_of ` {48..<58::nat}" by (rule imageI) simp
    ultimately show ?thesis using False by (simp add: nat_digits.simps [of n])
  qed
qed

lemma nat_digits_no_dash: "CHR ''-'' \<notin> set (nat_digits n)"
proof
  assume "CHR ''-'' \<in> set (nat_digits n)"
  with nat_digits_range obtain k :: nat where "k \<in> {48..<58}" and "CHR ''-'' = char_of k" by blast
  then have "of_char (CHR ''-'') = k" by simp
  with \<open>k \<in> {48..<58}\<close> show False by simp
qed

lemma itoa_inj [simp]: "itoa i = itoa j \<longleftrightarrow> i = j"
proof
  assume eq: "itoa i = itoa j"
  have no_dash: "\<And>n xs. nat_digits n \<noteq> ''-'' @ xs"
    using nat_digits_no_dash by (metis append_Cons list.set_intros(1))
  show "i = j"
    using eq no_dash no_dash [symmetric] by (auto simp: itoa_def split: if_splits)
qed simp

section \<open>Lists updated in place\<close>

text \<open>
  \<open>xs[i], xs[j] = xs[j], xs[i]\<close>. An index out of range panics.
\<close>

definition swap_at :: "'a list \<Rightarrow> nat \<Rightarrow> nat \<Rightarrow> 'a list outcome" where
  "swap_at xs i j =
     (if i < length xs \<and> j < length xs then Ok (xs[i := xs ! j, j := xs ! i])
      else Panic ''index out of range'')"

lemma swap_at_length: "swap_at xs i j = Ok ys \<Longrightarrow> length ys = length xs"
  by (auto simp: swap_at_def split: if_splits)

lemma swap_at_mset: "swap_at xs i j = Ok ys \<Longrightarrow> mset ys = mset xs"
  by (auto simp: swap_at_def mset_swap split: if_splits)

end
