(* ===== verification/K8s_Types.thy ===== *)
theory K8s_Types
  imports Op_Prelude
begin

text \<open>
  The Kubernetes API types that the operator reads and writes (packages \<open>meta/v1\<close>,
  \<open>core/v1\<close>, \<open>apps/v1\<close>, \<open>rbac/v1\<close>), with the fields its code uses. They are plain data:
  structs are records, pointers are options. Parts of a struct that the operator only
  carries along (affinity terms, tolerations, ...) are kept as uninterpreted payloads.
\<close>

section \<open>Scalars\<close>

text \<open>
  A \<open>resource.Quantity\<close> is an exact multiple of the smallest scale, nano; \<open>Cmp\<close>,
  \<open>Equal\<close> and \<open>IsZero\<close> compare the numbers. A \<open>time.Time\<close> is the number of
  nanoseconds since the epoch; its zero value is the first of January of year 1.
\<close>

type_synonym quantity = int

definition units :: "int \<Rightarrow> quantity" where "units n = n * 1000000000"
definition milli :: "int \<Rightarrow> quantity" where "milli n = n * 1000000"
definition kibi :: "int \<Rightarrow> quantity" where "kibi n = units (n * 1024)"
definition mebi :: "int \<Rightarrow> quantity" where "mebi n = units (n * 1048576)"

text \<open>\<open>Quantity.Value()\<close> rounds away from zero to a whole number, kept in an \<open>int64\<close>.\<close>

definition quantity_value :: "quantity \<Rightarrow> 64 word" where
  "quantity_value q = word_of_int (sgn q * ((\<bar>q\<bar> + 999999999) div 1000000000))"

type_synonym gotime = int

definition zero_time :: gotime where
  "zero_time = - 62135596800000000000"

definition second :: int where
  "second = 1000000000"

datatype IntOrString = IntPort int | NamedPort string

section \<open>Object metadata\<close>

record OwnerReference =
  or_apiVersion :: string
  or_kind :: string
  or_name :: string
  or_uid :: string
  or_controller :: "bool option"
  or_blockOwnerDeletion :: "bool option"

record ObjectMeta =
  om_name :: string
  om_namespace :: string
  om_uid :: string
  om_generation :: int
  om_deletionTimestamp :: "gotime option"
  om_labels :: gomap
  om_annotations :: gomap
  om_ownerReferences :: "OwnerReference list"
  om_finalizers :: "string list"

text \<open>The zero value of \<open>metav1.ObjectMeta\<close>, with a name and a namespace.\<close>

definition new_meta :: "string \<Rightarrow> string \<Rightarrow> ObjectMeta" where
  "new_meta n ns = \<lparr>om_name = n, om_namespace = ns, om_uid = [], om_generation = 0,
     om_deletionTimestamp = None, om_labels = None, om_annotations = None,
     om_ownerReferences = [], om_finalizers = []\<rparr>"

text \<open>\<open>metav1.GetControllerOf\<close>: the first owner reference marked as controller.\<close>

fun controller_of_refs :: "OwnerReference list \<Rightarrow> OwnerReference option" where
  "controller_of_refs [] = None"
| "controller_of_refs (r # rs) =
     (if or_controller r = Some True then Some r else controller_of_refs rs)"

definition controller_of :: "ObjectMeta \<Rightarrow> OwnerReference option" where
  "controller_of m = controller_of_refs (om_ownerReferences m)"

section \<open>Services, secrets, config maps and access control\<close>

record ServicePort =
  sp_name :: string
  sp_protocol :: string
  sp_port :: int
  sp_targetPort :: IntOrString
  sp_nodePort :: int
  sp_appProtocol :: "string option"

record ServiceSpec =
  ss_type :: string
  ss_clusterIP :: string
  ss_sessionAffinity :: string
  ss_selector :: gomap
  ss_ports :: "ServicePort list"
  ss_publishNotReadyAddresses :: bool

record Service =
  svc_meta :: ObjectMeta
  svc_spec :: ServiceSpec

record ConfigMap =
  cm_meta :: ObjectMeta
  cm_data :: gomap

record Secret =
  sec_meta :: ObjectMeta
  sec_type :: string
  sec_data :: gomap

record ServiceAccount =
  sa_meta :: ObjectMeta

record PolicyRule =
  pr_apiGroups :: "string list"
  pr_resources :: "string list"
  pr_verbs :: "string list"

record Role =
  role_meta :: ObjectMeta
  role_rules :: "PolicyRule list"

record RoleRef =
  rref_apiGroup :: string
  rref_kind :: string
  rref_name :: string

record Subject =
  subj_kind :: string
  subj_name :: string

record RoleBinding =
  rb_meta :: ObjectMeta
  rb_roleRef :: RoleRef
  rb_subjects :: "Subject list"

record EndpointSubset =
  es_addresses :: "string list"

record Endpoints =
  ep_meta :: ObjectMeta
  ep_subsets :: "EndpointSubset list"

section \<open>Pods and stateful sets\<close>

record EnvVar =
  ev_name :: string
  ev_value :: string
  ev_fieldRef :: "(string \<times> string) option"

record VolumeMount =
  vm_name :: string
  vm_mountPath :: string
  vm_subPath :: string
  vm_readOnly :: bool

record ContainerPort =
  cp_name :: string
  cp_containerPort :: int

record ResourceRequirements =
  rr_limits :: "quantity kvmap"
  rr_requests :: "quantity kvmap"

text \<open>\<open>ResourceList.Memory()\<close> and reading the list directly: a missing entry is zero.\<close>

definition quantity_entry :: "quantity kvmap \<Rightarrow> string \<Rightarrow> quantity" where
  "quantity_entry m k = (case entries m k of None \<Rightarrow> 0 | Some q \<Rightarrow> q)"

record Probe =
  pb_port :: IntOrString
  pb_initialDelaySeconds :: int
  pb_timeoutSeconds :: int
  pb_periodSeconds :: int
  pb_successThreshold :: int
  pb_failureThreshold :: int

record SecurityContext =
  sc_payload :: string

record PodSecurityContext =
  psc_fsGroup :: "int option"
  psc_runAsUser :: "int option"
  psc_payload :: string

record Container =
  c_name :: string
  c_image :: string
  c_command :: "string list"
  c_args :: "string list"
  c_env :: "EnvVar list option"
  c_ports :: "ContainerPort list"
  c_resources :: ResourceRequirements
  c_volumeMounts :: "VolumeMount list option"
  c_readinessProbe :: "Probe option"
  c_preStop :: "string list option"
  c_securityContext :: "SecurityContext option"

datatype VolumeProjection =
    ConfigMapProjection string "(string \<times> string) list"
  | SecretProjection string "(string \<times> string) list" "bool option"

datatype VolumeSource =
    ConfigMapSource string
  | ProjectedSource "VolumeProjection list" "int option"
  | EmptyDirSource
  | SecretSource string
  | DownwardAPISource "(string \<times> string) list"
  | OtherSource string

record Volume =
  v_name :: string
  v_source :: VolumeSource

record LabelSelector =
  ls_matchLabels :: gomap
  ls_matchExpressions :: "string list"

record TopologySpreadConstraint =
  tsc_maxSkew :: int
  tsc_topologyKey :: string
  tsc_whenUnsatisfiable :: string
  tsc_labelSelector :: LabelSelector

type_synonym Affinity = string
type_synonym Toleration = string

record PodSpec =
  ps_topologySpreadConstraints :: "TopologySpreadConstraint list"
  ps_securityContext :: "PodSecurityContext option"
  ps_imagePullSecrets :: "string list option"
  ps_terminationGracePeriodSeconds :: "int option"
  ps_serviceAccountName :: string
  ps_automountServiceAccountToken :: "bool option"
  ps_affinity :: "Affinity option"
  ps_tolerations :: "Toleration list"
  ps_initContainers :: "Container list"
  ps_volumes :: "Volume list"
  ps_containers :: "Container list"

record PodTemplateSpec =
  pt_meta :: ObjectMeta
  pt_spec :: PodSpec

record PersistentVolumeClaimSpec =
  pvcs_resources :: ResourceRequirements
  pvcs_accessModes :: "string list"
  pvcs_storageClassName :: "string option"

record PersistentVolumeClaim =
  pvc_meta :: ObjectMeta
  pvc_spec :: PersistentVolumeClaimSpec

record StatefulSetUpdateStrategy =
  us_type :: string
  us_partition :: "int option"

record StatefulSetSpec =
  sts_replicas :: "int option"
  sts_serviceName :: string
  sts_selector :: "LabelSelector option"
  sts_template :: PodTemplateSpec
  sts_volumeClaimTemplates :: "PersistentVolumeClaim list"
  sts_podManagementPolicy :: string
  sts_updateStrategy :: StatefulSetUpdateStrategy

record StatefulSetStatus =
  sts_readyReplicas :: int
  sts_currentRevision :: string
  sts_updateRevision :: string

record StatefulSet =
  sts_meta :: ObjectMeta
  sts_spec :: StatefulSetSpec
  sts_status :: StatefulSetStatus

record Pod =
  pod_meta :: ObjectMeta

text \<open>Zero values of the structs that the code fills in piece by piece.\<close>

definition zero_resources :: ResourceRequirements where
  "zero_resources = \<lparr>rr_limits = None, rr_requests = None\<rparr>"

definition zero_container :: Container where
  "zero_container = \<lparr>c_name = [], c_image = [], c_command = [], c_args = [], c_env = None,
     c_ports = [], c_resources = zero_resources, c_volumeMounts = None,
     c_readinessProbe = None, c_preStop = None, c_securityContext = None\<rparr>"

definition zero_podspec :: PodSpec where
  "zero_podspec = \<lparr>ps_topologySpreadConstraints = [], ps_securityContext = None,
     ps_imagePullSecrets = None, ps_terminationGracePeriodSeconds = None,
     ps_serviceAccountName = [], ps_automountServiceAccountToken = None, ps_affinity = None,
     ps_tolerations = [], ps_initContainers = [], ps_volumes = [], ps_containers = []\<rparr>"

definition zero_template :: PodTemplateSpec where
  "zero_template = \<lparr>pt_meta = new_meta [] [], pt_spec = zero_podspec\<rparr>"

definition zero_service_spec :: ServiceSpec where
  "zero_service_spec = \<lparr>ss_type = [], ss_clusterIP = [], ss_sessionAffinity = [],
     ss_selector = None, ss_ports = [], ss_publishNotReadyAddresses = False\<rparr>"

definition slice :: "'a list option \<Rightarrow> 'a list" where
  "slice xs = (case xs of None \<Rightarrow> [] | Some l \<Rightarrow> l)"

lemma slice_simps [simp]: "slice None = []" "slice (Some l) = l"
  by (simp_all add: slice_def)

lemma quantity_entry_simps [simp]:
  "quantity_entry None k = 0"
  "quantity_entry (Some f) k = (case f k of None \<Rightarrow> 0 | Some q \<Rightarrow> q)"
  by (simp_all add: quantity_entry_def)

lemma new_meta_simps [simp]:
  "om_name (new_meta n ns) = n"
  "om_namespace (new_meta n ns) = ns"
  "om_uid (new_meta n ns) = []"
  "om_labels (new_meta n ns) = None"
  "om_annotations (new_meta n ns) = None"
  "om_ownerReferences (new_meta n ns) = []"
  "om_finalizers (new_meta n ns) = []"
  "om_deletionTimestamp (new_meta n ns) = None"
  by (simp_all add: new_meta_def)

lemma controller_of_refs_Some:
  "controller_of_refs rs = Some r \<Longrightarrow> r \<in> set rs \<and> or_controller r = Some True"
  by (induction rs) (auto split: if_splits)

end
