(* ===== verification/Status_Conditions.thy ===== *)
theory Status_Conditions
  imports K8s_Types
begin

text \<open>
  Package \<open>internal/status\<close>: the four status conditions of a RabbitmqCluster and the
  functions that compute three of them from the child resources. The clock is an argument:
  \<open>now\<close> is what \<open>time.Now()\<close> returns where the source calls it.
\<close>

section \<open>Conditions\<close>

datatype RabbitmqClusterConditionType =
    AllReplicasReady
  | ClusterAvailable
  | NoWarnings
  | ReconcileSuccess
  | OtherConditionType string

datatype ConditionStatus = ConditionTrue | ConditionFalse | ConditionUnknown | OtherConditionStatus string

record RabbitmqClusterCondition =
  cnd_type :: RabbitmqClusterConditionType
  cnd_status :: ConditionStatus
  cnd_lastTransitionTime :: gotime
  cnd_reason :: string
  cnd_message :: string

definition newRabbitmqClusterCondition :: "RabbitmqClusterConditionType \<Rightarrow> RabbitmqClusterCondition" where
  "newRabbitmqClusterCondition t =
     \<lparr>cnd_type = t, cnd_status = ConditionUnknown, cnd_lastTransitionTime = zero_time,
      cnd_reason = [], cnd_message = []\<rparr>"

definition UpdateState :: "gotime \<Rightarrow> ConditionStatus \<Rightarrow> RabbitmqClusterCondition \<Rightarrow> RabbitmqClusterCondition" where
  "UpdateState now st c =
     (let c' = (if cnd_status c \<noteq> st then c\<lparr>cnd_lastTransitionTime := now\<rparr> else c)
      in c'\<lparr>cnd_status := st\<rparr>)"

definition UpdateReason :: "string \<Rightarrow> string list \<Rightarrow> RabbitmqClusterCondition \<Rightarrow> RabbitmqClusterCondition" where
  "UpdateReason r msgs c = c\<lparr>cnd_reason := r, cnd_message := join msgs ''. ''\<rparr>"

definition ReconcileSuccessCondition ::
  "gotime \<Rightarrow> ConditionStatus \<Rightarrow> string \<Rightarrow> string \<Rightarrow> RabbitmqClusterCondition" where
  "ReconcileSuccessCondition now st r msg =
     \<lparr>cnd_type = ReconcileSuccess, cnd_status = st, cnd_lastTransitionTime = now,
      cnd_reason = r, cnd_message = msg\<rparr>"

section \<open>Child resources\<close>

text \<open>
  A \<open>runtime.Object\<close> of the list that \<open>getChildResources\<close> returns: a typed pointer,
  which may be nil.
\<close>

datatype child_resource =
    StatefulSetResource "StatefulSet option"
  | EndpointsResource "Endpoints option"
  | OtherResource string

text \<open>
  The start and the end of the three condition functions: the old transition time is taken
  over, and replaced by the present if there was no condition or its status changes.
\<close>

definition start_condition ::
  "RabbitmqClusterConditionType \<Rightarrow> RabbitmqClusterCondition option \<Rightarrow> RabbitmqClusterCondition" where
  "start_condition t old =
     (let c = newRabbitmqClusterCondition t
      in case old of None \<Rightarrow> c | Some o' \<Rightarrow> c\<lparr>cnd_lastTransitionTime := cnd_lastTransitionTime o'\<rparr>)"

definition assign_transition ::
  "gotime \<Rightarrow> RabbitmqClusterCondition option \<Rightarrow> RabbitmqClusterCondition \<Rightarrow> RabbitmqClusterCondition" where
  "assign_transition now old c =
     (if (case old of None \<Rightarrow> True | Some o' \<Rightarrow> cnd_status o' \<noteq> cnd_status c)
      then c\<lparr>cnd_lastTransitionTime := now\<rparr> else c)"

section \<open>AllReplicasReady\<close>

definition desired_replicas :: "StatefulSet \<Rightarrow> int" where
  "desired_replicas s = (case sts_replicas (sts_spec s) of None \<Rightarrow> 1 | Some n \<Rightarrow> n)"

text \<open>
  The loop of \<open>AllReplicasReadyCondition\<close>. A \<open>goto\<close> leaves it; after the branch
  \<open>NotAllPodsReady\<close> it goes on with the next resource.
\<close>

fun all_replicas_loop :: "child_resource list \<Rightarrow> RabbitmqClusterCondition \<Rightarrow> RabbitmqClusterCondition" where
  "all_replicas_loop [] c = c"
| "all_replicas_loop (StatefulSetResource None # rs) c =
     c\<lparr>cnd_status := ConditionUnknown, cnd_reason := ''MissingStatefulSet'',
       cnd_message := ''Could not find StatefulSet''\<rparr>"
| "all_replicas_loop (StatefulSetResource (Some s) # rs) c =
     (if desired_replicas s = sts_readyReplicas (sts_status s)
      then c\<lparr>cnd_status := ConditionTrue, cnd_reason := ''AllPodsAreReady''\<rparr>
      else all_replicas_loop rs
        (c\<lparr>cnd_status := ConditionFalse, cnd_reason := ''NotAllPodsReady'',
           cnd_message := itoa (sts_readyReplicas (sts_status s)) @ ''/''
             @ itoa (desired_replicas s) @ '' Pods ready''\<rparr>))"
| "all_replicas_loop (r # rs) c = all_replicas_loop rs c"

definition AllReplicasReadyCondition ::
  "gotime \<Rightarrow> child_resource list \<Rightarrow> RabbitmqClusterCondition option \<Rightarrow> RabbitmqClusterCondition" where
  "AllReplicasReadyCondition now rs old =
     assign_transition now old (all_replicas_loop rs (start_condition AllReplicasReady old))"

section \<open>ClusterAvailable\<close>

fun cluster_available_loop :: "child_resource list \<Rightarrow> RabbitmqClusterCondition \<Rightarrow> RabbitmqClusterCondition" where
  "cluster_available_loop [] c = c"
| "cluster_available_loop (EndpointsResource None # rs) c =
     c\<lparr>cnd_status := ConditionUnknown, cnd_reason := ''CouldNotRetrieveEndpoints'',
       cnd_message := ''Could not verify available service endpoints''\<rparr>"
| "cluster_available_loop (EndpointsResource (Some e) # rs) c =
     (if list_ex (\<lambda>sub. es_addresses sub \<noteq> []) (ep_subsets e)
      then c\<lparr>cnd_status := ConditionTrue, cnd_reason := ''AtLeastOneEndpointAvailable''\<rparr>
      else cluster_available_loop rs
        (c\<lparr>cnd_status := ConditionFalse, cnd_reason := ''NoEndpointsAvailable'',
           cnd_message := ''The service has no endpoints available''\<rparr>))"
| "cluster_available_loop (r # rs) c = cluster_available_loop rs c"

definition ClusterAvailableCondition ::
  "gotime \<Rightarrow> child_resource list \<Rightarrow> RabbitmqClusterCondition option \<Rightarrow> RabbitmqClusterCondition" where
  "ClusterAvailableCondition now rs old =
     assign_transition now old (cluster_available_loop rs (start_condition ClusterAvailable old))"

section \<open>NoWarnings\<close>

text \<open>
  The first container is read with index 0, which panics if the pod template has none.
  \<open>Semantic.DeepEqual\<close> compares quantities by value.
\<close>

fun no_warnings_loop ::
  "child_resource list \<Rightarrow> RabbitmqClusterCondition \<Rightarrow> RabbitmqClusterCondition outcome" where
  "no_warnings_loop [] c = Ok c"
| "no_warnings_loop (StatefulSetResource None # rs) c =
     Ok (c\<lparr>cnd_status := ConditionUnknown, cnd_reason := ''MissingStatefulSet'',
           cnd_message := ''Could not find StatefulSet''\<rparr>)"
| "no_warnings_loop (StatefulSetResource (Some s) # rs) c =
     (case ps_containers (pt_spec (sts_template (sts_spec s))) of
        [] \<Rightarrow> Panic ''index out of range''
      | ctr # _ \<Rightarrow>
          if quantity_entry (rr_limits (c_resources ctr)) ''memory''
             \<noteq> quantity_entry (rr_requests (c_resources ctr)) ''memory''
          then Ok (c\<lparr>cnd_status := ConditionFalse, cnd_reason := ''MemoryRequestAndLimitDifferent'',
                     cnd_message := ''RabbitMQ container memory resource request and limit must be equal''\<rparr>)
          else no_warnings_loop rs (c\<lparr>cnd_status := ConditionTrue, cnd_reason := ''NoWarnings''\<rparr>))"
| "no_warnings_loop (r # rs) c = no_warnings_loop rs c"

definition NoWarningsCondition ::
  "gotime \<Rightarrow> child_resource list \<Rightarrow> RabbitmqClusterCondition option \<Rightarrow> RabbitmqClusterCondition outcome" where
  "NoWarningsCondition now rs old =
     bind_ok (no_warnings_loop rs (start_condition NoWarnings old))
       (\<lambda>c. Ok (assign_transition now old c))"

section \<open>The contract of a condition function\<close>

text \<open>
  What \<open>SetConditions\<close> relies on: the result has the manager's type, its transition time
  moves exactly when the status does, and status, reason and message are a function of the
  child resources alone.
\<close>

locale condition_manager =
  fixes ctype :: RabbitmqClusterConditionType
    and compute :: "gotime \<Rightarrow> child_resource list \<Rightarrow> RabbitmqClusterCondition option
      \<Rightarrow> RabbitmqClusterCondition outcome"
  assumes compute_type: "compute now rs old = Ok c \<Longrightarrow> cnd_type c = ctype"
    and compute_time: "compute now rs old = Ok c \<Longrightarrow>
      cnd_lastTransitionTime c =
        (case old of None \<Rightarrow> now
         | Some p \<Rightarrow> if cnd_status p = cnd_status c then cnd_lastTransitionTime p else now)"
    and compute_payload: "compute now rs old = Ok c \<Longrightarrow>
      \<exists>c'. compute now' rs old' = Ok c' \<and> cnd_status c' = cnd_status c
        \<and> cnd_reason c' = cnd_reason c \<and> cnd_message c' = cnd_message c"
begin

text \<open>Feeding a result back gives the same condition, whatever the clock says.\<close>

lemma compute_stable:
  assumes "compute now rs old = Ok c"
  shows "compute now' rs (Some c) = Ok c"
proof -
  obtain c' where c': "compute now' rs (Some c) = Ok c'" "cnd_status c' = cnd_status c"
    "cnd_reason c' = cnd_reason c" "cnd_message c' = cnd_message c"
    using compute_payload [OF assms] by blast
  moreover have "cnd_lastTransitionTime c' = cnd_lastTransitionTime c"
    using compute_time [OF c'(1)] c'(2) by simp
  moreover have "cnd_type c' = cnd_type c"
    using compute_type [OF c'(1)] compute_type [OF assms] by simp
  ultimately have "c' = c" by simp
  with c'(1) show ?thesis by simp
qed

text \<open>Transition times never run ahead of the clock and never go back.\<close>

lemma compute_time_bounds:
  assumes "compute now rs old = Ok c" and "\<forall>p. old = Some p \<longrightarrow> cnd_lastTransitionTime p \<le> now"
  shows "cnd_lastTransitionTime c \<le> now
    \<and> (\<forall>p. old = Some p \<longrightarrow> cnd_lastTransitionTime p \<le> cnd_lastTransitionTime c)"
  using compute_time [OF assms(1)] assms(2) by (auto split: option.splits if_splits)

lemma compute_keeps_time:
  assumes "compute now rs (Some p) = Ok c" and "cnd_status c = cnd_status p"
  shows "cnd_lastTransitionTime c = cnd_lastTransitionTime p"
  using compute_time [OF assms(1)] assms(2) by simp

lemma compute_new_time:
  assumes "compute now rs (Some p) = Ok c" and "cnd_status c \<noteq> cnd_status p"
  shows "cnd_lastTransitionTime c = now"
  using compute_time [OF assms(1)] assms(2) by simp

lemma compute_deterministic:
  assumes "compute now rs old = Ok c" and "compute now' rs old' = Ok c'"
  shows "cnd_status c' = cnd_status c"
  using compute_payload [OF assms(1), of now' old'] assms(2) by auto

end

section \<open>The three managers meet the contract\<close>

text \<open>
  The loops never touch the transition time, and what they do to the rest of a condition
  does not depend on it.
\<close>

definition payload :: "RabbitmqClusterCondition \<Rightarrow>
    RabbitmqClusterConditionType \<times> ConditionStatus \<times> string \<times> string" where
  "payload c = (cnd_type c, cnd_status c, cnd_reason c, cnd_message c)"

lemma all_replicas_loop_type [simp]: "cnd_type (all_replicas_loop rs c) = cnd_type c"
  by (induction rs c rule: all_replicas_loop.induct) simp_all

lemma all_replicas_loop_time [simp]:
  "cnd_lastTransitionTime (all_replicas_loop rs c) = cnd_lastTransitionTime c"
  by (induction rs c rule: all_replicas_loop.induct) simp_all

lemma all_replicas_loop_payload:
  "payload c = payload d \<Longrightarrow> payload (all_replicas_loop rs c) = payload (all_replicas_loop rs d)"
proof (induction rs c arbitrary: d rule: all_replicas_loop.induct)
  case (3 s rs c)
  then show ?case
    using "3.IH" [of "d\<lparr>cnd_status := ConditionFalse, cnd_reason := ''NotAllPodsReady'',
           cnd_message := itoa (sts_readyReplicas (sts_status s)) @ ''/''
             @ itoa (desired_replicas s) @ '' Pods ready''\<rparr>"]
    by (simp add: payload_def)
qed (simp_all add: payload_def)

lemma cluster_available_loop_type [simp]: "cnd_type (cluster_available_loop rs c) = cnd_type c"
  by (induction rs c rule: cluster_available_loop.induct) simp_all

lemma cluster_available_loop_time [simp]:
  "cnd_lastTransitionTime (cluster_available_loop rs c) = cnd_lastTransitionTime c"
  by (induction rs c rule: cluster_available_loop.induct) simp_all

lemma cluster_available_loop_payload:
  "payload c = payload d \<Longrightarrow>
     payload (cluster_available_loop rs c) = payload (cluster_available_loop rs d)"
proof (induction rs c arbitrary: d rule: cluster_available_loop.induct)
  case (3 e rs c)
  then show ?case
    using "3.IH" [of "d\<lparr>cnd_status := ConditionFalse, cnd_reason := ''NoEndpointsAvailable'',
           cnd_message := ''The service has no endpoints available''\<rparr>"]
    by (simp add: payload_def)
qed (simp_all add: payload_def)

lemma no_warnings_loop_frame:
  "no_warnings_loop rs c = Ok c' \<Longrightarrow>
     cnd_type c' = cnd_type c \<and> cnd_lastTransitionTime c' = cnd_lastTransitionTime c"
  by (induction rs c rule: no_warnings_loop.induct) (auto split: list.splits if_splits)

lemma no_warnings_loop_payload:
  "payload c = payload d \<Longrightarrow> no_warnings_loop rs c = Ok c' \<Longrightarrow>
     \<exists>d'. no_warnings_loop rs d = Ok d' \<and> payload d' = payload c'"
proof (induction rs c arbitrary: d c' rule: no_warnings_loop.induct)
  case (3 s rs c)
  then obtain ctr ctrs where ctrs: "ps_containers (pt_spec (sts_template (sts_spec s))) = ctr # ctrs"
    by (auto split: list.splits)
  then show ?case
    using "3.IH" [OF ctrs, of "d\<lparr>cnd_status := ConditionTrue, cnd_reason := ''NoWarnings''\<rparr>" c']
      "3.prems" by (auto simp: payload_def split: if_splits)
qed (auto simp: payload_def)

lemma start_condition_simps [simp]:
  "cnd_type (start_condition t old) = t"
  "cnd_status (start_condition t old) = ConditionUnknown"
  "cnd_reason (start_condition t old) = []"
  "cnd_message (start_condition t old) = []"
  "cnd_lastTransitionTime (start_condition t None) = zero_time"
  "cnd_lastTransitionTime (start_condition t (Some p)) = cnd_lastTransitionTime p"
  by (simp_all add: start_condition_def newRabbitmqClusterCondition_def Let_def split: option.splits)

lemma start_condition_payload: "payload (start_condition t old) = payload (start_condition t old')"
  by (simp add: payload_def)

lemma assign_transition_simps [simp]:
  "payload (assign_transition now old c) = payload c"
  "cnd_type (assign_transition now old c) = cnd_type c"
  "cnd_status (assign_transition now old c) = cnd_status c"
  "cnd_reason (assign_transition now old c) = cnd_reason c"
  "cnd_message (assign_transition now old c) = cnd_message c"
  by (simp_all add: assign_transition_def payload_def split: option.splits)

interpretation all_ready: condition_manager AllReplicasReady
  "\<lambda>now rs old. Ok (AllReplicasReadyCondition now rs old)"
proof unfold_locales
  fix now now' rs old old' c
  assume c: "Ok (AllReplicasReadyCondition now rs old) = Ok c"
  show "cnd_type c = AllReplicasReady" using c by (auto simp: AllReplicasReadyCondition_def)
  show "cnd_lastTransitionTime c = (case old of None \<Rightarrow> now
      | Some p \<Rightarrow> if cnd_status p = cnd_status c then cnd_lastTransitionTime p else now)"
    using c by (cases old) (auto simp: AllReplicasReadyCondition_def assign_transition_def)
  have "payload (AllReplicasReadyCondition now' rs old') = payload c"
    using c by (auto simp: AllReplicasReadyCondition_def
        all_replicas_loop_payload [OF start_condition_payload])
  then show "\<exists>c'. Ok (AllReplicasReadyCondition now' rs old') = Ok c' \<and> cnd_status c' = cnd_status c
      \<and> cnd_reason c' = cnd_reason c \<and> cnd_message c' = cnd_message c"
    by (simp add: payload_def)
qed

interpretation available: condition_manager ClusterAvailable
  "\<lambda>now rs old. Ok (ClusterAvailableCondition now rs old)"
proof unfold_locales
  fix now now' rs old old' c
  assume c: "Ok (ClusterAvailableCondition now rs old) = Ok c"
  show "cnd_type c = ClusterAvailable" using c by (auto simp: ClusterAvailableCondition_def)
  show "cnd_lastTransitionTime c = (case old of None \<Rightarrow> now
      | Some p \<Rightarrow> if cnd_status p = cnd_status c then cnd_lastTransitionTime p else now)"
    using c by (cases old) (auto simp: ClusterAvailableCondition_def assign_transition_def)
  have "payload (ClusterAvailableCondition now' rs old') = payload c"
    using c by (auto simp: ClusterAvailableCondition_def
        cluster_available_loop_payload [OF start_condition_payload])
  then show "\<exists>c'. Ok (ClusterAvailableCondition now' rs old') = Ok c' \<and> cnd_status c' = cnd_status c
      \<and> cnd_reason c' = cnd_reason c \<and> cnd_message c' = cnd_message c"
    by (simp add: payload_def)
qed

interpretation no_warnings: condition_manager NoWarnings NoWarningsCondition
proof unfold_locales
  fix now now' rs old old' c
  assume "NoWarningsCondition now rs old = Ok c"
  then obtain d where d: "no_warnings_loop rs (start_condition NoWarnings old) = Ok d"
    and c: "c = assign_transition now old d"
    by (auto simp: NoWarningsCondition_def bind_ok_eq_Ok)
  show "cnd_type c = NoWarnings" using c no_warnings_loop_frame [OF d] by simp
  show "cnd_lastTransitionTime c = (case old of None \<Rightarrow> now
      | Some p \<Rightarrow> if cnd_status p = cnd_status c then cnd_lastTransitionTime p else now)"
    using c no_warnings_loop_frame [OF d] by (cases old) (auto simp: assign_transition_def)
  obtain d' where "no_warnings_loop rs (start_condition NoWarnings old') = Ok d'" "payload d' = payload d"
    using no_warnings_loop_payload [OF start_condition_payload d] by blast
  then show "\<exists>c'. NoWarningsCondition now' rs old' = Ok c' \<and> cnd_status c' = cnd_status c
      \<and> cnd_reason c' = cnd_reason c \<and> cnd_message c' = cnd_message c"
    using c by (auto simp: NoWarningsCondition_def payload_def)
qed

section \<open>What each condition reports\<close>

text \<open>The statuses on the list that \<open>getChildResources\<close> builds: one stateful set, one endpoints object.\<close>

lemma all_replicas_status:
  "cnd_status (AllReplicasReadyCondition now [StatefulSetResource s, EndpointsResource e] old) =
     (case s of None \<Rightarrow> ConditionUnknown
      | Some t \<Rightarrow> if desired_replicas t = sts_readyReplicas (sts_status t)
                  then ConditionTrue else ConditionFalse)"
  by (cases s) (simp_all add: AllReplicasReadyCondition_def)

lemma cluster_available_status:
  "cnd_status (ClusterAvailableCondition now [StatefulSetResource s, EndpointsResource e] old) =
     (case e of None \<Rightarrow> ConditionUnknown
      | Some t \<Rightarrow> if \<exists>sub \<in> set (ep_subsets t). es_addresses sub \<noteq> []
                  then ConditionTrue else ConditionFalse)"
  by (cases e) (auto simp: ClusterAvailableCondition_def list_ex_iff)

lemma no_warnings_status:
  "ps_containers (pt_spec (sts_template (sts_spec s))) = ctr # ctrs \<Longrightarrow>
   \<exists>c. NoWarningsCondition now [StatefulSetResource (Some s), EndpointsResource e] old = Ok c
     \<and> cnd_status c =
        (if quantity_entry (rr_limits (c_resources ctr)) ''memory''
             = quantity_entry (rr_requests (c_resources ctr)) ''memory''
         then ConditionTrue else ConditionFalse)"
  by (auto simp: NoWarningsCondition_def)

lemma no_warnings_missing:
  "\<exists>c. NoWarningsCondition now [StatefulSetResource None, EndpointsResource e] old = Ok c
     \<and> cnd_status c = ConditionUnknown"
  by (simp add: NoWarningsCondition_def)

end
