(* ===== verification/Cluster_Types.thy ===== *)
theory Cluster_Types
  imports Status_Conditions
begin

text \<open>
  Package \<open>api/v1beta1\<close>: the custom resource RabbitmqCluster, the predicates on its
  specification, the names of its child objects, and the two updates of its status
  conditions (\<open>SetConditions\<close>, \<open>SetCondition\<close>).
\<close>

section \<open>The custom resource\<close>

type_synonym Plugin = string

record VaultTLSSpec =
  vt_pkiIssuerPath :: string
  vt_commonName :: string
  vt_altNames :: string
  vt_ipSans :: string

record VaultSpec =
  vs_role :: string
  vs_annotations :: gomap
  vs_defaultUserPath :: string
  vs_defaultUserUpdaterImage :: "string option"
  vs_tls :: VaultTLSSpec

record SecretBackend =
  sb_vault :: "VaultSpec option"

record EmbeddedLabelsAnnotations =
  ela_labels :: gomap
  ela_annotations :: gomap

record EmbeddedObjectMeta =
  eom_name :: string
  eom_namespace :: string
  eom_labels :: gomap
  eom_annotations :: gomap

record EmbeddedPodTemplateSpec =
  ept_meta :: "EmbeddedObjectMeta option"
  ept_spec :: "PodSpec option"

record EmbeddedPersistentVolumeClaim =
  epvc_meta :: EmbeddedObjectMeta
  epvc_spec :: PersistentVolumeClaimSpec

record StatefulSetSpecOverride =
  so_replicas :: "int option"
  so_selector :: "LabelSelector option"
  so_template :: "EmbeddedPodTemplateSpec option"
  so_volumeClaimTemplates :: "EmbeddedPersistentVolumeClaim list"
  so_serviceName :: string
  so_podManagementPolicy :: string
  so_updateStrategy :: "StatefulSetUpdateStrategy option"

record StatefulSetOverride =
  sto_meta :: "EmbeddedLabelsAnnotations option"
  sto_spec :: "StatefulSetSpecOverride option"

record ServiceOverride =
  svo_meta :: "EmbeddedLabelsAnnotations option"
  svo_spec :: "ServiceSpec option"

record RabbitmqClusterOverrideSpec =
  ov_statefulSet :: "StatefulSetOverride option"
  ov_service :: "ServiceOverride option"

record TLSSpec =
  tls_secretName :: string
  tls_caSecretName :: string
  tls_disableNonTLSListeners :: bool

record RabbitmqClusterConfigurationSpec =
  rc_additionalPlugins :: "Plugin list"
  rc_additionalConfig :: string
  rc_advancedConfig :: string
  rc_envConfig :: string

record RabbitmqClusterPersistenceSpec =
  pe_storageClassName :: "string option"
  pe_storage :: "quantity option"

record RabbitmqClusterServiceSpec =
  cs_type :: string
  cs_annotations :: gomap

record RabbitmqClusterSpec =
  sp_replicas :: "int option"
  sp_image :: string
  sp_imagePullSecrets :: "string list option"
  sp_service :: RabbitmqClusterServiceSpec
  sp_persistence :: RabbitmqClusterPersistenceSpec
  sp_resources :: "ResourceRequirements option"
  sp_affinity :: "Affinity option"
  sp_tolerations :: "Toleration list"
  sp_rabbitmq :: RabbitmqClusterConfigurationSpec
  sp_tls :: TLSSpec
  sp_override :: RabbitmqClusterOverrideSpec
  sp_skipPostDeploySteps :: bool
  sp_terminationGracePeriodSeconds :: "int option"
  sp_secretBackend :: SecretBackend

record RabbitmqClusterSecretReference =
  sr_name :: string
  sr_namespace :: string
  sr_keys :: gomap

record RabbitmqClusterServiceReference =
  vr_name :: string
  vr_namespace :: string

record RabbitmqClusterDefaultUser =
  du_secretReference :: "RabbitmqClusterSecretReference option"
  du_serviceReference :: "RabbitmqClusterServiceReference option"

record RabbitmqClusterStatus =
  st_conditions :: "RabbitmqClusterCondition list"
  st_defaultUser :: "RabbitmqClusterDefaultUser option"
  st_binding :: "string option"
  st_observedGeneration :: int

record RabbitmqCluster =
  cl_meta :: ObjectMeta
  cl_spec :: RabbitmqClusterSpec
  cl_status :: RabbitmqClusterStatus

abbreviation cluster_name :: "RabbitmqCluster \<Rightarrow> string" where
  "cluster_name c \<equiv> om_name (cl_meta c)"

abbreviation cluster_namespace :: "RabbitmqCluster \<Rightarrow> string" where
  "cluster_namespace c \<equiv> om_namespace (cl_meta c)"

text \<open>
  The specification that the API server completes for an empty one: the defaults that the
  \<open>+kubebuilder:default\<close> markers state.
\<close>

definition default_resources :: ResourceRequirements where
  "default_resources = \<lparr>rr_limits = Some [''cpu'' \<mapsto> milli 2000, ''memory'' \<mapsto> mebi 2048],
     rr_requests = Some [''cpu'' \<mapsto> milli 1000, ''memory'' \<mapsto> mebi 2048]\<rparr>"

definition default_spec :: RabbitmqClusterSpec where
  "default_spec = \<lparr>sp_replicas = Some 1, sp_image = [], sp_imagePullSecrets = None,
     sp_service = \<lparr>cs_type = ''ClusterIP'', cs_annotations = None\<rparr>,
     sp_persistence = \<lparr>pe_storageClassName = None, pe_storage = Some (mebi 10240)\<rparr>,
     sp_resources = Some default_resources, sp_affinity = None, sp_tolerations = [],
     sp_rabbitmq = \<lparr>rc_additionalPlugins = [], rc_additionalConfig = [], rc_advancedConfig = [],
       rc_envConfig = []\<rparr>,
     sp_tls = \<lparr>tls_secretName = [], tls_caSecretName = [], tls_disableNonTLSListeners = False\<rparr>,
     sp_override = \<lparr>ov_statefulSet = None, ov_service = None\<rparr>, sp_skipPostDeploySteps = False,
     sp_terminationGracePeriodSeconds = Some 604800, sp_secretBackend = \<lparr>sb_vault = None\<rparr>\<rparr>"

definition new_cluster :: "string \<Rightarrow> string \<Rightarrow> string \<Rightarrow> RabbitmqCluster" where
  "new_cluster name ns uid = \<lparr>cl_meta = (new_meta name ns)\<lparr>om_uid := uid, om_generation := 1\<rparr>,
     cl_spec = default_spec, cl_status = \<lparr>st_conditions = [], st_defaultUser = None,
       st_binding = None, st_observedGeneration = 0\<rparr>\<rparr>"

lemma new_cluster_simps [simp]:
  "cl_meta (new_cluster n ns u) = (new_meta n ns)\<lparr>om_uid := u, om_generation := 1\<rparr>"
  "cl_spec (new_cluster n ns u) = default_spec"
  by (simp_all add: new_cluster_def)

section \<open>Predicates on the specification\<close>

definition VaultSpec_TLSEnabled :: "VaultSpec \<Rightarrow> bool" where
  "VaultSpec_TLSEnabled v = (vt_pkiIssuerPath (vs_tls v) \<noteq> [])"

definition DefaultUserSecretEnabled :: "VaultSpec \<Rightarrow> bool" where
  "DefaultUserSecretEnabled v = (vs_defaultUserPath v \<noteq> [])"

definition VaultEnabled :: "RabbitmqCluster \<Rightarrow> bool" where
  "VaultEnabled c = (sb_vault (sp_secretBackend (cl_spec c)) \<noteq> None)"

definition UsesDefaultUserUpdaterImage :: "RabbitmqCluster \<Rightarrow> bool" where
  "UsesDefaultUserUpdaterImage c =
     (case sb_vault (sp_secretBackend (cl_spec c)) of
        None \<Rightarrow> False | Some v \<Rightarrow> vs_defaultUserUpdaterImage v = None)"

definition VaultDefaultUserSecretEnabled :: "RabbitmqCluster \<Rightarrow> bool" where
  "VaultDefaultUserSecretEnabled c =
     (case sb_vault (sp_secretBackend (cl_spec c)) of
        None \<Rightarrow> False | Some v \<Rightarrow> DefaultUserSecretEnabled v)"

definition VaultTLSEnabled :: "RabbitmqCluster \<Rightarrow> bool" where
  "VaultTLSEnabled c =
     (case sb_vault (sp_secretBackend (cl_spec c)) of
        None \<Rightarrow> False | Some v \<Rightarrow> VaultSpec_TLSEnabled v)"

definition SecretTLSEnabled :: "RabbitmqCluster \<Rightarrow> bool" where
  "SecretTLSEnabled c = (tls_secretName (sp_tls (cl_spec c)) \<noteq> [])"

definition TLSEnabled :: "RabbitmqCluster \<Rightarrow> bool" where
  "TLSEnabled c = (SecretTLSEnabled c \<or> VaultTLSEnabled c)"

definition MutualTLSEnabled :: "RabbitmqCluster \<Rightarrow> bool" where
  "MutualTLSEnabled c =
     ((SecretTLSEnabled c \<and> tls_caSecretName (sp_tls (cl_spec c)) \<noteq> []) \<or> VaultTLSEnabled c)"

definition MemoryLimited :: "RabbitmqCluster \<Rightarrow> bool" where
  "MemoryLimited c =
     (case sp_resources (cl_spec c) of
        None \<Rightarrow> False
      | Some r \<Rightarrow> rr_limits r \<noteq> None \<and> quantity_entry (rr_limits r) ''memory'' \<noteq> 0)"

definition SingleTLSSecret :: "RabbitmqCluster \<Rightarrow> bool" where
  "SingleTLSSecret c =
     (MutualTLSEnabled c \<and> tls_caSecretName (sp_tls (cl_spec c)) = tls_secretName (sp_tls (cl_spec c)))"

definition DisableNonTLSListeners :: "RabbitmqCluster \<Rightarrow> bool" where
  "DisableNonTLSListeners c = tls_disableNonTLSListeners (sp_tls (cl_spec c))"

definition AdditionalPluginEnabled :: "RabbitmqCluster \<Rightarrow> Plugin \<Rightarrow> bool" where
  "AdditionalPluginEnabled c p =
     list_ex (\<lambda>q. q = p) (rc_additionalPlugins (sp_rabbitmq (cl_spec c)))"

definition StreamNeeded :: "RabbitmqCluster \<Rightarrow> bool" where
  "StreamNeeded c =
     (AdditionalPluginEnabled c ''rabbitmq_stream''
      \<or> AdditionalPluginEnabled c ''rabbitmq_multi_dc_replication'')"

section \<open>Names\<close>

definition ServiceSubDomain :: "RabbitmqCluster \<Rightarrow> string" where
  "ServiceSubDomain c = cluster_name c @ ''.'' @ cluster_namespace c @ ''.svc''"

definition ChildResourceName :: "RabbitmqCluster \<Rightarrow> string \<Rightarrow> string" where
  "ChildResourceName c name = trim_suffix (join [cluster_name c, name] ''-'') ''-''"

definition PVCName :: "RabbitmqCluster \<Rightarrow> int \<Rightarrow> string" where
  "PVCName c i = join [''persistence'', cluster_name c, ''server'', itoa i] ''-''"

section \<open>Status conditions\<close>

text \<open>
  The loop over the old conditions keeps the last one of each type (a later duplicate
  overwrites the pointer).
\<close>

definition last_condition ::
  "RabbitmqClusterConditionType \<Rightarrow> RabbitmqClusterCondition list \<Rightarrow> RabbitmqClusterCondition option" where
  "last_condition t cs =
     foldl (\<lambda>acc c. if cnd_type c = t then Some c else acc) None cs"

text \<open>
  \<open>t1\<close> to \<open>t4\<close> are the readings of the clock, in the order of the calls. A panic of the
  third manager is a panic of the whole.
\<close>

definition SetConditions ::
  "gotime \<Rightarrow> gotime \<Rightarrow> gotime \<Rightarrow> gotime \<Rightarrow> child_resource list
     \<Rightarrow> RabbitmqClusterStatus \<Rightarrow> RabbitmqClusterStatus outcome" where
  "SetConditions t1 t2 t3 t4 rs st =
     (let old = (\<lambda>t. last_condition t (st_conditions st));
          allReplicasReadyCond = AllReplicasReadyCondition t1 rs (old AllReplicasReady);
          clusterAvailableCond = ClusterAvailableCondition t2 rs (old ClusterAvailable)
      in bind_ok (NoWarningsCondition t3 rs (old NoWarnings)) (\<lambda>noWarningsCond.
         let reconciledCondition =
               (case old ReconcileSuccess of
                  Some c \<Rightarrow> c
                | None \<Rightarrow> ReconcileSuccessCondition t4 ConditionUnknown ''Initialising'' [])
         in Ok (st\<lparr>st_conditions :=
              [allReplicasReadyCond, clusterAvailableCond, noWarningsCond, reconciledCondition]\<rparr>)))"

text \<open>\<open>SetCondition\<close> updates the first condition of the type and stops.\<close>

fun set_first_condition ::
  "gotime \<Rightarrow> RabbitmqClusterConditionType \<Rightarrow> ConditionStatus \<Rightarrow> string \<Rightarrow> string list
     \<Rightarrow> RabbitmqClusterCondition list \<Rightarrow> RabbitmqClusterCondition list" where
  "set_first_condition now t st r msgs [] = []"
| "set_first_condition now t st r msgs (c # cs) =
     (if cnd_type c = t then UpdateReason r msgs (UpdateState now st c) # cs
      else c # set_first_condition now t st r msgs cs)"

definition SetCondition ::
  "gotime \<Rightarrow> RabbitmqClusterConditionType \<Rightarrow> ConditionStatus \<Rightarrow> string \<Rightarrow> string list
     \<Rightarrow> RabbitmqClusterStatus \<Rightarrow> RabbitmqClusterStatus" where
  "SetCondition now t st r msgs s =
     s\<lparr>st_conditions := set_first_condition now t st r msgs (st_conditions s)\<rparr>"

section \<open>Lemmas on the predicates\<close>

lemma VaultEnabled_iff: "VaultEnabled c \<longleftrightarrow> (\<exists>v. sb_vault (sp_secretBackend (cl_spec c)) = Some v)"
  by (auto simp: VaultEnabled_def)

lemma MutualTLS_TLS: "MutualTLSEnabled c \<Longrightarrow> TLSEnabled c"
  by (auto simp: MutualTLSEnabled_def TLSEnabled_def)

lemma VaultTLS_MutualTLS: "VaultTLSEnabled c \<Longrightarrow> MutualTLSEnabled c"
  by (simp add: MutualTLSEnabled_def)

lemma AdditionalPluginEnabled_iff:
  "AdditionalPluginEnabled c p \<longleftrightarrow> p \<in> set (rc_additionalPlugins (sp_rabbitmq (cl_spec c)))"
  by (auto simp: AdditionalPluginEnabled_def list_ex_iff)

lemma ChildResourceName_suffix:
  assumes "name \<noteq> []" and "last name \<noteq> CHR ''-''"
  shows "ChildResourceName c name = cluster_name c @ ''-'' @ name"
proof -
  have "\<not> suffix ''-'' (cluster_name c @ ''-'' @ name)"
  proof
    assume "suffix ''-'' (cluster_name c @ ''-'' @ name)"
    then obtain zs where zs: "(cluster_name c @ ''-'') @ name = zs @ ''-''"
      by (auto simp: suffix_def)
    have "last name = last ((cluster_name c @ ''-'') @ name)" using assms(1) by simp
    with zs assms(2) show False by simp
  qed
  then show ?thesis by (simp add: ChildResourceName_def trim_suffix_def has_suffix_iff)
qed

lemma ChildResourceName_empty [simp]: "ChildResourceName c [] = cluster_name c"
  by (simp add: ChildResourceName_def trim_suffix_def has_suffix_def)

lemma ChildResourceName_cong:
  "cl_meta c = cl_meta c' \<Longrightarrow> ChildResourceName c n = ChildResourceName c' n"
  by (simp add: ChildResourceName_def)

text \<open>The names that the operator gives to its children, by suffix.\<close>

lemma child_names [simp]:
  "ChildResourceName c ''server'' = cluster_name c @ ''-server''"
  "ChildResourceName c ''nodes'' = cluster_name c @ ''-nodes''"
  "ChildResourceName c ''default-user'' = cluster_name c @ ''-default-user''"
  "ChildResourceName c ''erlang-cookie'' = cluster_name c @ ''-erlang-cookie''"
  "ChildResourceName c ''plugins-conf'' = cluster_name c @ ''-plugins-conf''"
  "ChildResourceName c ''server-conf'' = cluster_name c @ ''-server-conf''"
  "ChildResourceName c ''peer-discovery'' = cluster_name c @ ''-peer-discovery''"
  by (simp_all add: ChildResourceName_suffix)

lemma PVCName_inj: "PVCName c i = PVCName c j \<longleftrightarrow> i = j"
  by (simp add: PVCName_def)

section \<open>Lemmas on the conditions\<close>

lemma last_condition_snoc:
  "last_condition t (cs @ [c]) = (if cnd_type c = t then Some c else last_condition t cs)"
  by (simp add: last_condition_def)

lemma last_condition_type: "last_condition t cs = Some c \<Longrightarrow> c \<in> set cs \<and> cnd_type c = t"
  by (induction cs rule: rev_induct) (auto simp: last_condition_snoc last_condition_def split: if_splits)

lemma last_condition_None: "last_condition t cs = None \<longleftrightarrow> (\<forall>c \<in> set cs. cnd_type c \<noteq> t)"
  by (induction cs rule: rev_induct) (auto simp: last_condition_snoc last_condition_def)

lemma last_condition_four:
  assumes "cnd_type a = AllReplicasReady" "cnd_type b = ClusterAvailable"
    "cnd_type c = NoWarnings" "cnd_type d = ReconcileSuccess"
  shows "last_condition AllReplicasReady [a, b, c, d] = Some a"
    "last_condition ClusterAvailable [a, b, c, d] = Some b"
    "last_condition NoWarnings [a, b, c, d] = Some c"
    "last_condition ReconcileSuccess [a, b, c, d] = Some d"
  using assms by (simp_all add: last_condition_def)

lemma condition_types [simp]:
  "cnd_type (AllReplicasReadyCondition now rs old) = AllReplicasReady"
  "cnd_type (ClusterAvailableCondition now rs old) = ClusterAvailable"
  using all_ready.compute_type available.compute_type by blast+

lemma UpdateState_type [simp]: "cnd_type (UpdateState now st c) = cnd_type c"
  by (simp add: UpdateState_def Let_def)

lemma UpdateReason_simps [simp]:
  "cnd_type (UpdateReason r msgs c) = cnd_type c"
  "cnd_status (UpdateReason r msgs c) = cnd_status c"
  "cnd_lastTransitionTime (UpdateReason r msgs c) = cnd_lastTransitionTime c"
  "cnd_reason (UpdateReason r msgs c) = r"
  "cnd_message (UpdateReason r msgs c) = join msgs ''. ''"
  by (simp_all add: UpdateReason_def)

lemma UpdateState_simps [simp]:
  "cnd_status (UpdateState now st c) = st"
  "cnd_lastTransitionTime (UpdateState now st c) =
     (if cnd_status c = st then cnd_lastTransitionTime c else now)"
  by (simp_all add: UpdateState_def Let_def)

lemma set_first_condition_types:
  "map cnd_type (set_first_condition now t st r msgs cs) = map cnd_type cs"
  by (induction cs) auto

lemma set_first_condition_absent:
  "\<forall>c \<in> set cs. cnd_type c \<noteq> t \<Longrightarrow> set_first_condition now t st r msgs cs = cs"
  by (induction cs) auto

section \<open>Properties\<close>

text \<open>
  C10. \<open>SetConditions\<close> leaves exactly the four conditions of the operator, in a fixed order,
  each of its own type; a recorded \<open>ReconcileSuccess\<close> condition survives unchanged, and a
  new cluster starts with it unknown; nothing else in the status moves.
\<close>

theorem set_conditions_shape:
  assumes "SetConditions t1 t2 t3 t4 rs st = Ok st'"
  shows "map cnd_type (st_conditions st') = [AllReplicasReady, ClusterAvailable, NoWarnings, ReconcileSuccess]
    \<and> st_conditions st' ! 3 =
        (case last_condition ReconcileSuccess (st_conditions st) of
           Some c \<Rightarrow> c
         | None \<Rightarrow> ReconcileSuccessCondition t4 ConditionUnknown ''Initialising'' [])
    \<and> st'\<lparr>st_conditions := st_conditions st\<rparr> = st"
proof -
  from assms obtain w where w: "NoWarningsCondition t3 rs (last_condition NoWarnings (st_conditions st)) = Ok w"
    and st': "st' = st\<lparr>st_conditions :=
      [AllReplicasReadyCondition t1 rs (last_condition AllReplicasReady (st_conditions st)),
       ClusterAvailableCondition t2 rs (last_condition ClusterAvailable (st_conditions st)), w,
       (case last_condition ReconcileSuccess (st_conditions st) of Some c \<Rightarrow> c
        | None \<Rightarrow> ReconcileSuccessCondition t4 ConditionUnknown ''Initialising'' [])]\<rparr>"
    by (auto simp: SetConditions_def Let_def bind_ok_eq_Ok)
  have "cnd_type w = NoWarnings" using no_warnings.compute_type [OF w] .
  with st' show ?thesis
    by (auto simp: ReconcileSuccessCondition_def dest: last_condition_type split: option.splits)
qed

theorem set_conditions_shape_witness:
  "map cnd_type (st_conditions \<lparr>st_conditions =
     [AllReplicasReadyCondition 7 [] None, ClusterAvailableCondition 7 [] None,
      assign_transition 7 None (newRabbitmqClusterCondition NoWarnings),
      ReconcileSuccessCondition 7 ConditionUnknown ''Initialising'' []],
      st_defaultUser = None, st_binding = None, st_observedGeneration = 2\<rparr>)
   = [AllReplicasReady, ClusterAvailable, NoWarnings, ReconcileSuccess]"
proof -
  have h: "SetConditions 7 7 7 7 [] \<lparr>st_conditions = [], st_defaultUser = None, st_binding = None,
      st_observedGeneration = 2\<rparr> = Ok \<lparr>st_conditions =
     [AllReplicasReadyCondition 7 [] None, ClusterAvailableCondition 7 [] None,
      assign_transition 7 None (newRabbitmqClusterCondition NoWarnings),
      ReconcileSuccessCondition 7 ConditionUnknown ''Initialising'' []],
      st_defaultUser = None, st_binding = None, st_observedGeneration = 2\<rparr>"
    by (simp add: SetConditions_def last_condition_def NoWarningsCondition_def start_condition_def)
  from set_conditions_shape [OF h] show ?thesis by blast
qed

text \<open>
  C9. Recomputing the conditions from the same child resources changes nothing, at any later
  time: the comparison in \<open>updateStatusConditions\<close> then finds no difference, so a cluster at
  rest causes no status updates.
\<close>

theorem set_conditions_stable:
  assumes "SetConditions t1 t2 t3 t4 rs st = Ok st'"
  shows "SetConditions u1 u2 u3 u4 rs st' = Ok st'"
proof -
  let ?old = "\<lambda>t. last_condition t (st_conditions st)"
  let ?a = "AllReplicasReadyCondition t1 rs (?old AllReplicasReady)"
  let ?b = "ClusterAvailableCondition t2 rs (?old ClusterAvailable)"
  define r where "r = (case ?old ReconcileSuccess of Some c \<Rightarrow> c
    | None \<Rightarrow> ReconcileSuccessCondition t4 ConditionUnknown ''Initialising'' [])"
  from assms obtain w where w: "NoWarningsCondition t3 rs (?old NoWarnings) = Ok w"
    and st': "st' = st\<lparr>st_conditions := [?a, ?b, w, r]\<rparr>"
    by (auto simp: SetConditions_def Let_def bind_ok_eq_Ok r_def)
  have types: "cnd_type w = NoWarnings" "cnd_type r = ReconcileSuccess"
    using no_warnings.compute_type [OF w] last_condition_type
    by (auto simp: r_def ReconcileSuccessCondition_def split: option.splits)
  have "AllReplicasReadyCondition u1 rs (Some ?a) = ?a"
    using all_ready.compute_stable by blast
  moreover have "ClusterAvailableCondition u2 rs (Some ?b) = ?b"
    using available.compute_stable by blast
  moreover have "NoWarningsCondition u3 rs (Some w) = Ok w"
    using no_warnings.compute_stable [OF w] .
  moreover note last_condition_four [of ?a ?b w r]
  ultimately show ?thesis using types by (simp add: SetConditions_def st')
qed

theorem set_conditions_stable_witness:
  "\<exists>st'. SetConditions 1 2 3 4 [EndpointsResource None] \<lparr>st_conditions = [], st_defaultUser = None,
      st_binding = None, st_observedGeneration = 2\<rparr> = Ok st'
    \<and> SetConditions 5 6 7 8 [EndpointsResource None] st' = Ok st'"
proof -
  have "\<exists>st'. SetConditions 1 2 3 4 [EndpointsResource None] \<lparr>st_conditions = [], st_defaultUser = None,
      st_binding = None, st_observedGeneration = 2\<rparr> = Ok st'"
    by (simp add: SetConditions_def NoWarningsCondition_def Let_def)
  then show ?thesis using set_conditions_stable by blast
qed

text \<open>
  C8. The statuses that \<open>SetConditions\<close> reports for the child resources of a cluster:
  \<open>AllReplicasReady\<close> is true exactly if the stateful set exists and as many pods are ready as
  it wants (one, when it does not say), \<open>ClusterAvailable\<close> exactly if some subset of the
  service's endpoints has an address, \<open>NoWarnings\<close> exactly if the memory limit and request
  of the first container agree; a missing object makes its condition unknown.
\<close>

theorem set_conditions_statuses:
  assumes "SetConditions t1 t2 t3 t4 [StatefulSetResource s, EndpointsResource e] st = Ok st'"
  shows "cnd_status (st_conditions st' ! 0) =
      (case s of None \<Rightarrow> ConditionUnknown
       | Some t \<Rightarrow> if desired_replicas t = sts_readyReplicas (sts_status t)
                   then ConditionTrue else ConditionFalse)
    \<and> cnd_status (st_conditions st' ! 1) =
      (case e of None \<Rightarrow> ConditionUnknown
       | Some t \<Rightarrow> if \<exists>sub \<in> set (ep_subsets t). es_addresses sub \<noteq> []
                   then ConditionTrue else ConditionFalse)
    \<and> cnd_status (st_conditions st' ! 2) =
      (case s of None \<Rightarrow> ConditionUnknown
       | Some t \<Rightarrow>
           let r = c_resources (hd (ps_containers (pt_spec (sts_template (sts_spec t)))))
           in if quantity_entry (rr_limits r) ''memory'' = quantity_entry (rr_requests r) ''memory''
              then ConditionTrue else ConditionFalse)"
proof -
  from assms obtain w where
    w: "NoWarningsCondition t3 [StatefulSetResource s, EndpointsResource e]
          (last_condition NoWarnings (st_conditions st)) = Ok w"
    and conds: "st_conditions st' ! 0 = AllReplicasReadyCondition t1 [StatefulSetResource s, EndpointsResource e]
          (last_condition AllReplicasReady (st_conditions st))"
      "st_conditions st' ! 1 = ClusterAvailableCondition t2 [StatefulSetResource s, EndpointsResource e]
          (last_condition ClusterAvailable (st_conditions st))"
      "st_conditions st' ! 2 = w"
    by (auto simp: SetConditions_def Let_def bind_ok_eq_Ok)
  have "cnd_status w = (case s of None \<Rightarrow> ConditionUnknown
       | Some t \<Rightarrow>
           let r = c_resources (hd (ps_containers (pt_spec (sts_template (sts_spec t)))))
           in if quantity_entry (rr_limits r) ''memory'' = quantity_entry (rr_requests r) ''memory''
              then ConditionTrue else ConditionFalse)"
    using w by (auto simp: NoWarningsCondition_def Let_def bind_ok_eq_Ok split: option.splits list.splits if_splits)
  with conds show ?thesis
    by (simp add: all_replicas_status cluster_available_status)
qed

theorem set_conditions_statuses_witness:
  "\<exists>st'. SetConditions 1 2 3 4 [StatefulSetResource None, EndpointsResource (Some
        \<lparr>ep_meta = new_meta ''r'' ''ns'', ep_subsets = [\<lparr>es_addresses = [''10.0.0.1'']\<rparr>]\<rparr>)]
      \<lparr>st_conditions = [], st_defaultUser = None, st_binding = None, st_observedGeneration = 0\<rparr> = Ok st'
    \<and> cnd_status (st_conditions st' ! 0) = ConditionUnknown
    \<and> cnd_status (st_conditions st' ! 1) = ConditionTrue"
proof -
  obtain st' where st': "SetConditions 1 2 3 4 [StatefulSetResource None, EndpointsResource (Some
        \<lparr>ep_meta = new_meta ''r'' ''ns'', ep_subsets = [\<lparr>es_addresses = [''10.0.0.1'']\<rparr>]\<rparr>)]
      \<lparr>st_conditions = [], st_defaultUser = None, st_binding = None, st_observedGeneration = 0\<rparr> = Ok st'"
    by (auto simp: SetConditions_def NoWarningsCondition_def Let_def)
  from set_conditions_statuses [OF st'] st' show ?thesis by auto
qed

text \<open>
  C11. \<open>SetCondition\<close> rewrites the first condition of the given type and no other: its type
  stays, its status, reason and message are those given, and its transition time moves to
  the present exactly if the status changes. Without such a condition it does nothing.
\<close>

theorem set_condition_effect:
  "(\<forall>pre c post. st_conditions s = pre @ c # post \<and> cnd_type c = t
      \<and> (\<forall>p \<in> set pre. cnd_type p \<noteq> t) \<longrightarrow>
      SetCondition now t st r msgs s = s\<lparr>st_conditions := pre @
        \<lparr>cnd_type = t, cnd_status = st,
         cnd_lastTransitionTime = (if cnd_status c = st then cnd_lastTransitionTime c else now),
         cnd_reason = r, cnd_message = join msgs ''. ''\<rparr> # post\<rparr>)
   \<and> ((\<forall>c \<in> set (st_conditions s). cnd_type c \<noteq> t) \<longrightarrow> SetCondition now t st r msgs s = s)"
proof -
  have "set_first_condition now t st r msgs (pre @ c # post) = pre @
      \<lparr>cnd_type = t, cnd_status = st,
       cnd_lastTransitionTime = (if cnd_status c = st then cnd_lastTransitionTime c else now),
       cnd_reason = r, cnd_message = join msgs ''. ''\<rparr> # post"
    if "cnd_type c = t" "\<forall>p \<in> set pre. cnd_type p \<noteq> t" for pre c post
    using that by (induction pre) simp_all
  then show ?thesis by (auto simp: SetCondition_def set_first_condition_absent)
qed

theorem set_condition_effect_witness:
  "SetCondition 9 NoWarnings ConditionFalse ''reconciliation paused'' []
     \<lparr>st_conditions = [newRabbitmqClusterCondition AllReplicasReady, newRabbitmqClusterCondition NoWarnings],
      st_defaultUser = None, st_binding = None, st_observedGeneration = 0\<rparr>
   = \<lparr>st_conditions = [newRabbitmqClusterCondition AllReplicasReady,
        \<lparr>cnd_type = NoWarnings, cnd_status = ConditionFalse, cnd_lastTransitionTime = 9,
         cnd_reason = ''reconciliation paused'', cnd_message = []\<rparr>],
      st_defaultUser = None, st_binding = None, st_observedGeneration = 0\<rparr>"
proof -
  let ?s = "\<lparr>st_conditions = [newRabbitmqClusterCondition AllReplicasReady,
      newRabbitmqClusterCondition NoWarnings], st_defaultUser = None, st_binding = None,
      st_observedGeneration = 0\<rparr>"
  have "st_conditions ?s = [newRabbitmqClusterCondition AllReplicasReady] @
      newRabbitmqClusterCondition NoWarnings # []
    \<and> cnd_type (newRabbitmqClusterCondition NoWarnings) = NoWarnings
    \<and> (\<forall>p \<in> set [newRabbitmqClusterCondition AllReplicasReady]. cnd_type p \<noteq> NoWarnings)"
    by (simp add: newRabbitmqClusterCondition_def)
  from set_condition_effect [of ?s NoWarnings 9 ConditionFalse "''reconciliation paused''" "[]",
      THEN conjunct1, rule_format, OF this]
  show ?thesis by (simp add: newRabbitmqClusterCondition_def)
qed

end
