(* ===== verification/Op_Metadata.thy ===== *)
theory Op_Metadata
  imports Cluster_Types
begin

text \<open>
  Package \<open>internal/metadata\<close>: the labels of child objects, the label selector of the
  services and the stateful set, and the reconciliation of annotations.
\<close>

section \<open>Annotations\<close>

definition isKubernetesAnnotation :: "string \<Rightarrow> bool" where
  "isKubernetesAnnotation k = (str_contains k ''kubernetes.io'' \<or> str_contains k ''k8s.io'')"

definition isNotKubernetesAnnotation :: "string \<Rightarrow> bool" where
  "isNotKubernetesAnnotation k = (\<not> isKubernetesAnnotation k)"

text \<open>
  The inner loop stores every entry of \<open>m\<close> that passes the filter; the keys of a map are
  distinct, so the order of iteration does not matter. The outer loop runs over the maps in
  order. The result is never nil.
\<close>

definition store_all :: "(string \<Rightarrow> bool) \<Rightarrow> gomap \<Rightarrow> (string \<rightharpoonup> string) \<Rightarrow> (string \<rightharpoonup> string)" where
  "store_all filterFn m result =
     (\<lambda>k. case entries m k of Some v \<Rightarrow> if filterFn k then Some v else result k | None \<Rightarrow> result k)"

definition mergeWithFilter :: "(string \<Rightarrow> bool) \<Rightarrow> gomap \<Rightarrow> gomap list \<Rightarrow> gomap" where
  "mergeWithFilter filterFn base maps =
     Some (fold (store_all filterFn) maps (entries base))"

definition ReconcileAnnotations :: "gomap \<Rightarrow> gomap list \<Rightarrow> gomap" where
  "ReconcileAnnotations existing defaults = mergeWithFilter (\<lambda>k. True) existing defaults"

definition ReconcileAndFilterAnnotations :: "gomap \<Rightarrow> gomap list \<Rightarrow> gomap" where
  "ReconcileAndFilterAnnotations existing defaults =
     mergeWithFilter isNotKubernetesAnnotation existing defaults"

section \<open>Labels\<close>

definition Label :: "string \<Rightarrow> gomap" where
  "Label instanceName = Some [''app.kubernetes.io/name'' \<mapsto> instanceName,
     ''app.kubernetes.io/component'' \<mapsto> ''rabbitmq'',
     ''app.kubernetes.io/part-of'' \<mapsto> ''rabbitmq'']"

definition GetLabels :: "string \<Rightarrow> gomap \<Rightarrow> gomap" where
  "GetLabels instanceName instanceLabels =
     Some (store_all (\<lambda>label. \<not> has_prefix label ''app.kubernetes.io'') instanceLabels
             (entries (Label instanceName)))"

definition LabelSelector_of :: "string \<Rightarrow> gomap" where
  "LabelSelector_of instanceName = Some [''app.kubernetes.io/name'' \<mapsto> instanceName]"

text \<open>\<open>mergeMap\<close> of \<open>statefulset.go\<close>: the override wins.\<close>

definition mergeMap :: "gomap \<Rightarrow> gomap \<Rightarrow> gomap" where
  "mergeMap base override = Some (store_all (\<lambda>k. True) override (entries base))"

text \<open>A label selector selects an object whose labels extend it.\<close>

definition selects :: "gomap \<Rightarrow> gomap \<Rightarrow> bool" where
  "selects sel labels = (entries sel \<subseteq>\<^sub>m entries labels)"

section \<open>Lemmas\<close>

lemma store_all_idem: "store_all f m (store_all f m r) = store_all f m r"
  by (auto simp: store_all_def fun_eq_iff split: option.splits)

lemma store_all_None [simp]: "store_all f None r = r"
  by (simp add: store_all_def)

lemma store_all_True: "store_all (\<lambda>k. True) m r = r ++ entries m"
  by (auto simp: store_all_def map_add_def fun_eq_iff split: option.splits)

lemma entries_mergeWithFilter [simp]:
  "entries (mergeWithFilter f base maps) = fold (store_all f) maps (entries base)"
  by (simp add: mergeWithFilter_def)

lemma entries_mergeMap [simp]: "entries (mergeMap base ov) = entries base ++ entries ov"
  by (simp add: mergeMap_def store_all_True)

lemma mergeWithFilter_not_nil [simp]: "mergeWithFilter f base maps \<noteq> None"
  by (simp add: mergeWithFilter_def)

text \<open>Merging the same defaults a second time changes nothing.\<close>

lemma ReconcileAndFilter_idem:
  "ReconcileAndFilterAnnotations (ReconcileAndFilterAnnotations m [d]) [d]
     = ReconcileAndFilterAnnotations m [d]"
  by (simp add: ReconcileAndFilterAnnotations_def mergeWithFilter_def store_all_idem)

text \<open>Each merge of one map adds a fixed table, so it can be done again without effect.\<close>

lemma ReconcileAndFilter_add:
  "ReconcileAndFilterAnnotations m [d] = Some (entries m ++ (entries d |` Collect isNotKubernetesAnnotation))"
  by (auto simp: ReconcileAndFilterAnnotations_def mergeWithFilter_def store_all_def map_add_def
      restrict_map_def fun_eq_iff split: option.splits)

lemma ReconcileAnnotations_add: "ReconcileAnnotations m [d] = Some (entries m ++ entries d)"
  by (simp add: ReconcileAnnotations_def mergeWithFilter_def store_all_True)

lemma mergeMap_add: "mergeMap m d = Some (entries m ++ entries d)"
  by (simp add: mergeMap_def store_all_True)

lemma map_add_twice: "(e ++ d) ++ d = e ++ d"
  by (auto simp: map_add_def fun_eq_iff split: option.splits)

lemma entries_Label:
  "entries (Label n) = [''app.kubernetes.io/name'' \<mapsto> n,
     ''app.kubernetes.io/component'' \<mapsto> ''rabbitmq'', ''app.kubernetes.io/part-of'' \<mapsto> ''rabbitmq'']"
  by (simp add: Label_def)

lemma entries_GetLabels:
  "entries (GetLabels n ls) k =
     (if has_prefix k ''app.kubernetes.io'' then entries (Label n) k
      else case entries ls k of None \<Rightarrow> entries (Label n) k | Some v \<Rightarrow> Some v)"
  by (auto simp: GetLabels_def store_all_def split: option.splits)

lemma Label_prefix: "entries (Label n) k \<noteq> None \<Longrightarrow> has_prefix k ''app.kubernetes.io''"
  by (auto simp: entries_Label has_prefix_def split: if_splits)

lemma selector_selects_labels: "selects (LabelSelector_of n) (GetLabels n ls)"
  by (auto simp: selects_def LabelSelector_of_def map_le_def entries_GetLabels entries_Label has_prefix_def)

lemma selector_selects_label: "selects (LabelSelector_of n) (Label n)"
  by (auto simp: selects_def LabelSelector_of_def map_le_def entries_Label)

lemma selector_name: "selects (LabelSelector_of n) ls \<Longrightarrow> entries ls ''app.kubernetes.io/name'' = Some n"
  by (auto simp: selects_def LabelSelector_of_def map_le_def)

section \<open>Properties\<close>

text \<open>
  C12. The labels of every child object: the three reserved labels of the operator have their
  values whatever labels the user puts on the custom resource, no other label of the reserved
  prefix gets in, and every other user label does. So the selector of an instance selects the
  objects labelled for it, and no object labelled for an instance of another name.
\<close>

theorem labels_reserved:
  "(\<forall>k. has_prefix k ''app.kubernetes.io'' \<longrightarrow> entries (GetLabels n ls) k = entries (Label n) k)
   \<and> (\<forall>k. \<not> has_prefix k ''app.kubernetes.io'' \<longrightarrow> entries (GetLabels n ls) k = entries ls k)
   \<and> (selects (LabelSelector_of n') (GetLabels n ls) \<longleftrightarrow> n' = n)"
proof -
  have "entries (Label n) k = None" if "\<not> has_prefix k ''app.kubernetes.io''" for k
    using Label_prefix that by blast
  then have "\<forall>k. \<not> has_prefix k ''app.kubernetes.io'' \<longrightarrow> entries (GetLabels n ls) k = entries ls k"
    by (auto simp: entries_GetLabels split: option.splits)
  moreover have "selects (LabelSelector_of n') (GetLabels n ls) \<longleftrightarrow> n' = n"
    using selector_name [of n' "GetLabels n ls"] selector_name [OF selector_selects_labels, of n ls]
      selector_selects_labels by auto
  ultimately show ?thesis by (simp add: entries_GetLabels)
qed

theorem labels_reserved_witness:
  "entries (GetLabels ''rabbit'' (Some [''app.kubernetes.io/name'' \<mapsto> ''mine'', ''team'' \<mapsto> ''red'']))
      ''app.kubernetes.io/name'' = Some ''rabbit''
   \<and> entries (GetLabels ''rabbit'' (Some [''app.kubernetes.io/name'' \<mapsto> ''mine'', ''team'' \<mapsto> ''red'']))
      ''team'' = Some ''red''"
proof -
  note all = labels_reserved [of "''rabbit''" "Some [''app.kubernetes.io/name'' \<mapsto> ''mine'', ''team'' \<mapsto> ''red'']"]
  show ?thesis
    using all [THEN conjunct1, rule_format, of "''app.kubernetes.io/name''"]
      all [THEN conjunct2, THEN conjunct1, rule_format, of "''team''"]
    by (simp add: has_prefix_def entries_Label)
qed

text \<open>
  C13. Annotation reconciliation: annotations of the Kubernetes domains already on the child
  are never overwritten or added from the custom resource; every other key takes the value of
  the last map that has it, and keeps the child's value if none has; a second reconciliation
  with the same annotations changes nothing.
\<close>

theorem annotations_reconciled:
  "(\<forall>k. isKubernetesAnnotation k \<longrightarrow>
      entries (ReconcileAndFilterAnnotations existing ds) k = entries existing k)
   \<and> (\<forall>k. \<not> isKubernetesAnnotation k \<longrightarrow>
      entries (ReconcileAndFilterAnnotations existing ds) k =
        entries (ReconcileAnnotations existing ds) k)
   \<and> entries (ReconcileAnnotations existing ds) = foldl (++) (entries existing) (map entries ds)
   \<and> ReconcileAndFilterAnnotations (ReconcileAndFilterAnnotations existing [d]) [d]
       = ReconcileAndFilterAnnotations existing [d]"
proof -
  have kept: "fold (store_all isNotKubernetesAnnotation) ds r k = r k" if "isKubernetesAnnotation k" for k r
    using that by (induction ds arbitrary: r)
      (auto simp: store_all_def isNotKubernetesAnnotation_def split: option.splits)
  have merged: "fold (store_all isNotKubernetesAnnotation) ds r k = fold (store_all (\<lambda>k. True)) ds r' k"
    if "\<not> isKubernetesAnnotation k" "r k = r' k" for k r r'
    using that
  proof (induction ds arbitrary: r r')
    case (Cons d ds)
    then have "store_all isNotKubernetesAnnotation d r k = store_all (\<lambda>k. True) d r' k"
      by (simp add: store_all_def isNotKubernetesAnnotation_def split: option.splits)
    with Cons show ?case by simp
  qed simp
  have "fold (store_all (\<lambda>k. True)) ds r = foldl (++) r (map entries ds)" for r
    by (induction ds arbitrary: r) (simp_all add: store_all_True)
  with kept merged show ?thesis
    by (auto simp: ReconcileAndFilterAnnotations_def ReconcileAnnotations_def
        ReconcileAndFilter_idem [unfolded ReconcileAndFilterAnnotations_def])
qed

theorem annotations_reconciled_witness:
  "entries (ReconcileAndFilterAnnotations (Some [''a.k8s.io/x'' \<mapsto> ''kept''])
     [Some [''a.k8s.io/x'' \<mapsto> ''new'', ''y'' \<mapsto> ''1'']]) ''a.k8s.io/x'' = Some ''kept''"
  using annotations_reconciled [of "Some [''a.k8s.io/x'' \<mapsto> ''kept'']"
      "[Some [''a.k8s.io/x'' \<mapsto> ''new'', ''y'' \<mapsto> ''1'']]", THEN conjunct1, rule_format,
      of "''a.k8s.io/x''"]
  by (simp add: isKubernetesAnnotation_def has_prefix_def)

end
