(* ===== verification/Builder_Interface.thy ===== *)
theory Builder_Interface
  imports Op_Metadata
begin

text \<open>
  What the resource builders (package \<open>internal/resource\<close>) share: the library functions
  they call, which are parameters of the model, and the Go interface \<open>ResourceBuilder\<close> as a
  locale. Each builder interprets the locale in its own theory.
\<close>

section \<open>Library functions\<close>

text \<open>
  An \<open>ini.File\<close> of gopkg.in/ini.v1 is known to the operator by the calls made on it:
  \<open>Load\<close>, \<open>Empty\<close>, \<open>Append\<close> and \<open>NewKey\<close> in the default section.
\<close>

datatype ini_file =
    IniLoad string
  | IniEmpty
  | IniAppend ini_file string
  | IniNewKey ini_file string string

text \<open>
  The bytes of a JSON document. The operator never looks into them: it has \<open>json.Marshal\<close>
  write them, \<open>strategicpatch.StrategicMergePatch\<close> merge two of them, and \<open>json.Unmarshal\<close>
  read them back.
\<close>

datatype json_doc = ServiceSpecDoc ServiceSpec | PodSpecDoc PodSpec | TextDoc string

text \<open>
  The third-party functions the builders call. \<open>lib_range\<close> is the order in which Go ranges
  over a map, given with its entries in the order they were stored; the language leaves it
  open. \<open>lib_ini\<close> is the result of the last call made on an ini file, \<open>lib_ini_write\<close> that
  of \<open>WriteTo\<close>.
\<close>

record lib =
  lib_set_controller_reference :: "ObjectMeta \<Rightarrow> ObjectMeta \<Rightarrow> ObjectMeta outcome"
  lib_marshal_service_spec :: "ServiceSpec \<Rightarrow> json_doc outcome"
  lib_merge_service_spec :: "json_doc \<Rightarrow> json_doc \<Rightarrow> json_doc outcome"
  lib_unmarshal_service_spec :: "json_doc \<Rightarrow> ServiceSpec outcome"
  lib_marshal_pod_spec :: "PodSpec \<Rightarrow> json_doc outcome"
  lib_merge_pod_spec :: "json_doc \<Rightarrow> json_doc \<Rightarrow> json_doc outcome"
  lib_unmarshal_pod_spec :: "json_doc \<Rightarrow> PodSpec outcome"
  lib_range :: "string list \<Rightarrow> string list"
  lib_ini :: "ini_file \<Rightarrow> unit outcome"
  lib_ini_write :: "ini_file \<Rightarrow> string outcome"

text \<open>The bytes that successive calls of \<open>crypto/rand.Read\<close> deliver, or its error.\<close>

type_synonym rand_source = "nat \<Rightarrow> (nat \<Rightarrow> 8 word) outcome"

section \<open>Documented behaviour of the library\<close>

text \<open>
  \<open>SetControllerReference(owner, controlled)\<close>: on success the owner is the controller of the
  object, only the owner references have changed, and setting it again changes nothing.
\<close>

definition sets_controller :: "(ObjectMeta \<Rightarrow> ObjectMeta \<Rightarrow> ObjectMeta outcome) \<Rightarrow> bool" where
  "sets_controller f \<longleftrightarrow>
     (\<forall>ow m m'. f ow m = Ok m' \<longrightarrow>
        (\<exists>r. controller_of m' = Some r \<and> or_uid r = om_uid ow \<and> or_name r = om_name ow)
        \<and> m'\<lparr>om_ownerReferences := om_ownerReferences m\<rparr> = m
        \<and> (\<forall>m2. om_ownerReferences m2 = om_ownerReferences m' \<and> om_namespace m2 = om_namespace m'
              \<longrightarrow> f ow m2 = Ok m2))"

text \<open>Ranging over a map visits every entry once.\<close>

definition ranges_map :: "(string list \<Rightarrow> string list) \<Rightarrow> bool" where
  "ranges_map f \<longleftrightarrow> (\<forall>ks. mset (f ks) = mset ks)"

definition lib_ok :: "lib \<Rightarrow> bool" where
  "lib_ok L \<longleftrightarrow> sets_controller (lib_set_controller_reference L) \<and> ranges_map (lib_range L)"

text \<open>
  A library instance, to evaluate the model on: the controller reference replaces the one the
  object has, an object with another controller is refused, a patched document is the override itself,
  and maps are ranged in the order of their keys.
\<close>

definition owner_ref :: "ObjectMeta \<Rightarrow> OwnerReference" where
  "owner_ref ow = \<lparr>or_apiVersion = ''rabbitmq.com/v1beta1'', or_kind = ''RabbitmqCluster'',
     or_name = om_name ow, or_uid = om_uid ow, or_controller = Some True,
     or_blockOwnerDeletion = Some True\<rparr>"

definition sample_set_controller :: "ObjectMeta \<Rightarrow> ObjectMeta \<Rightarrow> ObjectMeta outcome" where
  "sample_set_controller ow m =
     (case controller_of m of
        None \<Rightarrow> Ok (m\<lparr>om_ownerReferences := owner_ref ow # om_ownerReferences m\<rparr>)
      | Some r \<Rightarrow> if or_uid r = om_uid ow \<and> or_name r = om_name ow then Ok m
                  else Err (Errorf ''already owned''))"

definition sample_lib :: lib where
  "sample_lib = \<lparr>lib_set_controller_reference = sample_set_controller,
     lib_marshal_service_spec = (\<lambda>s. Ok (ServiceSpecDoc s)), lib_merge_service_spec = (\<lambda>s p. Ok p),
     lib_unmarshal_service_spec =
       (\<lambda>d. case d of ServiceSpecDoc s \<Rightarrow> Ok s | _ \<Rightarrow> Err (Errorf ''not a service specification'')),
     lib_marshal_pod_spec = (\<lambda>s. Ok (PodSpecDoc s)), lib_merge_pod_spec = (\<lambda>s p. Ok p),
     lib_unmarshal_pod_spec =
       (\<lambda>d. case d of PodSpecDoc s \<Rightarrow> Ok s | _ \<Rightarrow> Err (Errorf ''not a pod specification'')),
     lib_range = (\<lambda>ks. ks), lib_ini = (\<lambda>f. Ok ()), lib_ini_write = (\<lambda>f. Ok [])\<rparr>"

lemma sets_controllerD:
  assumes "sets_controller f" "f ow m = Ok m'"
  shows "om_name m' = om_name m" "om_namespace m' = om_namespace m" "om_uid m' = om_uid m"
    "om_labels m' = om_labels m" "om_annotations m' = om_annotations m"
    "om_finalizers m' = om_finalizers m" "om_deletionTimestamp m' = om_deletionTimestamp m"
    "om_generation m' = om_generation m"
    "\<exists>r. controller_of m' = Some r \<and> or_uid r = om_uid ow \<and> or_name r = om_name ow"
proof -
  from assms have eq: "m'\<lparr>om_ownerReferences := om_ownerReferences m\<rparr> = m"
    and ctl: "\<exists>r. controller_of m' = Some r \<and> or_uid r = om_uid ow \<and> or_name r = om_name ow"
    unfolding sets_controller_def by blast+
  show "om_name m' = om_name m" "om_namespace m' = om_namespace m" "om_uid m' = om_uid m"
    "om_labels m' = om_labels m" "om_annotations m' = om_annotations m"
    "om_finalizers m' = om_finalizers m" "om_deletionTimestamp m' = om_deletionTimestamp m"
    "om_generation m' = om_generation m"
    by (subst eq [symmetric], simp)+
  show "\<exists>r. controller_of m' = Some r \<and> or_uid r = om_uid ow \<and> or_name r = om_name ow"
    by (rule ctl)
qed

lemma sets_controller_again:
  assumes "sets_controller f" "f ow m = Ok m'" "om_ownerReferences m2 = om_ownerReferences m'"
    "om_namespace m2 = om_namespace m'"
  shows "f ow m2 = Ok m2"
  using assms unfolding sets_controller_def by blast

lemma lib_okD:
  assumes "lib_ok L"
  shows "sets_controller (lib_set_controller_reference L)" "ranges_map (lib_range L)"
  using assms by (simp_all add: lib_ok_def)

lemma ranges_map_set: "ranges_map f \<Longrightarrow> set (f ks) = set ks"
  unfolding ranges_map_def by (metis set_mset_mset)

lemma ranges_map_distinct: "ranges_map f \<Longrightarrow> distinct (f ks) = distinct ks"
  unfolding ranges_map_def by (metis mset_eq_imp_distinct_iff)

lemma sample_lib_ok: "lib_ok sample_lib"
  by (auto simp: lib_ok_def sample_lib_def ranges_map_def sets_controller_def
      sample_set_controller_def owner_ref_def controller_of_def split: option.splits if_splits)

section \<open>The interface ResourceBuilder\<close>

text \<open>
  \<open>build\<close> makes the object to create, \<open>update\<close> brings an existing object in line with the
  custom resource; \<open>meta_of\<close> reads the object's metadata. \<open>settled\<close> says for which custom
  resources a second update is promised to change nothing.
\<close>

locale resource_builder =
  fixes suffix :: string
    and meta_of :: "'o \<Rightarrow> ObjectMeta"
    and settled :: "RabbitmqCluster \<Rightarrow> bool"
    and build :: "lib \<Rightarrow> rand_source \<Rightarrow> RabbitmqCluster \<Rightarrow> 'o outcome"
    and upd :: "lib \<Rightarrow> RabbitmqCluster \<Rightarrow> 'o \<Rightarrow> 'o outcome"
  assumes build_name: "build L rnd c = Ok x \<Longrightarrow>
      om_name (meta_of x) = ChildResourceName c suffix \<and> om_namespace (meta_of x) = cluster_namespace c"
    and build_unowned: "build L rnd c = Ok x \<Longrightarrow> om_ownerReferences (meta_of x) = []"
    and upd_identity: "lib_ok L \<Longrightarrow> upd L c x = Ok y \<Longrightarrow>
      om_name (meta_of y) = om_name (meta_of x) \<and> om_namespace (meta_of y) = om_namespace (meta_of x)
      \<and> om_uid (meta_of y) = om_uid (meta_of x)"
    and upd_owned: "lib_ok L \<Longrightarrow> upd L c x = Ok y \<Longrightarrow>
      \<exists>r. controller_of (meta_of y) = Some r \<and> or_uid r = om_uid (cl_meta c) \<and> or_name r = cluster_name c"
    and upd_idem: "lib_ok L \<Longrightarrow> settled c \<Longrightarrow> upd L c x = Ok y \<Longrightarrow> upd L c y = Ok y"
begin

text \<open>
  What \<open>CreateOrUpdate\<close> does with a new object: build, then update. The object has the name
  derived from the custom resource, lives in its namespace and is controlled by it, and a
  further reconciliation leaves it alone.
\<close>

lemma created_object:
  assumes "lib_ok L" "build L rnd c = Ok x" "upd L c x = Ok y"
  shows "om_name (meta_of y) = ChildResourceName c suffix
    \<and> om_namespace (meta_of y) = cluster_namespace c
    \<and> (\<exists>r. controller_of (meta_of y) = Some r \<and> or_uid r = om_uid (cl_meta c) \<and> or_name r = cluster_name c)
    \<and> (settled c \<longrightarrow> upd L c y = Ok y)"
  using upd_identity [OF assms(1,3)] build_name [OF assms(2)] upd_owned [OF assms(1,3)]
    upd_idem [OF assms(1) _ assms(3)] by simp

end

text \<open>Builders whose update also sets the labels of the instance.\<close>

locale labelled_builder = resource_builder +
  assumes upd_labels: "lib_ok L \<Longrightarrow> upd L c x = Ok y \<Longrightarrow>
      entries (om_labels (meta_of y)) = entries (GetLabels (cluster_name c) (om_labels (cl_meta c)))"
    and upd_annotations: "lib_ok L \<Longrightarrow> upd L c x = Ok y \<Longrightarrow> isKubernetesAnnotation k \<Longrightarrow>
      entries (om_annotations (meta_of y)) k = entries (om_annotations (meta_of x)) k"
begin

lemma upd_selected:
  assumes "lib_ok L" "upd L c x = Ok y"
  shows "selects (LabelSelector_of (cluster_name c)) (om_labels (meta_of y))"
  using upd_labels [OF assms] selector_selects_labels by (simp add: selects_def)

end

section \<open>Metadata updates that most builders make\<close>

text \<open>
  The two assignments at the head of most \<open>Update\<close> methods, and the call that ends them.
\<close>

definition set_labels_annotations :: "RabbitmqCluster \<Rightarrow> ObjectMeta \<Rightarrow> ObjectMeta" where
  "set_labels_annotations c m = m\<lparr>om_labels := GetLabels (cluster_name c) (om_labels (cl_meta c)),
     om_annotations := ReconcileAndFilterAnnotations (om_annotations m) [om_annotations (cl_meta c)]\<rparr>"

definition set_owner :: "lib \<Rightarrow> RabbitmqCluster \<Rightarrow> ObjectMeta \<Rightarrow> ObjectMeta outcome" where
  "set_owner L c m =
     wrap_err ''failed setting controller reference'' (lib_set_controller_reference L (cl_meta c) m)"

lemma set_labels_annotations_simps [simp]:
  "om_name (set_labels_annotations c m) = om_name m"
  "om_namespace (set_labels_annotations c m) = om_namespace m"
  "om_uid (set_labels_annotations c m) = om_uid m"
  "om_ownerReferences (set_labels_annotations c m) = om_ownerReferences m"
  "om_labels (set_labels_annotations c m) = GetLabels (cluster_name c) (om_labels (cl_meta c))"
  "om_annotations (set_labels_annotations c m) =
     ReconcileAndFilterAnnotations (om_annotations m) [om_annotations (cl_meta c)]"
  by (simp_all add: set_labels_annotations_def)

lemma set_owner_facts:
  assumes "lib_ok L" "set_owner L c m = Ok m'"
  shows "om_name m' = om_name m" "om_namespace m' = om_namespace m" "om_uid m' = om_uid m"
    "om_labels m' = om_labels m" "om_annotations m' = om_annotations m"
    "\<exists>r. controller_of m' = Some r \<and> or_uid r = om_uid (cl_meta c) \<and> or_name r = cluster_name c"
  using sets_controllerD [OF lib_okD(1) [OF assms(1)], of "cl_meta c" m m'] assms(2)
  by (simp_all add: set_owner_def wrap_err_eq_Ok)

lemma set_owner_again:
  assumes "lib_ok L" "set_owner L c m = Ok m'" "om_ownerReferences m2 = om_ownerReferences m'"
    "om_namespace m2 = om_namespace m'"
  shows "set_owner L c m2 = Ok m2"
  using sets_controller_again [OF lib_okD(1) [OF assms(1)], of "cl_meta c" m m' m2] assms(2-4)
  by (simp add: set_owner_def wrap_err_eq_Ok)

lemma sample_set_owner:
  "om_ownerReferences m = [] \<Longrightarrow>
     set_owner sample_lib c m = Ok (m\<lparr>om_ownerReferences := [owner_ref (cl_meta c)]\<rparr>)"
  by (simp add: set_owner_def sample_lib_def sample_set_controller_def controller_of_def)

text \<open>Doing both twice is doing them once.\<close>

lemma set_labels_owner_idem:
  assumes "lib_ok L" "set_owner L c (set_labels_annotations c m) = Ok m'"
  shows "set_owner L c (set_labels_annotations c m') = Ok m'"
proof -
  have "set_labels_annotations c m' = m'"
    using set_owner_facts [OF assms] by (simp add: set_labels_annotations_def ReconcileAndFilter_idem)
  moreover have "set_owner L c m' = Ok m'"
    using set_owner_again [OF assms] by simp
  ultimately show ?thesis by simp
qed

lemma annotations_kubernetes:
  "isKubernetesAnnotation k \<Longrightarrow> entries (ReconcileAndFilterAnnotations m [d]) k = entries m k"
  by (simp add: ReconcileAndFilterAnnotations_def store_all_def isNotKubernetesAnnotation_def
      split: option.splits)

section \<open>Builders that set labels, annotations, their content and the owner\<close>

text \<open>
  Most \<open>Update\<close> methods have one shape: assign the labels and the annotations, bring the
  content of the object in line (\<open>body\<close>), set the controller reference. Such a builder
  keeps the whole contract if its \<open>body\<close> is idempotent.
\<close>

locale metadata_builder =
  fixes suffix :: string
    and meta_of :: "'o \<Rightarrow> ObjectMeta"
    and with_meta :: "ObjectMeta \<Rightarrow> 'o \<Rightarrow> 'o"
    and body :: "RabbitmqCluster \<Rightarrow> 'o \<Rightarrow> 'o outcome"
    and build :: "lib \<Rightarrow> rand_source \<Rightarrow> RabbitmqCluster \<Rightarrow> 'o outcome"
    and upd :: "lib \<Rightarrow> RabbitmqCluster \<Rightarrow> 'o \<Rightarrow> 'o outcome"
  assumes build_meta: "build L rnd c = Ok x \<Longrightarrow>
      meta_of x = new_meta (ChildResourceName c suffix) (cluster_namespace c)"
    and upd_Ok: "upd L c x = Ok y \<longleftrightarrow>
      (\<exists>m x'. set_owner L c (set_labels_annotations c (meta_of x)) = Ok m
        \<and> body c x = Ok x' \<and> y = with_meta m x')"
    and meta_of_with_meta: "meta_of (with_meta m x) = m"
    and with_meta_twice: "with_meta m (with_meta m x) = with_meta m x"
    and body_again: "body c x = Ok x' \<Longrightarrow> body c (with_meta m x') = Ok (with_meta m x')"

sublocale metadata_builder \<subseteq> labelled_builder suffix meta_of "\<lambda>c. True" build upd
proof unfold_locales
  fix L rnd c x
  assume "build L rnd c = Ok x"
  then show "om_name (meta_of x) = ChildResourceName c suffix \<and> om_namespace (meta_of x) = cluster_namespace c"
    "om_ownerReferences (meta_of x) = []" by (simp_all add: build_meta)
next
  fix L c x y k
  assume L: "lib_ok L" and "upd L c x = Ok y"
  then obtain m x' where m: "set_owner L c (set_labels_annotations c (meta_of x)) = Ok m"
    and body: "body c x = Ok x'" and y: "y = with_meta m x'" unfolding upd_Ok by blast
  note facts = set_owner_facts [OF L m]
  show "om_name (meta_of y) = om_name (meta_of x) \<and> om_namespace (meta_of y) = om_namespace (meta_of x)
      \<and> om_uid (meta_of y) = om_uid (meta_of x)"
    "\<exists>r. controller_of (meta_of y) = Some r \<and> or_uid r = om_uid (cl_meta c) \<and> or_name r = cluster_name c"
    "entries (om_labels (meta_of y)) = entries (GetLabels (cluster_name c) (om_labels (cl_meta c)))"
    "isKubernetesAnnotation k \<Longrightarrow>
      entries (om_annotations (meta_of y)) k = entries (om_annotations (meta_of x)) k"
    using facts y by (simp_all add: meta_of_with_meta annotations_kubernetes)
  have "set_owner L c (set_labels_annotations c (meta_of y)) = Ok m"
    using set_labels_owner_idem [OF L m] y by (simp add: meta_of_with_meta)
  moreover have "body c y = Ok y" using body_again [OF body] y by simp
  moreover have "with_meta m y = y" using y by (simp add: with_meta_twice)
  ultimately show "upd L c y = Ok y" unfolding upd_Ok by metis
qed

end
