(* ===== verification/Op_Services.thy ===== *)
theory Op_Services
  imports Builder_Interface
begin

text \<open>
  \<open>internal/resource/headless_service.go\<close> and \<open>internal/resource/service.go\<close>: the service
  for the traffic between the nodes and the one for the clients, whose ports follow the TLS
  settings and the plugins of the custom resource.
\<close>

section \<open>The headless service\<close>

definition headlessServiceSuffix :: string where "headlessServiceSuffix = ''nodes''"
definition ServiceSuffix :: string where "ServiceSuffix = ''''"

definition headless_Build :: "lib \<Rightarrow> rand_source \<Rightarrow> RabbitmqCluster \<Rightarrow> Service outcome" where
  "headless_Build L rnd c =
     Ok \<lparr>svc_meta = new_meta (ChildResourceName c headlessServiceSuffix) (cluster_namespace c),
         svc_spec = zero_service_spec\<rparr>"

definition headless_spec :: "RabbitmqCluster \<Rightarrow> ServiceSpec" where
  "headless_spec c = \<lparr>ss_type = ''ClusterIP'', ss_clusterIP = ''None'', ss_sessionAffinity = ''None'',
     ss_selector = LabelSelector_of (cluster_name c),
     ss_ports =
       [\<lparr>sp_name = ''epmd'', sp_protocol = ''TCP'', sp_port = 4369, sp_targetPort = IntPort 4369,
         sp_nodePort = 0, sp_appProtocol = None\<rparr>,
        \<lparr>sp_name = ''cluster-rpc'', sp_protocol = ''TCP'', sp_port = 25672, sp_targetPort = IntPort 25672,
         sp_nodePort = 0, sp_appProtocol = None\<rparr>],
     ss_publishNotReadyAddresses = True\<rparr>"

definition headless_Update :: "lib \<Rightarrow> RabbitmqCluster \<Rightarrow> Service \<Rightarrow> Service outcome" where
  "headless_Update L c s =
     (let s' = s\<lparr>svc_spec := headless_spec c\<rparr>
      in bind_ok (set_owner L c (set_labels_annotations c (svc_meta s'))) (\<lambda>m. Ok (s'\<lparr>svc_meta := m\<rparr>)))"

section \<open>The ports of the client service\<close>

definition svc_port :: "string \<Rightarrow> int \<Rightarrow> string \<Rightarrow> string \<times> ServicePort" where
  "svc_port n p app = (n, \<lparr>sp_name = n, sp_protocol = ''TCP'', sp_port = p, sp_targetPort = IntPort p,
     sp_nodePort = 0, sp_appProtocol = Some app\<rparr>)"

text \<open>The map of \<open>generateServicePortsMap\<close>, with its entries in the order they are stored.\<close>

definition generateServicePortsMap :: "RabbitmqCluster \<Rightarrow> (string \<times> ServicePort) list" where
  "generateServicePortsMap c =
     (if DisableNonTLSListeners c = False
      then [svc_port ''amqp'' 5672 ''amqp'', svc_port ''management'' 15672 ''http'']
         @ (if AdditionalPluginEnabled c ''rabbitmq_mqtt'' then [svc_port ''mqtt'' 1883 ''mqtt''] else [])
         @ (if AdditionalPluginEnabled c ''rabbitmq_web_mqtt'' then [svc_port ''web-mqtt'' 15675 ''http''] else [])
         @ (if AdditionalPluginEnabled c ''rabbitmq_stomp''
            then [svc_port ''stomp'' 61613 ''stomp.github.io/stomp''] else [])
         @ (if AdditionalPluginEnabled c ''rabbitmq_web_stomp'' then [svc_port ''web-stomp'' 15674 ''http''] else [])
         @ (if StreamNeeded c then [svc_port ''stream'' 5552 ''rabbitmq.com/stream''] else [])
      else [])
     @ (if TLSEnabled c
        then [svc_port ''amqps'' 5671 ''amqps'', svc_port ''management-tls'' 15671 ''https'']
         @ (if AdditionalPluginEnabled c ''rabbitmq_stomp''
            then [svc_port ''stomps'' 61614 ''stomp.github.io/stomp-tls''] else [])
         @ (if AdditionalPluginEnabled c ''rabbitmq_mqtt'' then [svc_port ''mqtts'' 8883 ''mqtts''] else [])
         @ (if StreamNeeded c then [svc_port ''streams'' 5551 ''rabbitmq.com/stream-tls''] else [])
         @ [svc_port ''prometheus-tls'' 15691 ''prometheus.io/metric-tls'']
        else [svc_port ''prometheus'' 15692 ''prometheus.io/metrics''])
     @ (if MutualTLSEnabled c
        then (if AdditionalPluginEnabled c ''rabbitmq_web_stomp''
              then [svc_port ''web-stomp-tls'' 15673 ''https''] else [])
         @ (if AdditionalPluginEnabled c ''rabbitmq_web_mqtt''
            then [svc_port ''web-mqtt-tls'' 15676 ''https''] else [])
        else [])"

text \<open>
  The first loop of \<open>updatePorts\<close>: ports that are still wanted keep their place and their
  node port, and leave the map. The second appends what is left in the map, in the order in
  which Go ranges over it.
\<close>

fun reuse_ports :: "(string \<times> ServicePort) list \<Rightarrow> ServicePort list
    \<Rightarrow> ServicePort list \<times> (string \<times> ServicePort) list" where
  "reuse_ports m [] = ([], m)"
| "reuse_ports m (p # ps) =
     (case map_of m (sp_name p) of
        Some v \<Rightarrow>
          (let (updated, m') = reuse_ports (filter (\<lambda>e. fst e \<noteq> sp_name p) m) ps
           in (v\<lparr>sp_nodePort := sp_nodePort p\<rparr> # updated, m'))
      | None \<Rightarrow> reuse_ports m ps)"

definition remaining_ports :: "lib \<Rightarrow> (string \<times> ServicePort) list \<Rightarrow> ServicePort list" where
  "remaining_ports L m = map (\<lambda>k. the (map_of m k)) (lib_range L (map fst m))"

definition service_updatePorts :: "lib \<Rightarrow> RabbitmqCluster \<Rightarrow> ServicePort list \<Rightarrow> ServicePort list" where
  "service_updatePorts L c servicePorts =
     (let (updated, m) = reuse_ports (generateServicePortsMap c) servicePorts
      in updated @ remaining_ports L m)"

section \<open>The client service\<close>

text \<open>\<open>copyLabelsAnnotations\<close> of \<open>statefulset.go\<close>.\<close>

definition copyLabelsAnnotations :: "ObjectMeta \<Rightarrow> EmbeddedLabelsAnnotations \<Rightarrow> ObjectMeta" where
  "copyLabelsAnnotations base ov =
     (let b1 = (if ela_labels ov \<noteq> None then base\<lparr>om_labels := mergeMap (om_labels base) (ela_labels ov)\<rparr>
                else base)
      in if ela_annotations ov \<noteq> None
         then b1\<lparr>om_annotations := mergeMap (om_annotations b1) (ela_annotations ov)\<rparr> else b1)"

definition setAnnotations :: "RabbitmqCluster \<Rightarrow> ObjectMeta \<Rightarrow> ObjectMeta" where
  "setAnnotations c m =
     (if cs_annotations (sp_service (cl_spec c)) \<noteq> None
      then m\<lparr>om_annotations := ReconcileAnnotations
             (ReconcileAndFilterAnnotations (om_annotations m) [om_annotations (cl_meta c)])
             [cs_annotations (sp_service (cl_spec c))]\<rparr>
      else m\<lparr>om_annotations :=
             ReconcileAndFilterAnnotations (om_annotations m) [om_annotations (cl_meta c)]\<rparr>)"

text \<open>
  The strategic merge patch of the override onto the service specification is the library's.
\<close>

definition applySvcOverride :: "lib \<Rightarrow> Service \<Rightarrow> ServiceOverride \<Rightarrow> Service outcome" where
  "applySvcOverride L svc ov =
     (let svc1 = (case svo_meta ov of
            None \<Rightarrow> svc
          | Some e \<Rightarrow> svc\<lparr>svc_meta := copyLabelsAnnotations (svc_meta svc) e\<rparr>)
      in case svo_spec ov of
           None \<Rightarrow> Ok svc1
         | Some p \<Rightarrow>
             bind_ok (wrap_err ''error marshalling Service Spec''
                        (lib_marshal_service_spec L (svc_spec svc1))) (\<lambda>originalSvcSpec.
             bind_ok (wrap_err ''error marshalling Service Spec override''
                        (lib_marshal_service_spec L p)) (\<lambda>patch.
             bind_ok (wrap_err ''error patching Service Spec''
                        (lib_merge_service_spec L originalSvcSpec patch)) (\<lambda>patchedJSON.
             bind_ok (wrap_err ''error unmarshalling patched Service Spec''
                        (lib_unmarshal_service_spec L patchedJSON)) (\<lambda>patchedSvcSpec.
             Ok (svc1\<lparr>svc_spec := patchedSvcSpec\<rparr>))))))"

definition service_Build :: "lib \<Rightarrow> rand_source \<Rightarrow> RabbitmqCluster \<Rightarrow> Service outcome" where
  "service_Build L rnd c =
     Ok \<lparr>svc_meta = new_meta (ChildResourceName c ServiceSuffix) (cluster_namespace c),
         svc_spec = zero_service_spec\<rparr>"

text \<open>\<open>Update\<close> up to the override: metadata, type, selector and ports.\<close>

definition clear_node_ports :: "ServicePort list \<Rightarrow> ServicePort list" where
  "clear_node_ports ports = map (\<lambda>p. p\<lparr>sp_nodePort := 0\<rparr>) ports"

definition service_base :: "lib \<Rightarrow> RabbitmqCluster \<Rightarrow> Service \<Rightarrow> Service" where
  "service_base L c s =
     (let m = (setAnnotations c (svc_meta s))\<lparr>om_labels := GetLabels (cluster_name c) (om_labels (cl_meta c))\<rparr>;
          ports = service_updatePorts L c (ss_ports (svc_spec s));
          ports' = (if cs_type (sp_service (cl_spec c)) = ''ClusterIP'' \<or> cs_type (sp_service (cl_spec c)) = []
                    then clear_node_ports ports else ports)
      in \<lparr>svc_meta = m,
          svc_spec = (svc_spec s)\<lparr>ss_type := cs_type (sp_service (cl_spec c)),
            ss_selector := LabelSelector_of (cluster_name c), ss_ports := ports'\<rparr>\<rparr>)"

definition service_Update :: "lib \<Rightarrow> RabbitmqCluster \<Rightarrow> Service \<Rightarrow> Service outcome" where
  "service_Update L c s =
     bind_ok
       (case ov_service (sp_override (cl_spec c)) of
          None \<Rightarrow> Ok (service_base L c s)
        | Some ov \<Rightarrow> wrap_err ''failed applying Service override''
                      (applySvcOverride L (service_base L c s) ov))
       (\<lambda>s'. bind_ok (set_owner L c (svc_meta s')) (\<lambda>m. Ok (s'\<lparr>svc_meta := m\<rparr>)))"

section \<open>Lemmas on the ports\<close>

lemma svc_port_simps [simp]:
  "fst (svc_port n p a) = n"
  "sp_name (snd (svc_port n p a)) = n"
  "sp_nodePort (snd (svc_port n p a)) = 0"
  "sp_port (snd (svc_port n p a)) = p"
  "sp_targetPort (snd (svc_port n p a)) = IntPort p"
  by (simp_all add: svc_port_def)

text \<open>Every map of ports is a part of one table, whose names and numbers are distinct.\<close>

definition all_service_ports :: "(string \<times> ServicePort) list" where
  "all_service_ports =
     ([svc_port ''amqp'' 5672 ''amqp'', svc_port ''management'' 15672 ''http'']
       @ [svc_port ''mqtt'' 1883 ''mqtt''] @ [svc_port ''web-mqtt'' 15675 ''http'']
       @ [svc_port ''stomp'' 61613 ''stomp.github.io/stomp''] @ [svc_port ''web-stomp'' 15674 ''http'']
       @ [svc_port ''stream'' 5552 ''rabbitmq.com/stream''])
     @ (([svc_port ''amqps'' 5671 ''amqps'', svc_port ''management-tls'' 15671 ''https'']
       @ [svc_port ''stomps'' 61614 ''stomp.github.io/stomp-tls''] @ [svc_port ''mqtts'' 8883 ''mqtts'']
       @ [svc_port ''streams'' 5551 ''rabbitmq.com/stream-tls'']
       @ [svc_port ''prometheus-tls'' 15691 ''prometheus.io/metric-tls''])
       @ [svc_port ''prometheus'' 15692 ''prometheus.io/metrics''])
     @ ([svc_port ''web-stomp-tls'' 15673 ''https''] @ [svc_port ''web-mqtt-tls'' 15676 ''https''])"

lemma subseq_if: "subseq xs ys \<Longrightarrow> subseq (if b then xs else []) ys"
  by simp

lemma subseq_if_else: "subseq xs ys \<Longrightarrow> subseq (if b then xs else zs) (ys @ zs)"
  by (simp add: subseq_rev_drop_many subseq_drop_many)

lemma generated_ports_subseq: "subseq (generateServicePortsMap c) all_service_ports"
  unfolding generateServicePortsMap_def all_service_ports_def
  by (intro list_emb_append_mono subseq_if subseq_if_else subseq_order.refl)

lemma subseq_distinct: "subseq xs ys \<Longrightarrow> distinct ys \<Longrightarrow> distinct xs"
  by (metis in_set_subseqs subseqs_distinctD)

lemma subseq_set: "subseq xs ys \<Longrightarrow> set xs \<subseteq> set ys"
  by (induction rule: list_emb.induct) auto

lemma generated_names_distinct: "distinct (map fst (generateServicePortsMap c))"
proof (rule subseq_distinct)
  show "subseq (map fst (generateServicePortsMap c)) (map fst all_service_ports)"
    by (rule subseq_map [OF generated_ports_subseq])
  show "distinct (map fst all_service_ports)" by (simp add: all_service_ports_def)
qed

lemma generated_numbers_distinct: "distinct (map (sp_port \<circ> snd) (generateServicePortsMap c))"
proof (rule subseq_distinct)
  show "subseq (map (sp_port \<circ> snd) (generateServicePortsMap c)) (map (sp_port \<circ> snd) all_service_ports)"
    by (rule subseq_map [OF generated_ports_subseq])
  show "distinct (map (sp_port \<circ> snd) all_service_ports)" by (simp add: all_service_ports_def)
qed

text \<open>A generated entry: its key is the port's name, the target port the port, no node port.\<close>

definition port_entry_ok :: "string \<times> ServicePort \<Rightarrow> bool" where
  "port_entry_ok e = (sp_name (snd e) = fst e \<and> sp_nodePort (snd e) = 0
     \<and> sp_targetPort (snd e) = IntPort (sp_port (snd e)))"

lemma generated_entries_ok: "e \<in> set (generateServicePortsMap c) \<Longrightarrow> port_entry_ok e"
proof -
  have "\<forall>e \<in> set all_service_ports. port_entry_ok e"
    by (simp add: all_service_ports_def port_entry_ok_def)
  moreover have "set (generateServicePortsMap c) \<subseteq> set all_service_ports"
    using generated_ports_subseq by (rule subseq_set)
  moreover assume "e \<in> set (generateServicePortsMap c)"
  ultimately show ?thesis by blast
qed

definition port_map_ok :: "(string \<times> ServicePort) list \<Rightarrow> bool" where
  "port_map_ok m = (distinct (map fst m) \<and> (\<forall>e \<in> set m. port_entry_ok e))"

lemma generated_map_ok: "port_map_ok (generateServicePortsMap c)"
  using generated_names_distinct generated_entries_ok by (simp add: port_map_ok_def)

lemma port_map_ok_filter: "port_map_ok m \<Longrightarrow> port_map_ok (filter P m)"
  by (simp add: port_map_ok_def distinct_map_filter)

lemma map_of_port:
  "port_map_ok m \<Longrightarrow> map_of m k = Some v \<longleftrightarrow> (k, v) \<in> set m"
  by (simp add: port_map_ok_def)

text \<open>What the first loop keeps, and what it leaves in the map.\<close>

lemma reuse_ports_rest:
  "snd (reuse_ports m ps) = filter (\<lambda>e. fst e \<notin> sp_name ` set ps) m"
proof (induction m ps rule: reuse_ports.induct)
  case (2 m p ps)
  show ?case
  proof (cases "map_of m (sp_name p)")
    case None
    then have "\<forall>e \<in> set m. fst e \<noteq> sp_name p" by (force simp: map_of_eq_None_iff image_iff)
    with None 2 show ?thesis by (auto intro: filter_cong)
  next
    case (Some v)
    with 2 show ?thesis by (auto simp: split_beta filter_filter intro!: filter_cong)
  qed
qed simp

lemma reuse_ports_names:
  "port_map_ok m \<Longrightarrow> sp_name ` set (fst (reuse_ports m ps)) = fst ` set m \<inter> sp_name ` set ps
     \<and> distinct (map sp_name (fst (reuse_ports m ps)))"
proof (induction m ps rule: reuse_ports.induct)
  case (2 m p ps)
  show ?case
  proof (cases "map_of m (sp_name p)")
    case None
    then have "sp_name p \<notin> fst ` set m" by (simp add: map_of_eq_None_iff)
    with None 2 show ?thesis by auto
  next
    case (Some v)
    then have v: "(sp_name p, v) \<in> set m" by (simp add: map_of_SomeD)
    with "2.prems" have name: "sp_name v = sp_name p" by (auto simp: port_map_ok_def port_entry_ok_def)
    have IH: "sp_name ` set (fst (reuse_ports (filter (\<lambda>e. fst e \<noteq> sp_name p) m) ps))
          = fst ` set (filter (\<lambda>e. fst e \<noteq> sp_name p) m) \<inter> sp_name ` set ps"
      "distinct (map sp_name (fst (reuse_ports (filter (\<lambda>e. fst e \<noteq> sp_name p) m) ps)))"
      using "2.IH"(2) [OF Some port_map_ok_filter [OF "2.prems"]] by blast+
    have "sp_name p \<in> fst ` set m" using v by force
    with Some name IH show ?thesis by (auto simp: split_beta)
  qed
qed simp

lemma reuse_ports_entries:
  "port_map_ok m \<Longrightarrow> u \<in> set (fst (reuse_ports m ps)) \<Longrightarrow>
     (sp_name u, u\<lparr>sp_nodePort := 0\<rparr>) \<in> set m
     \<and> (\<exists>p. find (\<lambda>p. sp_name p = sp_name u) ps = Some p \<and> sp_nodePort u = sp_nodePort p)"
proof (induction m ps rule: reuse_ports.induct)
  case (2 m p ps)
  show ?case
  proof (cases "map_of m (sp_name p)")
    case None
    then have "sp_name p \<notin> fst ` set m" by (simp add: map_of_eq_None_iff)
    with None 2 show ?thesis by (force simp: image_iff)
  next
    case (Some v)
    then have v: "(sp_name p, v) \<in> set m" by (simp add: map_of_SomeD)
    with "2.prems" have ok: "sp_name v = sp_name p" "sp_nodePort v = 0"
      by (auto simp: port_map_ok_def port_entry_ok_def)
    show ?thesis
    proof (cases "u \<in> set (fst (reuse_ports (filter (\<lambda>e. fst e \<noteq> sp_name p) m) ps))")
      case True
      from "2.IH"(2) [OF Some port_map_ok_filter [OF "2.prems"(1)] True] show ?thesis by auto
    next
      case False
      with "2.prems"(2) Some have u: "u = v\<lparr>sp_nodePort := sp_nodePort p\<rparr>" by (simp add: split_beta)
      moreover have "v\<lparr>sp_nodePort := 0\<rparr> = v" using ok(2) by simp
      ultimately have "u\<lparr>sp_nodePort := 0\<rparr> = v" by simp
      moreover have "sp_name u = sp_name p" "sp_nodePort u = sp_nodePort p" using u ok(1) by simp_all
      ultimately show ?thesis using v by simp
    qed
  qed
qed simp

text \<open>A list made of wanted ports, each once, is kept as it is.\<close>

lemma reuse_ports_same:
  "port_map_ok m \<Longrightarrow> distinct (map sp_name ps) \<Longrightarrow>
     \<forall>p \<in> set ps. (sp_name p, p\<lparr>sp_nodePort := 0\<rparr>) \<in> set m \<Longrightarrow>
     fst (reuse_ports m ps) = ps"
proof (induction m ps rule: reuse_ports.induct)
  case (2 m p ps)
  then have p: "map_of m (sp_name p) = Some (p\<lparr>sp_nodePort := 0\<rparr>)" by (simp add: map_of_port)
  have "fst (reuse_ports (filter (\<lambda>e. fst e \<noteq> sp_name p) m) ps) = ps"
    using "2.prems" by (intro "2.IH"(2) [OF p port_map_ok_filter]) (auto simp: image_iff)
  with p show ?case by (simp add: split_beta)
qed simp

text \<open>The second loop.\<close>

lemma remaining_ports_facts:
  assumes "lib_ok L" and "port_map_ok m"
  shows "map sp_name (remaining_ports L m) = lib_range L (map fst m)"
    and "set (remaining_ports L m) = snd ` set m"
proof -
  note keys = ranges_map_set [OF lib_okD(2) [OF assms(1)], of "map fst m"]
  have entry: "map_of m k = Some (the (map_of m k)) \<and> sp_name (the (map_of m k)) = k"
    if "k \<in> set (map fst m)" for k
  proof -
    from that obtain v where v: "(k, v) \<in> set m" by auto
    with assms(2) have "map_of m k = Some v" "sp_name v = k"
      by (auto simp: port_map_ok_def port_entry_ok_def)
    then show ?thesis by simp
  qed
  show "map sp_name (remaining_ports L m) = lib_range L (map fst m)"
    unfolding remaining_ports_def using entry keys by (auto simp: comp_def intro: map_idI)
  have "set (remaining_ports L m) = (\<lambda>k. the (map_of m k)) ` fst ` set m"
    using keys by (simp add: remaining_ports_def)
  also have "\<dots> = snd ` set m"
    using assms(2) by (force simp: port_map_ok_def image_image)
  finally show "set (remaining_ports L m) = snd ` set m" .
qed

lemma service_updatePorts_split:
  "service_updatePorts L c ps = fst (reuse_ports (generateServicePortsMap c) ps)
     @ remaining_ports L (filter (\<lambda>e. fst e \<notin> sp_name ` set ps) (generateServicePortsMap c))"
  by (simp add: service_updatePorts_def split_beta reuse_ports_rest)

lemma service_updatePorts_names:
  assumes "lib_ok L"
  shows "distinct (map sp_name (service_updatePorts L c ps))
    \<and> sp_name ` set (service_updatePorts L c ps) = fst ` set (generateServicePortsMap c)"
proof -
  let ?m = "generateServicePortsMap c"
  let ?rest = "filter (\<lambda>e. fst e \<notin> sp_name ` set ps) ?m"
  have rest: "port_map_ok ?rest" by (rule port_map_ok_filter [OF generated_map_ok])
  note used = reuse_ports_names [OF generated_map_ok, of c ps]
  have names: "map sp_name (remaining_ports L ?rest) = lib_range L (map fst ?rest)"
    by (rule remaining_ports_facts [OF assms rest])
  then have set_names: "sp_name ` set (remaining_ports L ?rest) = fst ` set ?rest"
    using ranges_map_set [OF lib_okD(2) [OF assms], of "map fst ?rest"] names
    unfolding set_map [symmetric] by (simp only: )
  have "distinct (map sp_name (remaining_ports L ?rest))"
    unfolding names ranges_map_distinct [OF lib_okD(2) [OF assms]]
    by (rule rest [unfolded port_map_ok_def, THEN conjunct1])
  moreover have rest_names: "fst ` set ?rest = fst ` set ?m - sp_name ` set ps" by auto
  moreover have "sp_name ` set (fst (reuse_ports ?m ps)) \<inter> sp_name ` set (remaining_ports L ?rest) = {}"
    unfolding set_names rest_names used [THEN conjunct1] by blast
  ultimately have "distinct (map sp_name (service_updatePorts L c ps))"
    unfolding service_updatePorts_split map_append distinct_append set_map
    using used [THEN conjunct2] by simp
  moreover have "sp_name ` set (service_updatePorts L c ps) = fst ` set ?m"
    unfolding service_updatePorts_split set_append image_Un set_names rest_names
      used [THEN conjunct1] by blast
  ultimately show ?thesis ..
qed

lemma service_updatePorts_entries:
  assumes "lib_ok L" and "u \<in> set (service_updatePorts L c ps)"
  shows "(sp_name u, u\<lparr>sp_nodePort := 0\<rparr>) \<in> set (generateServicePortsMap c)
    \<and> sp_nodePort u = (case find (\<lambda>p. sp_name p = sp_name u) ps of None \<Rightarrow> 0 | Some p \<Rightarrow> sp_nodePort p)"
proof (cases "u \<in> set (fst (reuse_ports (generateServicePortsMap c) ps))")
  case True
  from reuse_ports_entries [OF generated_map_ok True] show ?thesis by auto
next
  case False
  let ?rest = "filter (\<lambda>e. fst e \<notin> sp_name ` set ps) (generateServicePortsMap c)"
  have "u \<in> snd ` set ?rest"
    using False assms(2) remaining_ports_facts(2) [OF assms(1) port_map_ok_filter [OF generated_map_ok]]
    by (simp add: service_updatePorts_split)
  then obtain k where k: "(k, u) \<in> set (generateServicePortsMap c)" "k \<notin> sp_name ` set ps" by auto
  then have ok: "sp_name u = k" "sp_nodePort u = 0"
    using generated_entries_ok [OF k(1)] by (simp_all add: port_entry_ok_def)
  then have this_entry: "(sp_name u, u\<lparr>sp_nodePort := 0\<rparr>) = (k, u)" by simp
  have none: "find (\<lambda>p. sp_name p = sp_name u) ps = None"
    unfolding find_None_iff using k(2) ok(1) by (metis image_eqI)
  show ?thesis unfolding this_entry none using k(1) ok(2) by simp
qed

text \<open>A list that already has all wanted ports, once each and nothing else, is a fixed point.\<close>

lemma service_updatePorts_fixed:
  assumes "lib_ok L" and "distinct (map sp_name ps)"
    and "\<forall>p \<in> set ps. (sp_name p, p\<lparr>sp_nodePort := 0\<rparr>) \<in> set (generateServicePortsMap c)"
    and "fst ` set (generateServicePortsMap c) \<subseteq> sp_name ` set ps"
  shows "service_updatePorts L c ps = ps"
proof -
  have "filter (\<lambda>e. fst e \<notin> sp_name ` set ps) (generateServicePortsMap c) = []"
    using assms(4) by (auto simp: filter_empty_conv)
  moreover have "remaining_ports L [] = []"
    using ranges_map_set [OF lib_okD(2) [OF assms(1)], of "[]"] by (simp add: remaining_ports_def)
  ultimately show ?thesis
    using reuse_ports_same [OF generated_map_ok assms(2,3)] by (simp add: service_updatePorts_split)
qed

lemma service_updatePorts_idem:
  assumes "lib_ok L"
  shows "service_updatePorts L c (service_updatePorts L c ps) = service_updatePorts L c ps"
  using service_updatePorts_names [OF assms, of c ps] service_updatePorts_entries [OF assms]
  by (intro service_updatePorts_fixed [OF assms]) auto

lemma service_updatePorts_clear_idem:
  assumes "lib_ok L"
  shows "service_updatePorts L c (clear_node_ports (service_updatePorts L c ps))
     = clear_node_ports (service_updatePorts L c ps)"
proof (rule service_updatePorts_fixed [OF assms])
  note names = service_updatePorts_names [OF assms, of c ps]
  show "distinct (map sp_name (clear_node_ports (service_updatePorts L c ps)))"
    using names by (simp add: clear_node_ports_def comp_def)
  show "fst ` set (generateServicePortsMap c) \<subseteq> sp_name ` set (clear_node_ports (service_updatePorts L c ps))"
    using names by (simp add: clear_node_ports_def image_image)
  show "\<forall>p \<in> set (clear_node_ports (service_updatePorts L c ps)).
      (sp_name p, p\<lparr>sp_nodePort := 0\<rparr>) \<in> set (generateServicePortsMap c)"
    using service_updatePorts_entries [OF assms] by (auto simp: clear_node_ports_def)
qed

section \<open>The builders\<close>

interpretation headless: metadata_builder headlessServiceSuffix svc_meta "\<lambda>m s. s\<lparr>svc_meta := m\<rparr>"
  "\<lambda>c s. Ok (s\<lparr>svc_spec := headless_spec c\<rparr>)" headless_Build headless_Update
  by unfold_locales (auto simp: headless_Build_def headless_Update_def bind_ok_eq_Ok)

text \<open>The metadata that an update gives the client service, before the owner is set.\<close>

definition service_meta_update :: "RabbitmqCluster \<Rightarrow> ObjectMeta \<Rightarrow> ObjectMeta" where
  "service_meta_update c m =
     (let b = (setAnnotations c m)\<lparr>om_labels := GetLabels (cluster_name c) (om_labels (cl_meta c))\<rparr>
      in case ov_service (sp_override (cl_spec c)) of
           None \<Rightarrow> b
         | Some ov \<Rightarrow> (case svo_meta ov of None \<Rightarrow> b | Some e \<Rightarrow> copyLabelsAnnotations b e))"

text \<open>No override of the service's specification: nothing is left to the merge patch.\<close>

definition service_settled :: "RabbitmqCluster \<Rightarrow> bool" where
  "service_settled c =
     (case ov_service (sp_override (cl_spec c)) of None \<Rightarrow> True | Some ov \<Rightarrow> svo_spec ov = None)"

lemma service_meta_update_frame [simp]:
  "om_name (service_meta_update c m) = om_name m"
  "om_namespace (service_meta_update c m) = om_namespace m"
  "om_uid (service_meta_update c m) = om_uid m"
  "om_ownerReferences (service_meta_update c m) = om_ownerReferences m"
  by (simp_all add: service_meta_update_def setAnnotations_def copyLabelsAnnotations_def Let_def
      split: option.split)

text \<open>It adds fixed annotations to those of the object and sets fixed labels.\<close>

definition service_added_annotations :: "RabbitmqCluster \<Rightarrow> string \<rightharpoonup> string" where
  "service_added_annotations c =
     (entries (om_annotations (cl_meta c)) |` Collect isNotKubernetesAnnotation)
     ++ (entries (cs_annotations (sp_service (cl_spec c)))
         ++ (case ov_service (sp_override (cl_spec c)) of
               None \<Rightarrow> Map.empty
             | Some ov \<Rightarrow> (case svo_meta ov of None \<Rightarrow> Map.empty | Some e \<Rightarrow> entries (ela_annotations e))))"

lemma setAnnotations_adds:
  "om_annotations (setAnnotations c m) =
     Some (entries (om_annotations m) ++ (entries (om_annotations (cl_meta c)) |` Collect isNotKubernetesAnnotation)
       ++ entries (cs_annotations (sp_service (cl_spec c))))"
  by (cases "cs_annotations (sp_service (cl_spec c))")
    (simp_all add: setAnnotations_def ReconcileAndFilter_add ReconcileAnnotations_add)

lemma copy_adds:
  "entries (om_annotations (copyLabelsAnnotations m e)) = entries (om_annotations m) ++ entries (ela_annotations e)"
  "om_annotations m \<noteq> None \<Longrightarrow> om_annotations (copyLabelsAnnotations m e) \<noteq> None"
  by (cases "ela_annotations e"; simp add: copyLabelsAnnotations_def mergeMap_add)+

lemma service_meta_update_adds:
  "om_annotations (service_meta_update c m) = Some (entries (om_annotations m) ++ service_added_annotations c)"
proof -
  let ?b = "(setAnnotations c m)\<lparr>om_labels := GetLabels (cluster_name c) (om_labels (cl_meta c))\<rparr>"
  have "om_annotations ?b \<noteq> None" by (simp add: setAnnotations_adds)
  then have "om_annotations (service_meta_update c m) \<noteq> None"
    using copy_adds(2) [of ?b] by (simp add: service_meta_update_def Let_def split: option.split)
  moreover have "entries (om_annotations (service_meta_update c m)) = entries (om_annotations m) ++ service_added_annotations c"
    using copy_adds(1) [of ?b]
    by (simp add: service_meta_update_def service_added_annotations_def setAnnotations_adds Let_def
        split: option.split)
  ultimately show ?thesis by auto
qed

lemma service_meta_update_labels:
  "om_labels (service_meta_update c m) = om_labels (service_meta_update c m')"
  by (simp add: service_meta_update_def copyLabelsAnnotations_def Let_def split: option.split)

lemma service_meta_update_else:
  "service_meta_update c m = m\<lparr>om_labels := om_labels (service_meta_update c m),
     om_annotations := om_annotations (service_meta_update c m)\<rparr>"
  by (simp add: service_meta_update_def copyLabelsAnnotations_def setAnnotations_def Let_def
      split: option.split)

lemma service_meta_update_twice:
  assumes "om_labels m' = om_labels (service_meta_update c m)"
    and "om_annotations m' = om_annotations (service_meta_update c m)"
  shows "service_meta_update c m' = m'"
proof -
  have "om_annotations (service_meta_update c m') = om_annotations m'"
    using assms(2) by (simp add: service_meta_update_adds map_add_twice)
  moreover have "om_labels (service_meta_update c m') = om_labels m'"
    using assms(1) service_meta_update_labels by metis
  ultimately show ?thesis using service_meta_update_else [of c m'] by simp
qed

text \<open>The update without an override of the specification.\<close>

lemma service_Update_Ok:
  assumes "service_settled c"
  shows "service_Update L c s = Ok y \<longleftrightarrow>
    (\<exists>m. set_owner L c (service_meta_update c (svc_meta s)) = Ok m
       \<and> y = \<lparr>svc_meta = m, svc_spec = svc_spec (service_base L c s)\<rparr>)"
  using assms
  by (auto simp: service_Update_def service_settled_def applySvcOverride_def service_meta_update_def
      service_base_def Let_def outcome_ok split: option.splits)

text \<open>With one, the merge decides the specification; the metadata are as before.\<close>

lemma service_Update_meta:
  assumes "service_Update L c s = Ok y"
  shows "set_owner L c (service_meta_update c (svc_meta s)) = Ok (svc_meta y)"
  using assms
  by (auto simp: service_Update_def applySvcOverride_def service_meta_update_def service_base_def
      Let_def outcome_ok split: option.splits)

lemma service_base_spec_idem:
  assumes "lib_ok L"
  shows "svc_spec (service_base L c \<lparr>svc_meta = m, svc_spec = svc_spec (service_base L c s)\<rparr>)
     = svc_spec (service_base L c s)"
  using service_updatePorts_idem [OF assms] service_updatePorts_clear_idem [OF assms]
  by (simp add: service_base_def Let_def) (simp add: clear_node_ports_def comp_def)

interpretation service: resource_builder ServiceSuffix svc_meta service_settled service_Build service_Update
proof unfold_locales
  fix L c x y
  assume L: "lib_ok L" and upd: "service_Update L c x = Ok y"
  note facts = set_owner_facts [OF L service_Update_meta [OF upd]]
  show "om_name (svc_meta y) = om_name (svc_meta x) \<and> om_namespace (svc_meta y) = om_namespace (svc_meta x)
      \<and> om_uid (svc_meta y) = om_uid (svc_meta x)"
    "\<exists>r. controller_of (svc_meta y) = Some r \<and> or_uid r = om_uid (cl_meta c) \<and> or_name r = cluster_name c"
    using facts by simp_all
  assume settled: "service_settled c"
  have "service_meta_update c (svc_meta y) = svc_meta y"
    by (rule service_meta_update_twice) (simp_all add: facts)
  moreover have "set_owner L c (svc_meta y) = Ok (svc_meta y)"
    by (rule set_owner_again [OF L service_Update_meta [OF upd]]) simp_all
  moreover have "svc_spec (service_base L c y) = svc_spec y"
    using upd settled service_base_spec_idem [OF L] by (auto simp: service_Update_Ok)
  ultimately show "service_Update L c y = Ok y" using settled by (simp add: service_Update_Ok)
qed (auto simp: service_Build_def)

section \<open>Properties\<close>

text \<open>
  C3. Updating the ports of the client service: the service has exactly the ports that the
  specification asks for, once each, whatever ports it had and in whatever order the map of
  ports is ranged over; a port that was there under the same name keeps its node port, a new
  one has none; and a second update changes neither ports nor their order.
\<close>

theorem service_ports_reconciled:
  assumes "lib_ok L"
  shows "distinct (map sp_name (service_updatePorts L c ps))
    \<and> (\<lambda>p. (sp_name p, p\<lparr>sp_nodePort := 0\<rparr>)) ` set (service_updatePorts L c ps) = set (generateServicePortsMap c)
    \<and> (\<forall>u \<in> set (service_updatePorts L c ps). sp_nodePort u =
         (case find (\<lambda>p. sp_name p = sp_name u) ps of None \<Rightarrow> 0 | Some p \<Rightarrow> sp_nodePort p))
    \<and> service_updatePorts L c (service_updatePorts L c ps) = service_updatePorts L c ps"
proof -
  let ?us = "service_updatePorts L c ps"
  note names = service_updatePorts_names [OF assms, of c ps]
  note ents = service_updatePorts_entries [OF assms, of _ c ps]
  have "e \<in> (\<lambda>p. (sp_name p, p\<lparr>sp_nodePort := 0\<rparr>)) ` set ?us"
    if e: "e \<in> set (generateServicePortsMap c)" for e
  proof -
    from e names obtain u where u: "u \<in> set ?us" "sp_name u = fst e" by (metis image_iff)
    have "(fst e, u\<lparr>sp_nodePort := 0\<rparr>) \<in> set (generateServicePortsMap c)"
      using ents [OF u(1)] u(2) by simp
    moreover have "(fst e, snd e) \<in> set (generateServicePortsMap c)" using e by simp
    ultimately have "snd e = u\<lparr>sp_nodePort := 0\<rparr>"
      by (metis eq_key_imp_eq_value generated_names_distinct)
    then have "e = (sp_name u, u\<lparr>sp_nodePort := 0\<rparr>)" using u(2) by (cases e) simp
    then show ?thesis using u(1) by (rule image_eqI)
  qed
  then have eq: "(\<lambda>p. (sp_name p, p\<lparr>sp_nodePort := 0\<rparr>)) ` set ?us = set (generateServicePortsMap c)"
    using ents [THEN conjunct1] by (intro equalityI subsetI) auto
  show ?thesis
    by (intro conjI ballI service_updatePorts_idem [OF assms] eq ents [THEN conjunct2] names [THEN conjunct1])
qed

theorem service_ports_reconciled_witness:
  "map (\<lambda>p. (sp_name p, sp_nodePort p))
     (service_updatePorts sample_lib (new_cluster ''rabbit'' ''ns'' ''u1'')
        [(snd (svc_port ''management'' 15672 ''http''))\<lparr>sp_nodePort := 31000\<rparr>])
   = [(''management'', 31000), (''amqp'', 0), (''prometheus'', 0)]
   \<and> distinct (map sp_name (service_updatePorts sample_lib (new_cluster ''rabbit'' ''ns'' ''u1'') []))"
proof
  show "distinct (map sp_name (service_updatePorts sample_lib (new_cluster ''rabbit'' ''ns'' ''u1'') []))"
    using service_ports_reconciled [OF sample_lib_ok] by blast
  show "map (\<lambda>p. (sp_name p, sp_nodePort p))
     (service_updatePorts sample_lib (new_cluster ''rabbit'' ''ns'' ''u1'')
        [(snd (svc_port ''management'' 15672 ''http''))\<lparr>sp_nodePort := 31000\<rparr>])
   = [(''management'', 31000), (''amqp'', 0), (''prometheus'', 0)]" by code_simp
qed

definition tls_port_names :: "string set" where
  "tls_port_names = {''amqps'', ''management-tls'', ''stomps'', ''mqtts'', ''streams'',
     ''prometheus-tls'', ''web-stomp-tls'', ''web-mqtt-tls''}"

lemma in_names:
  "x \<in> fst ` set [] \<longleftrightarrow> False"
  "x \<in> fst ` set (e # es) \<longleftrightarrow> x = fst e \<or> x \<in> fst ` set es"
  "x \<in> fst ` set (xs @ ys) \<longleftrightarrow> x \<in> fst ` set xs \<or> x \<in> fst ` set ys"
  "x \<in> fst ` set (if b then xs else ys) \<longleftrightarrow> (if b then x \<in> fst ` set xs else x \<in> fst ` set ys)"
  by auto

lemma if_else_False: "(if b then P else False) \<longleftrightarrow> b \<and> P"
  by simp

lemma generated_names:
  "x \<in> fst ` set (generateServicePortsMap c) \<longleftrightarrow>
     (\<not> DisableNonTLSListeners c \<and> (x = ''amqp'' \<or> x = ''management''
        \<or> AdditionalPluginEnabled c ''rabbitmq_mqtt'' \<and> x = ''mqtt''
        \<or> AdditionalPluginEnabled c ''rabbitmq_web_mqtt'' \<and> x = ''web-mqtt''
        \<or> AdditionalPluginEnabled c ''rabbitmq_stomp'' \<and> x = ''stomp''
        \<or> AdditionalPluginEnabled c ''rabbitmq_web_stomp'' \<and> x = ''web-stomp''
        \<or> StreamNeeded c \<and> x = ''stream''))
     \<or> (if TLSEnabled c then x = ''amqps'' \<or> x = ''management-tls''
        \<or> AdditionalPluginEnabled c ''rabbitmq_stomp'' \<and> x = ''stomps''
        \<or> AdditionalPluginEnabled c ''rabbitmq_mqtt'' \<and> x = ''mqtts''
        \<or> StreamNeeded c \<and> x = ''streams'' \<or> x = ''prometheus-tls'' else x = ''prometheus'')
     \<or> (MutualTLSEnabled c \<and> (AdditionalPluginEnabled c ''rabbitmq_web_stomp'' \<and> x = ''web-stomp-tls''
        \<or> AdditionalPluginEnabled c ''rabbitmq_web_mqtt'' \<and> x = ''web-mqtt-tls''))"
  unfolding generateServicePortsMap_def in_names svc_port_simps by (simp only: if_else_False disj_assoc simp_thms)

text \<open>
  C4. A service for a cluster with TLS and without non-TLS listeners offers TLS ports only;
  without TLS it offers no TLS port; exactly one of the two Prometheus ports is there.
\<close>

theorem service_tls_ports:
  assumes "lib_ok L"
  shows "(TLSEnabled c \<and> DisableNonTLSListeners c \<longrightarrow>
           sp_name ` set (service_updatePorts L c ps) \<subseteq> tls_port_names)
    \<and> (\<not> TLSEnabled c \<longrightarrow> sp_name ` set (service_updatePorts L c ps) \<inter> tls_port_names = {})
    \<and> (''prometheus-tls'' \<in> sp_name ` set (service_updatePorts L c ps) \<longleftrightarrow> TLSEnabled c)
    \<and> (''prometheus'' \<in> sp_name ` set (service_updatePorts L c ps) \<longleftrightarrow> \<not> TLSEnabled c)
    \<and> (''amqps'' \<in> sp_name ` set (service_updatePorts L c ps) \<longleftrightarrow> TLSEnabled c)
    \<and> (''amqp'' \<in> sp_name ` set (service_updatePorts L c ps) \<longleftrightarrow> \<not> DisableNonTLSListeners c)"
proof -
  have names: "sp_name ` set (service_updatePorts L c ps) = fst ` set (generateServicePortsMap c)"
    using service_updatePorts_names [OF assms] by blast
  show ?thesis
    unfolding names
  proof (intro conjI impI)
    show "fst ` set (generateServicePortsMap c) \<subseteq> tls_port_names"
      if "TLSEnabled c \<and> DisableNonTLSListeners c"
    proof
      fix x
      assume "x \<in> fst ` set (generateServicePortsMap c)"
      then show "x \<in> tls_port_names"
        unfolding generated_names using that by (elim disjE conjE) (auto simp: tls_port_names_def)
    qed
    show "fst ` set (generateServicePortsMap c) \<inter> tls_port_names = {}" if "\<not> TLSEnabled c"
    proof -
      have "\<forall>x \<in> tls_port_names. x \<notin> fst ` set (generateServicePortsMap c)"
        unfolding tls_port_names_def generated_names using that MutualTLS_TLS [of c] by auto
      then show ?thesis by blast
    qed
  qed (simp_all add: generated_names)
qed

theorem service_tls_ports_witness:
  "''amqps'' \<notin> sp_name ` set (service_updatePorts sample_lib (new_cluster ''rabbit'' ''ns'' ''u1'') [])"
  using service_tls_ports [OF sample_lib_ok, of "new_cluster ''rabbit'' ''ns'' ''u1''" "[]"]
  by (simp add: TLSEnabled_def SecretTLSEnabled_def VaultTLSEnabled_def default_spec_def)

end
