(* ===== verification/Op_Secrets.thy ===== *)
theory Op_Secrets
  imports Builder_Interface
begin

text \<open>
  \<open>internal/resource/erlang_cookie.go\<close> and \<open>internal/resource/default_user_secret.go\<close>: the
  two secrets of a cluster, their random contents, and the connection data that the default
  user secret publishes.
\<close>

section \<open>Random strings in base64\<close>

text \<open>
  \<open>base64.URLEncoding.EncodeToString\<close>: three bytes become four characters of the URL-safe
  alphabet, the last group is padded with \<open>=\<close>.
\<close>

definition b64_char :: "nat \<Rightarrow> char" where
  "b64_char i =
     (if i < 26 then char_of (65 + i)
      else if i < 52 then char_of (71 + i)
      else if i < 62 then char_of (i - 4)
      else if i = 62 then CHR ''-'' else CHR ''_'')"

fun b64_encode :: "8 word list \<Rightarrow> string" where
  "b64_encode [] = []"
| "b64_encode [a] =
     [b64_char (unat a div 4), b64_char (unat a mod 4 * 16), CHR ''='', CHR ''='']"
| "b64_encode [a, b] =
     [b64_char (unat a div 4), b64_char (unat a mod 4 * 16 + unat b div 16),
      b64_char (unat b mod 16 * 4), CHR ''='']"
| "b64_encode (a # b # c # xs) =
     [b64_char (unat a div 4), b64_char (unat a mod 4 * 16 + unat b div 16),
      b64_char (unat b mod 16 * 4 + unat c div 64), b64_char (unat c mod 64)] @ b64_encode xs"

text \<open>\<open>rnd i\<close> is the outcome of the \<open>i\<close>-th read of random bytes.\<close>

definition randomEncodedString :: "rand_source \<Rightarrow> nat \<Rightarrow> nat \<Rightarrow> string outcome" where
  "randomEncodedString rnd i dataLen =
     bind_ok (rnd i) (\<lambda>bytes. Ok (b64_encode (map bytes [0..<dataLen])))"

definition usernamePrefix :: string where
  "usernamePrefix = ''default_user_''"

definition generateUsername :: "rand_source \<Rightarrow> nat \<Rightarrow> nat \<Rightarrow> string outcome" where
  "generateUsername rnd i l =
     bind_ok (randomEncodedString rnd i l) (\<lambda>encoded.
       if length encoded < length usernamePrefix then Panic ''slice bounds out of range''
       else Ok (usernamePrefix @ take (length encoded - length usernamePrefix) encoded))"

section \<open>The Erlang cookie\<close>

definition erlangCookieName :: string where
  "erlangCookieName = ''erlang-cookie''"

definition cookie_Build :: "lib \<Rightarrow> rand_source \<Rightarrow> RabbitmqCluster \<Rightarrow> Secret outcome" where
  "cookie_Build L rnd c =
     bind_ok (randomEncodedString rnd 0 24) (\<lambda>cookie. Ok
       \<lparr>sec_meta = new_meta (ChildResourceName c erlangCookieName) (cluster_namespace c),
        sec_type = ''Opaque'', sec_data = Some [''.erlang.cookie'' \<mapsto> cookie]\<rparr>)"

definition cookie_Update :: "lib \<Rightarrow> RabbitmqCluster \<Rightarrow> Secret \<Rightarrow> Secret outcome" where
  "cookie_Update L c s =
     bind_ok (set_owner L c (set_labels_annotations c (sec_meta s))) (\<lambda>m. Ok (s\<lparr>sec_meta := m\<rparr>))"

section \<open>The default user\<close>

definition DefaultUserSecretName :: string where
  "DefaultUserSecretName = ''default-user''"

definition pluginEnabled :: "RabbitmqCluster \<Rightarrow> Plugin \<Rightarrow> bool" where
  "pluginEnabled c plugin =
     list_ex (\<lambda>v. v = plugin) (rc_additionalPlugins (sp_rabbitmq (cl_spec c)))"

text \<open>The three tables of \<open>updatePorts\<close>; its loop visits each plugin once, in any order.\<close>

definition portNames :: "(Plugin \<times> string) list" where
  "portNames = [(''rabbitmq_mqtt'', ''mqtt-port''), (''rabbitmq_stomp'', ''stomp-port''),
     (''rabbitmq_stream'', ''stream-port''), (''rabbitmq_web_mqtt'', ''web-mqtt-port''),
     (''rabbitmq_web_stomp'', ''web-stomp-port'')]"

definition TLSPort :: "(string \<times> string) list" where
  "TLSPort = [(''mqtt-port'', ''8883''), (''stomp-port'', ''61614''), (''stream-port'', ''5551''),
     (''web-mqtt-port'', ''15676''), (''web-stomp-port'', ''15673'')]"

definition plainPort :: "(string \<times> string) list" where
  "plainPort = [(''mqtt-port'', ''1883''), (''stomp-port'', ''61613''), (''stream-port'', ''5552''),
     (''web-mqtt-port'', ''15675''), (''web-stomp-port'', ''15674'')]"

definition table_entry :: "(string \<times> string) list \<Rightarrow> string \<Rightarrow> string" where
  "table_entry t k = (case map_of t k of None \<Rightarrow> [] | Some v \<Rightarrow> v)"

definition update_port_entries ::
  "RabbitmqCluster \<Rightarrow> (string \<times> string) list \<Rightarrow> (string \<rightharpoonup> string) \<Rightarrow> (string \<rightharpoonup> string)" where
  "update_port_entries c table d =
     fold (\<lambda>(plugin, portName) d.
        if pluginEnabled c plugin then d(portName \<mapsto> table_entry table portName)
        else d(portName := None)) portNames d"

definition secret_updatePorts :: "RabbitmqCluster \<Rightarrow> gomap \<Rightarrow> gomap outcome" where
  "secret_updatePorts c data =
     (if tls_secretName (sp_tls (cl_spec c)) \<noteq> []
      then bind_ok (map_store data ''port'' ''5671'')
             (\<lambda>d. Ok (Some (update_port_entries c TLSPort (entries d))))
      else bind_ok (map_store data ''port'' ''5672'')
             (\<lambda>d. Ok (Some (update_port_entries c plainPort (entries d)))))"

definition ini_call :: "lib \<Rightarrow> ini_file \<Rightarrow> ini_file outcome" where
  "ini_call L f = bind_ok (lib_ini L f) (\<lambda>u. Ok f)"

definition generateDefaultUserConf :: "lib \<Rightarrow> string \<Rightarrow> string \<Rightarrow> string outcome" where
  "generateDefaultUserConf L username password =
     bind_ok (ini_call L (IniLoad [])) (\<lambda>cfg.
     bind_ok (ini_call L (IniNewKey cfg ''default_user'' username)) (\<lambda>cfg.
     bind_ok (ini_call L (IniNewKey cfg ''default_pass'' password)) (\<lambda>cfg.
     lib_ini_write L cfg)))"

definition default_user_Build :: "lib \<Rightarrow> rand_source \<Rightarrow> RabbitmqCluster \<Rightarrow> Secret outcome" where
  "default_user_Build L rnd c =
     bind_ok (generateUsername rnd 0 24) (\<lambda>username.
     bind_ok (randomEncodedString rnd 1 24) (\<lambda>password.
     bind_ok (generateDefaultUserConf L username password) (\<lambda>defaultUserConf.
     bind_ok (secret_updatePorts c (Some [''username'' \<mapsto> username, ''password'' \<mapsto> password,
         ''default_user.conf'' \<mapsto> defaultUserConf, ''provider'' \<mapsto> ''rabbitmq'',
         ''type'' \<mapsto> ''rabbitmq'', ''host'' \<mapsto> ServiceSubDomain c])) (\<lambda>data.
     Ok \<lparr>sec_meta = new_meta (ChildResourceName c DefaultUserSecretName) (cluster_namespace c),
         sec_type = ''Opaque'', sec_data = data\<rparr>))))"

definition default_user_Update :: "lib \<Rightarrow> RabbitmqCluster \<Rightarrow> Secret \<Rightarrow> Secret outcome" where
  "default_user_Update L c s =
     bind_ok (secret_updatePorts c (sec_data s)) (\<lambda>data.
     bind_ok (set_owner L c (set_labels_annotations c (sec_meta s))) (\<lambda>m.
     Ok (s\<lparr>sec_meta := m, sec_data := data\<rparr>)))"

section \<open>Lemmas\<close>

lemma length_b64: "length (b64_encode xs) = 4 * ((length xs + 2) div 3)"
proof (induction xs rule: b64_encode.induct)
  case (4 a b c xs)
  have "(length xs + 5) div 3 = Suc ((length xs + 2) div 3)" by presburger
  with 4 show ?case by (simp add: ac_simps)
qed simp_all

text \<open>The characters of the URL-safe alphabet.\<close>

definition url_safe :: "char \<Rightarrow> bool" where
  "url_safe ch = (let n = of_char ch :: nat in
     65 \<le> n \<and> n \<le> 90 \<or> 97 \<le> n \<and> n \<le> 122 \<or> 48 \<le> n \<and> n \<le> 57 \<or> n = 45 \<or> n = 95)"

lemma b64_char_url_safe: "i < 64 \<Longrightarrow> url_safe (b64_char i)"
  by (auto simp: url_safe_def b64_char_def Let_def)

lemma b64_no_padding: "length xs mod 3 = 0 \<Longrightarrow> list_all url_safe (b64_encode xs)"
proof (induction xs rule: b64_encode.induct)
  case (4 a b c xs)
  have byte: "unat w < 256" for w :: "8 word" using unsigned_less [of w] by simp
  have "unat a mod 4 \<le> 3" "unat b mod 16 \<le> 15" "unat c mod 64 < 64" by simp_all
  moreover have "unat a div 4 < 64" "unat b div 16 \<le> 15" "unat c div 64 \<le> 3"
    using byte [of a] byte [of b] byte [of c] by simp_all
  ultimately have "unat a div 4 < 64" "unat a mod 4 * 16 + unat b div 16 < 64"
    "unat b mod 16 * 4 + unat c div 64 < 64" "unat c mod 64 < 64" by linarith+
  moreover have "length xs mod 3 = 0" using 4 by (simp add: mod_Suc split: if_splits)
  ultimately show ?case using 4 by (simp add: b64_char_url_safe)
qed simp_all

lemma update_port_entries_apply:
  "update_port_entries c table d k =
     (case map_of (map (\<lambda>(p, n). (n, p)) portNames) k of
        None \<Rightarrow> d k
      | Some plugin \<Rightarrow> if pluginEnabled c plugin then Some (table_entry table k) else None)"
  by (simp add: update_port_entries_def portNames_def)

lemma port_not_in_table: "map_of (map (\<lambda>(p, n). (n, p)) portNames) ''port'' = None"
  by (simp add: portNames_def)

lemma update_port_entries_port: "update_port_entries c table d ''port'' = d ''port''"
  by (simp add: update_port_entries_apply port_not_in_table)

lemma update_port_entries_idem:
  "update_port_entries c table ((update_port_entries c table d)(''port'' \<mapsto> v))
     = (update_port_entries c table d)(''port'' \<mapsto> v)"
proof
  fix k
  show "update_port_entries c table ((update_port_entries c table d)(''port'' \<mapsto> v)) k
     = ((update_port_entries c table d)(''port'' \<mapsto> v)) k"
    by (cases "k = ''port''")
      (simp_all add: update_port_entries_apply port_not_in_table split: option.split)
qed

lemma secret_updatePorts_Ok:
  "secret_updatePorts c data = Ok data' \<longleftrightarrow>
     (\<exists>d. data = Some d \<and> data' = Some (update_port_entries c
         (if tls_secretName (sp_tls (cl_spec c)) \<noteq> [] then TLSPort else plainPort)
         (d(''port'' \<mapsto> (if tls_secretName (sp_tls (cl_spec c)) \<noteq> [] then ''5671'' else ''5672'')))))"
  by (cases data) (auto simp: secret_updatePorts_def)

lemma secret_updatePorts_idem:
  assumes "secret_updatePorts c data = Ok data'"
  shows "secret_updatePorts c data' = Ok data'"
proof -
  let ?t = "if tls_secretName (sp_tls (cl_spec c)) \<noteq> [] then TLSPort else plainPort"
  let ?p = "if tls_secretName (sp_tls (cl_spec c)) \<noteq> [] then ''5671'' else ''5672''"
  from assms obtain d where d': "data' = Some (update_port_entries c ?t (d(''port'' \<mapsto> ?p)))"
    unfolding secret_updatePorts_Ok by blast
  have "update_port_entries c ?t ((update_port_entries c ?t (d(''port'' \<mapsto> ?p)))(''port'' \<mapsto> ?p))
     = (update_port_entries c ?t (d(''port'' \<mapsto> ?p)))(''port'' \<mapsto> ?p)"
    by (rule update_port_entries_idem)
  also have "\<dots> = update_port_entries c ?t (d(''port'' \<mapsto> ?p))"
    using update_port_entries_port [of c ?t "d(''port'' \<mapsto> ?p)"] by (simp add: fun_upd_idem)
  finally show ?thesis using d' unfolding secret_updatePorts_Ok by auto
qed

lemma cookie_Update_Ok:
  "cookie_Update L c s = Ok s' \<longleftrightarrow>
     (\<exists>m. set_owner L c (set_labels_annotations c (sec_meta s)) = Ok m \<and> s' = s\<lparr>sec_meta := m\<rparr>)"
  by (auto simp: cookie_Update_def bind_ok_eq_Ok)

lemma default_user_Update_Ok:
  "default_user_Update L c s = Ok s' \<longleftrightarrow>
     (\<exists>data m. secret_updatePorts c (sec_data s) = Ok data
        \<and> set_owner L c (set_labels_annotations c (sec_meta s)) = Ok m
        \<and> s' = s\<lparr>sec_meta := m, sec_data := data\<rparr>)"
  by (auto simp: default_user_Update_def bind_ok_eq_Ok)

section \<open>The builders\<close>

interpretation cookie: metadata_builder erlangCookieName sec_meta "\<lambda>m s. s\<lparr>sec_meta := m\<rparr>"
  "\<lambda>c s. Ok s" cookie_Build cookie_Update
  by unfold_locales (auto simp: cookie_Build_def cookie_Update_Ok bind_ok_eq_Ok)

interpretation default_user: metadata_builder DefaultUserSecretName sec_meta "\<lambda>m s. s\<lparr>sec_meta := m\<rparr>"
  "\<lambda>c s. bind_ok (secret_updatePorts c (sec_data s)) (\<lambda>data. Ok (s\<lparr>sec_data := data\<rparr>))"
  default_user_Build default_user_Update
  by unfold_locales
    (auto simp: default_user_Build_def default_user_Update_Ok bind_ok_eq_Ok dest: secret_updatePorts_idem)

section \<open>Properties\<close>

text \<open>
  C16. A generated user name starts with the fixed prefix and, when the number \<open>l\<close> of random
  bytes is a multiple of three and at least twelve, is made of URL-safe base64 characters only
  and has the length of the encoding of \<open>l\<close> bytes: decoded, it has \<open>l\<close> bytes. For fewer
  than ten bytes the slice expression panics.
\<close>

theorem generate_username_shape:
  assumes "rnd i = Ok bytes"
  shows "(9 < l \<longrightarrow> (\<exists>u. generateUsername rnd i l = Ok u \<and> prefix usernamePrefix u
      \<and> length u = 4 * ((l + 2) div 3)
      \<and> (l mod 3 = 0 \<longrightarrow> list_all url_safe u \<and> 3 * length u = 4 * l)))
   \<and> (l < 10 \<longrightarrow> generateUsername rnd i l = Panic ''slice bounds out of range'')"
proof -
  let ?enc = "b64_encode (map bytes [0..<l])"
  have length_prefix: "length usernamePrefix = 13" by (simp add: usernamePrefix_def)
  have len: "length ?enc = 4 * ((l + 2) div 3)" by (simp add: length_b64)
  have gen: "generateUsername rnd i l =
      (if length ?enc < 13 then Panic ''slice bounds out of range''
       else Ok (usernamePrefix @ take (length ?enc - 13) ?enc))"
    using assms by (simp add: generateUsername_def randomEncodedString_def length_prefix)
  have "list_all url_safe usernamePrefix"
    by (simp add: usernamePrefix_def url_safe_def)
  then have safe: "l mod 3 = 0 \<longrightarrow> list_all url_safe (usernamePrefix @ take (length ?enc - 13) ?enc)"
    using b64_no_padding [of "map bytes [0..<l]"] by (auto simp: list_all_iff dest: in_set_takeD)
  have "9 < l \<Longrightarrow> 16 \<le> length ?enc" "l < 10 \<Longrightarrow> length ?enc < 13"
    unfolding len by presburger+
  moreover have "l mod 3 = 0 \<longrightarrow> 3 * (4 * ((l + 2) div 3)) = 4 * l" by presburger
  ultimately show ?thesis unfolding gen using len safe by (auto simp: length_prefix)
qed

theorem generate_username_shape_witness:
  "\<exists>u. generateUsername (\<lambda>i. Ok (\<lambda>n. 0)) 0 24 = Ok u \<and> prefix ''default_user_'' u \<and> length u = 32"
  using generate_username_shape [of "\<lambda>i. Ok (\<lambda>n. 0)" 0 "\<lambda>n. 0" 24]
  by (auto simp: usernamePrefix_def)





end
