(* ===== verification/Op_Config.thy ===== *)
theory Op_Config
  imports Op_Services Op_Secrets "HOL-Library.Signed_Division"
begin

text \<open>
  \<open>internal/resource/configmap.go\<close>: the config map with the operator's defaults, the user's
  configuration and the TLS settings. The ini files are known by the calls made on them
  (\<open>ini_file\<close>), which the library's \<open>WriteTo\<close> turns into text.
\<close>

section \<open>Constants\<close>

definition newline :: char where "newline = char_of (10 :: nat)"

definition ServerConfigMapName :: string where "ServerConfigMapName = ''server-conf''"

definition defaultRabbitmqConf :: string where
  "defaultRabbitmqConf = join [[],
     ''cluster_formation.peer_discovery_backend = rabbit_peer_discovery_k8s'',
     ''cluster_formation.k8s.host = kubernetes.default'',
     ''cluster_formation.k8s.address_type = hostname'',
     ''cluster_partition_handling = pause_minority'',
     ''queue_master_locator = min-masters'',
     ''disk_free_limit.absolute = 2GB'',
     ''cluster_formation.randomized_startup_delay_range.min = 0'',
     ''cluster_formation.randomized_startup_delay_range.max = 60''] [newline]"

definition defaultTLSConf :: string where
  "defaultTLSConf = join [[],
     ''ssl_options.certfile = /etc/rabbitmq-tls/tls.crt'',
     ''ssl_options.keyfile = /etc/rabbitmq-tls/tls.key'',
     ''listeners.ssl.default = 5671'',
     [],
     ''management.ssl.certfile   = /etc/rabbitmq-tls/tls.crt'',
     ''management.ssl.keyfile    = /etc/rabbitmq-tls/tls.key'',
     ''management.ssl.port       = 15671'',
     [],
     ''prometheus.ssl.certfile  = /etc/rabbitmq-tls/tls.crt'',
     ''prometheus.ssl.keyfile   = /etc/rabbitmq-tls/tls.key'',
     ''prometheus.ssl.port      = 15691'',
     []] [newline]"

definition tlsCertDir :: string where "tlsCertDir = ''/etc/rabbitmq-tls/''"
definition caCertFilename :: string where "caCertFilename = ''ca.crt''"
definition caCertPath :: string where "caCertPath = tlsCertDir @ caCertFilename"
definition tlsCertFilename :: string where "tlsCertFilename = ''tls.crt''"
definition tlsCertPath :: string where "tlsCertPath = tlsCertDir @ tlsCertFilename"
definition tlsKeyFilename :: string where "tlsKeyFilename = ''tls.key''"
definition tlsKeyPath :: string where "tlsKeyPath = tlsCertDir @ tlsKeyFilename"

section \<open>The memory limit\<close>

text \<open>Go's division of \<open>int64\<close> values truncates towards zero.\<close>

definition go_div :: "64 word \<Rightarrow> 64 word \<Rightarrow> 64 word" where
  "go_div a b = word_of_int (sint a sdiv sint b)"

definition GiB :: "64 word" where "GiB = 1073741824"

definition removeHeadroom :: "64 word \<Rightarrow> 64 word" where
  "removeHeadroom memLimit =
     (if sint (2 * GiB) < sint (go_div memLimit 5) then memLimit - 2 * GiB
      else memLimit - go_div memLimit 5)"

section \<open>The keys of the user's section\<close>

text \<open>
  The calls of \<open>NewKey\<close> on the default section of the user configuration, in their order:
  those under \<open>TLSEnabled\<close>, those under \<open>MutualTLSEnabled\<close>, that for the memory limit.
\<close>

definition tls_keys :: "RabbitmqCluster \<Rightarrow> (string \<times> string) list" where
  "tls_keys c =
     (if DisableNonTLSListeners c then [(''listeners.tcp'', ''none'')]
      else [(''management.tcp.port'', ''15672''), (''prometheus.tcp.port'', ''15692'')])
     @ (if AdditionalPluginEnabled c ''rabbitmq_mqtt''
        then (''mqtt.listeners.ssl.default'', ''8883'')
             # (if DisableNonTLSListeners c then [(''mqtt.listeners.tcp'', ''none'')] else [])
        else [])
     @ (if AdditionalPluginEnabled c ''rabbitmq_stomp''
        then (''stomp.listeners.ssl.1'', ''61614'')
             # (if DisableNonTLSListeners c then [(''stomp.listeners.tcp'', ''none'')] else [])
        else [])
     @ (if AdditionalPluginEnabled c ''rabbitmq_stream''
        then (''stream.listeners.ssl.default'', ''5551'')
             # (if DisableNonTLSListeners c then [(''stream.listeners.tcp'', ''none'')] else [])
        else [])"

definition mutual_tls_keys :: "RabbitmqCluster \<Rightarrow> (string \<times> string) list" where
  "mutual_tls_keys c =
     [(''ssl_options.cacertfile'', caCertPath), (''ssl_options.verify'', ''verify_peer''),
      (''management.ssl.cacertfile'', caCertPath), (''prometheus.ssl.cacertfile'', caCertPath)]
     @ (if AdditionalPluginEnabled c ''rabbitmq_web_mqtt''
        then [(''web_mqtt.ssl.port'', ''15676''), (''web_mqtt.ssl.cacertfile'', caCertPath),
              (''web_mqtt.ssl.certfile'', tlsCertPath), (''web_mqtt.ssl.keyfile'', tlsKeyPath)]
             @ (if DisableNonTLSListeners c then [(''web_mqtt.tcp.listener'', ''none'')] else [])
        else [])
     @ (if AdditionalPluginEnabled c ''rabbitmq_web_stomp''
        then [(''web_stomp.ssl.port'', ''15673''), (''web_stomp.ssl.cacertfile'', caCertPath),
              (''web_stomp.ssl.certfile'', tlsCertPath), (''web_stomp.ssl.keyfile'', tlsKeyPath)]
             @ (if DisableNonTLSListeners c then [(''web_stomp.tcp.listener'', ''none'')] else [])
        else [])"

definition memory_keys :: "RabbitmqCluster \<Rightarrow> (string \<times> string) list" where
  "memory_keys c =
     (case sp_resources (cl_spec c) of
        None \<Rightarrow> []
      | Some r \<Rightarrow> [(''total_memory_available_override_value'',
          itoa (sint (removeHeadroom (quantity_value (quantity_entry (rr_limits r) ''memory'')))))])"

definition user_keys :: "RabbitmqCluster \<Rightarrow> (string \<times> string) list" where
  "user_keys c = (if TLSEnabled c then tls_keys c else [])
     @ (if MutualTLSEnabled c then mutual_tls_keys c else [])
     @ (if MemoryLimited c then memory_keys c else [])"

text \<open>A run of \<open>NewKey\<close> calls; the first error ends it.\<close>

fun new_keys :: "lib \<Rightarrow> ini_file \<Rightarrow> (string \<times> string) list \<Rightarrow> ini_file outcome" where
  "new_keys L f [] = Ok f"
| "new_keys L f ((k, v) # kvs) = bind_ok (ini_call L (IniNewKey f k v)) (\<lambda>f'. new_keys L f' kvs)"

section \<open>Build and Update\<close>

definition config_Build :: "lib \<Rightarrow> rand_source \<Rightarrow> RabbitmqCluster \<Rightarrow> ConfigMap outcome" where
  "config_Build L rnd c =
     Ok \<lparr>cm_meta = (new_meta (ChildResourceName c ServerConfigMapName) (cluster_namespace c))
           \<lparr>om_labels := GetLabels (cluster_name c) (om_labels (cl_meta c)),
            om_annotations := ReconcileAndFilterAnnotations None [om_annotations (cl_meta c)]\<rparr>,
         cm_data = None\<rparr>"

definition updateProperty :: "string \<Rightarrow> string \<Rightarrow> (string \<rightharpoonup> string) \<Rightarrow> (string \<rightharpoonup> string)" where
  "updateProperty key val d = (if val = [] then d(key := None) else d(key \<mapsto> val))"

definition operator_configuration :: "lib \<Rightarrow> RabbitmqCluster \<Rightarrow> ini_file outcome" where
  "operator_configuration L c =
     bind_ok (ini_call L (IniLoad defaultRabbitmqConf)) (\<lambda>f.
     ini_call L (IniNewKey f ''cluster_name'' (cluster_name c)))"

definition user_configuration :: "lib \<Rightarrow> RabbitmqCluster \<Rightarrow> ini_file outcome" where
  "user_configuration L c =
     bind_ok (if TLSEnabled c then ini_call L (IniAppend IniEmpty defaultTLSConf) else Ok IniEmpty)
       (\<lambda>f. new_keys L f (user_keys c))"

definition config_Update :: "lib \<Rightarrow> RabbitmqCluster \<Rightarrow> ConfigMap \<Rightarrow> ConfigMap outcome" where
  "config_Update L c cm =
     (let props = sp_rabbitmq (cl_spec c) in
     bind_ok (operator_configuration L c) (\<lambda>operatorConfiguration.
     bind_ok (user_configuration L c) (\<lambda>userConfiguration.
     bind_ok (lib_ini_write L operatorConfiguration) (\<lambda>operatorDefaults.
     bind_ok (wrap_err ''failed to append spec.rabbitmq.additionalConfig''
                (ini_call L (IniAppend userConfiguration (rc_additionalConfig props)))) (\<lambda>userConfiguration'.
     bind_ok (lib_ini_write L userConfiguration') (\<lambda>userDefined.
     let data = (entries (cm_data cm))(''operatorDefaults.conf'' \<mapsto> operatorDefaults,
                  ''userDefinedConfiguration.conf'' \<mapsto> userDefined);
         data' = updateProperty ''rabbitmq-env.conf'' (rc_envConfig props)
                   (updateProperty ''advanced.config'' (rc_advancedConfig props) data)
     in bind_ok (set_owner L c (cm_meta cm)) (\<lambda>m.
        Ok \<lparr>cm_meta = m, cm_data = Some data'\<rparr>)))))))"

section \<open>Lemmas\<close>

lemma new_keys_Ok:
  "new_keys L f kvs = Ok g \<Longrightarrow> g = foldl (\<lambda>f (k, v). IniNewKey f k v) f kvs"
  by (induction L f kvs rule: new_keys.induct) (auto simp: ini_call_def outcome_ok)

lemma updateProperty_apply:
  "updateProperty k v d x = (if x = k then if v = [] then None else Some v else d x)"
  by (simp add: updateProperty_def)

definition config_data ::
  "RabbitmqClusterConfigurationSpec \<Rightarrow> string \<Rightarrow> string \<Rightarrow> (string \<rightharpoonup> string) \<Rightarrow> (string \<rightharpoonup> string)" where
  "config_data props opd ud d =
     updateProperty ''rabbitmq-env.conf'' (rc_envConfig props)
       (updateProperty ''advanced.config'' (rc_advancedConfig props)
          (d(''operatorDefaults.conf'' \<mapsto> opd, ''userDefinedConfiguration.conf'' \<mapsto> ud)))"

lemma config_data_twice: "config_data props o1 u1 (config_data props o1 u1 d) = config_data props o1 u1 d"
  by (auto simp: config_data_def updateProperty_apply fun_eq_iff)

text \<open>The two texts that an update writes.\<close>

definition config_texts :: "lib \<Rightarrow> RabbitmqCluster \<Rightarrow> (string \<times> string) outcome" where
  "config_texts L c =
     bind_ok (operator_configuration L c) (\<lambda>f. bind_ok (user_configuration L c) (\<lambda>g.
     bind_ok (lib_ini_write L f) (\<lambda>t.
     bind_ok (wrap_err ''failed to append spec.rabbitmq.additionalConfig''
        (ini_call L (IniAppend g (rc_additionalConfig (sp_rabbitmq (cl_spec c)))))) (\<lambda>g'.
     bind_ok (lib_ini_write L g') (\<lambda>u. Ok (t, u))))))"

lemma config_Update_Ok:
  "config_Update L c cm = Ok y \<longleftrightarrow>
     (\<exists>t u m. config_texts L c = Ok (t, u) \<and> set_owner L c (cm_meta cm) = Ok m
        \<and> y = \<lparr>cm_meta = m, cm_data = Some (config_data (sp_rabbitmq (cl_spec c)) t u (entries (cm_data cm)))\<rparr>)"
  by (auto simp: config_Update_def config_texts_def config_data_def Let_def outcome_ok)

interpretation config: resource_builder ServerConfigMapName cm_meta "\<lambda>c. True" config_Build config_Update
proof unfold_locales
  fix L c x y
  assume L: "lib_ok L" and upd: "config_Update L c x = Ok y"
  then obtain t u where texts: "config_texts L c = Ok (t, u)"
    and own: "set_owner L c (cm_meta x) = Ok (cm_meta y)"
    and data: "cm_data y = Some (config_data (sp_rabbitmq (cl_spec c)) t u (entries (cm_data x)))"
    by (auto simp: config_Update_Ok)
  show "om_name (cm_meta y) = om_name (cm_meta x) \<and> om_namespace (cm_meta y) = om_namespace (cm_meta x)
      \<and> om_uid (cm_meta y) = om_uid (cm_meta x)"
    "\<exists>r. controller_of (cm_meta y) = Some r \<and> or_uid r = om_uid (cl_meta c) \<and> or_name r = cluster_name c"
    using set_owner_facts [OF L own] by simp_all
  have "set_owner L c (cm_meta y) = Ok (cm_meta y)"
    by (rule set_owner_again [OF L own]) simp_all
  then show "config_Update L c y = Ok y"
    unfolding config_Update_Ok using texts data by (auto simp: config_data_twice)
qed (auto simp: config_Build_def)

text \<open>The headroom, computed without wrap-around.\<close>

lemma sint_range: "- (2 ^ 63) \<le> sint (w :: 64 word)" "sint (w :: 64 word) < 2 ^ 63"
  using sint_ge [of w] sint_lt [of w] by simp_all

lemma sint_word_of_int:
  "- (2 ^ 63) \<le> i \<Longrightarrow> i < 2 ^ 63 \<Longrightarrow> sint (word_of_int i :: 64 word) = i"
  by (simp add: sint_sbintrunc' signed_take_bit_int_eq_self)

lemma sint_diff:
  assumes "- (2 ^ 63) \<le> sint a - sint b" "sint a - sint b < 2 ^ 63"
  shows "sint (a - b :: 64 word) = sint a - sint b"
proof -
  have "a - b = word_of_int (sint a - sint b)" by simp
  with sint_word_of_int [OF assms] show ?thesis by metis
qed

lemma go_div_nonneg:
  assumes "0 \<le> sint a" "0 < sint b"
  shows "sint (go_div a b) = sint a div sint b"
proof -
  have "sint a sdiv sint b = sint a div sint b" using assms by (simp add: signed_divide_int_def sgn_if)
  moreover have "0 \<le> sint a div sint b" "sint a div sint b \<le> sint a"
    using zdiv_mono2 [of "sint a" 1 "sint b"] assms by (simp_all add: pos_imp_zdiv_nonneg_iff)
  ultimately show ?thesis using sint_range [of a] by (simp add: go_div_def sint_word_of_int)
qed

lemma removeHeadroom_sint:
  assumes "0 \<le> sint m"
  shows "sint (removeHeadroom m) = sint m - min (sint m div 5) 2147483648"
proof -
  have five: "sint (5 :: 64 word) = 5" and two: "sint (2 * GiB) = 2147483648"
    by (simp_all add: GiB_def)
  have q: "sint (go_div m 5) = sint m div 5" using go_div_nonneg [of m 5] assms by (simp add: five)
  have "0 \<le> sint m div 5" "sint m div 5 \<le> sint m" using assms by linarith+
  then have "sint (m - go_div m 5) = sint m - sint m div 5"
    using sint_diff [of m "go_div m 5"] sint_range [of m] assms by (simp add: q)
  moreover have "sint (m - 2 * GiB) = sint m - 2147483648"
    using sint_diff [of m "2 * GiB"] sint_range [of m] assms by (simp add: two)
  ultimately show ?thesis by (simp add: removeHeadroom_def q two min_def)
qed

section \<open>Properties\<close>

text \<open>
  C7. The memory that RabbitMQ is told of is the limit less the smaller of a fifth of it and
  2 GiB: no wrap-around for any limit that an \<open>int64\<close> holds, never more than the limit, never
  less than four fifths of it, positive for a positive limit, and growing with the limit.
\<close>

theorem removeHeadroom_bounds:
  assumes "0 \<le> sint m"
  shows "sint (removeHeadroom m) = sint m - min (sint m div 5) (2 * 2 ^ 30)
    \<and> sint (removeHeadroom m) \<le> sint m
    \<and> 4 * sint m \<le> 5 * sint (removeHeadroom m)
    \<and> (0 < sint m \<longrightarrow> 0 < sint (removeHeadroom m))
    \<and> (\<forall>m'. 0 \<le> sint m' \<and> sint m' \<le> sint m \<longrightarrow> sint (removeHeadroom m') \<le> sint (removeHeadroom m))"
proof -
  note at = removeHeadroom_sint [OF assms]
  have "sint (removeHeadroom m') \<le> sint (removeHeadroom m)" if "0 \<le> sint m'" "sint m' \<le> sint m" for m'
    using at removeHeadroom_sint [OF that(1)] that(2) unfolding min_def by (simp split: if_split) linarith
  moreover have "sint (removeHeadroom m) \<le> sint m" "4 * sint m \<le> 5 * sint (removeHeadroom m)"
    "0 < sint m \<longrightarrow> 0 < sint (removeHeadroom m)"
    using at assms by (simp_all add: min_def) linarith+
  ultimately show ?thesis using at by simp
qed

theorem removeHeadroom_bounds_witness:
  "sint (removeHeadroom 2147483648) \<le> 2147483648 \<and> 4 * 2147483648 \<le> 5 * sint (removeHeadroom 2147483648)"
  using removeHeadroom_bounds [of 2147483648] by simp

definition all_user_keys :: "(string \<times> string) list \<Rightarrow> (string \<times> string) list" where
  "all_user_keys mem =
     (([(''listeners.tcp'', ''none'')] @ [(''management.tcp.port'', ''15672''), (''prometheus.tcp.port'', ''15692'')])
      @ ((''mqtt.listeners.ssl.default'', ''8883'') # [(''mqtt.listeners.tcp'', ''none'')])
      @ ((''stomp.listeners.ssl.1'', ''61614'') # [(''stomp.listeners.tcp'', ''none'')])
      @ ((''stream.listeners.ssl.default'', ''5551'') # [(''stream.listeners.tcp'', ''none'')]))
     @ ([(''ssl_options.cacertfile'', caCertPath), (''ssl_options.verify'', ''verify_peer''),
         (''management.ssl.cacertfile'', caCertPath), (''prometheus.ssl.cacertfile'', caCertPath)]
       @ ([(''web_mqtt.ssl.port'', ''15676''), (''web_mqtt.ssl.cacertfile'', caCertPath),
           (''web_mqtt.ssl.certfile'', tlsCertPath), (''web_mqtt.ssl.keyfile'', tlsKeyPath)]
          @ [(''web_mqtt.tcp.listener'', ''none'')])
       @ ([(''web_stomp.ssl.port'', ''15673''), (''web_stomp.ssl.cacertfile'', caCertPath),
           (''web_stomp.ssl.certfile'', tlsCertPath), (''web_stomp.ssl.keyfile'', tlsKeyPath)]
          @ [(''web_stomp.tcp.listener'', ''none'')]))
     @ mem"

lemma user_keys_subseq: "subseq (user_keys c) (all_user_keys (memory_keys c))"
  unfolding user_keys_def tls_keys_def mutual_tls_keys_def all_user_keys_def
  by (intro list_emb_append_mono subseq_if subseq_if_else list_emb_Cons2 subseq_order.refl) simp_all

lemma memory_keys_names: "map fst (memory_keys c) \<in> {[], [''total_memory_available_override_value'']}"
  by (simp add: memory_keys_def split: option.split)

lemma all_user_keys_distinct:
  "mem \<in> {[], [''total_memory_available_override_value'']} \<Longrightarrow> map fst kvs = mem \<Longrightarrow>
     distinct (map fst (all_user_keys kvs))"
  by (auto simp: all_user_keys_def)

lemma user_keys_distinct: "distinct (map fst (user_keys c))"
  by (rule subseq_distinct [OF subseq_map [OF user_keys_subseq]
        all_user_keys_distinct [OF memory_keys_names refl]])

text \<open>A library whose ini calls never fail writes both texts.\<close>

lemma new_keys_total:
  "(\<And>f. lib_ini L f = Ok ()) \<Longrightarrow> new_keys L f kvs = Ok (foldl (\<lambda>f (k, v). IniNewKey f k v) f kvs)"
  by (induction kvs arbitrary: f) (auto simp: ini_call_def)

lemma sample_config_texts: "config_texts sample_lib c = Ok ([], [])"
proof -
  have "lib_ini sample_lib f = Ok ()" "lib_ini_write sample_lib f = Ok []" for f
    by (simp_all add: sample_lib_def)
  then show ?thesis
    by (simp add: config_texts_def operator_configuration_def user_configuration_def ini_call_def new_keys_total)
qed

text \<open>
  C6. What an update leaves in the config map: the operator's defaults are the built-in text
  with the name of the cluster; the user's file is the TLS defaults (with TLS), the keys the
  settings ask for, each set once, and last of all the user's own configuration, so that a
  key the user sets comes last; the two optional files are there iff they are not empty, and
  every other entry is as it was.
\<close>

theorem config_update_content:
  assumes "config_Update L c cm = Ok y"
  shows "\<exists>d. cm_data y = Some d
    \<and> (\<exists>t. d ''operatorDefaults.conf'' = Some t
          \<and> lib_ini_write L (IniNewKey (IniLoad defaultRabbitmqConf) ''cluster_name'' (cluster_name c)) = Ok t)
    \<and> (\<exists>u. d ''userDefinedConfiguration.conf'' = Some u
          \<and> lib_ini_write L (IniAppend
               (foldl (\<lambda>f (k, v). IniNewKey f k v)
                  (if TLSEnabled c then IniAppend IniEmpty defaultTLSConf else IniEmpty) (user_keys c))
               (rc_additionalConfig (sp_rabbitmq (cl_spec c)))) = Ok u)
    \<and> distinct (map fst (user_keys c))
    \<and> d ''advanced.config'' = (if rc_advancedConfig (sp_rabbitmq (cl_spec c)) = [] then None
                                else Some (rc_advancedConfig (sp_rabbitmq (cl_spec c))))
    \<and> d ''rabbitmq-env.conf'' = (if rc_envConfig (sp_rabbitmq (cl_spec c)) = [] then None
                                else Some (rc_envConfig (sp_rabbitmq (cl_spec c))))
    \<and> (\<forall>k. k \<notin> {''operatorDefaults.conf'', ''userDefinedConfiguration.conf'', ''advanced.config'',
             ''rabbitmq-env.conf''} \<longrightarrow> d k = entries (cm_data cm) k)"
proof -
  obtain t u where texts: "config_texts L c = Ok (t, u)"
    and data: "cm_data y = Some (config_data (sp_rabbitmq (cl_spec c)) t u (entries (cm_data cm)))"
    using assms by (auto simp: config_Update_Ok)
  have opd: "lib_ini_write L (IniNewKey (IniLoad defaultRabbitmqConf) ''cluster_name'' (cluster_name c)) = Ok t"
    using texts by (auto simp: config_texts_def operator_configuration_def ini_call_def outcome_ok)
  from texts obtain g where g: "user_configuration L c = Ok g"
    and ud: "lib_ini_write L (IniAppend g (rc_additionalConfig (sp_rabbitmq (cl_spec c)))) = Ok u"
    by (auto simp: config_texts_def ini_call_def outcome_ok)
  have g_eq: "g = foldl (\<lambda>f (k, v). IniNewKey f k v)
      (if TLSEnabled c then IniAppend IniEmpty defaultTLSConf else IniEmpty) (user_keys c)"
    using g new_keys_Ok by (auto simp: user_configuration_def ini_call_def outcome_ok split: if_splits)
  show ?thesis
    using data opd ud user_keys_distinct [of c]
    by (intro exI [of _ "config_data (sp_rabbitmq (cl_spec c)) t u (entries (cm_data cm))"])
      (simp add: g_eq config_data_def updateProperty_apply)
qed

definition sample_config :: ConfigMap where
  "sample_config = \<lparr>cm_meta = new_meta ''rabbit-server-conf'' ''ns'', cm_data = Some [''mine'' \<mapsto> ''x'']\<rparr>"

theorem config_update_content_witness:
  "\<exists>y. config_Update sample_lib (new_cluster ''rabbit'' ''ns'' ''u1'') sample_config = Ok y
     \<and> entries (cm_data y) ''mine'' = Some ''x''"
proof -
  obtain y where y: "config_Update sample_lib (new_cluster ''rabbit'' ''ns'' ''u1'') sample_config = Ok y"
    using sample_set_owner [of "cm_meta sample_config"]
    by (auto simp: config_Update_Ok sample_config_texts sample_config_def)
  with config_update_content [OF y] show ?thesis by (force simp: sample_config_def)
qed

definition tls_listeners :: "(string \<times> string) list" where
  "tls_listeners = [(''mqtt.listeners.ssl.default'', ''mqtts''), (''stomp.listeners.ssl.1'', ''stomps''),
     (''web_mqtt.ssl.port'', ''web-mqtt-tls''), (''web_stomp.ssl.port'', ''web-stomp-tls'')]"

lemma in_keys:
  "x \<in> set [] \<longleftrightarrow> False"
  "x \<in> set (e # es) \<longleftrightarrow> x = e \<or> x \<in> set es"
  "x \<in> set (xs @ ys) \<longleftrightarrow> x \<in> set xs \<or> x \<in> set ys"
  "x \<in> set (if b then xs else ys) \<longleftrightarrow> (if b then x \<in> set xs else x \<in> set ys)"
  by auto

lemma memory_key_name: "k \<noteq> ''total_memory_available_override_value'' \<Longrightarrow> (k, v) \<notin> set (memory_keys c)"
  by (simp add: memory_keys_def split: option.split)

lemma listener_keys:
  "(''mqtt.listeners.ssl.default'', v) \<in> set (user_keys c) \<longleftrightarrow>
     TLSEnabled c \<and> AdditionalPluginEnabled c ''rabbitmq_mqtt'' \<and> v = ''8883''"
  "(''stomp.listeners.ssl.1'', v) \<in> set (user_keys c) \<longleftrightarrow>
     TLSEnabled c \<and> AdditionalPluginEnabled c ''rabbitmq_stomp'' \<and> v = ''61614''"
  "(''stream.listeners.ssl.default'', v) \<in> set (user_keys c) \<longleftrightarrow>
     TLSEnabled c \<and> AdditionalPluginEnabled c ''rabbitmq_stream'' \<and> v = ''5551''"
  "(''web_mqtt.ssl.port'', v) \<in> set (user_keys c) \<longleftrightarrow>
     MutualTLSEnabled c \<and> AdditionalPluginEnabled c ''rabbitmq_web_mqtt'' \<and> v = ''15676''"
  "(''web_stomp.ssl.port'', v) \<in> set (user_keys c) \<longleftrightarrow>
     MutualTLSEnabled c \<and> AdditionalPluginEnabled c ''rabbitmq_web_stomp'' \<and> v = ''15673''"
  unfolding user_keys_def tls_keys_def mutual_tls_keys_def in_keys if_else_False by (simp_all add: memory_key_name cong: if_cong)

lemma listener_numbers:
  "itoa 8883 = ''8883''" "itoa 61614 = ''61614''" "itoa 5551 = ''5551''"
  "itoa 15676 = ''15676''" "itoa 15673 = ''15673''"
  by (simp_all add: itoa_def nat_digits.simps char_of_def bit_Suc_0_iff)

lemma port_of_name:
  "(n, p) \<in> set (generateServicePortsMap c) \<Longrightarrow> map_of all_service_ports n = Some p"
proof -
  assume "(n, p) \<in> set (generateServicePortsMap c)"
  with subseq_set [OF generated_ports_subseq] have "(n, p) \<in> set all_service_ports" by blast
  moreover have "distinct (map fst all_service_ports)" by (simp add: all_service_ports_def)
  ultimately show ?thesis by simp
qed

lemma tls_port_numbers:
  "(''mqtts'', p) \<in> set (generateServicePortsMap c) \<Longrightarrow> sp_port p = 8883"
  "(''stomps'', p) \<in> set (generateServicePortsMap c) \<Longrightarrow> sp_port p = 61614"
  "(''web-mqtt-tls'', p) \<in> set (generateServicePortsMap c) \<Longrightarrow> sp_port p = 15676"
  "(''web-stomp-tls'', p) \<in> set (generateServicePortsMap c) \<Longrightarrow> sp_port p = 15673"
  by (drule port_of_name; auto simp: all_service_ports_def svc_port_def)+

definition stream_cluster :: RabbitmqCluster where
  "stream_cluster = (new_cluster ''rabbit'' ''ns'' ''u1'')\<lparr>cl_spec := default_spec
     \<lparr>sp_tls := \<lparr>tls_secretName = ''tls'', tls_caSecretName = [], tls_disableNonTLSListeners = True\<rparr>,
      sp_rabbitmq := \<lparr>rc_additionalPlugins = [''rabbitmq_multi_dc_replication''], rc_additionalConfig = [],
        rc_advancedConfig = [], rc_envConfig = []\<rparr>\<rparr>\<rparr>"



end
