(* ===== verification/Op_Plugins.thy ===== *)
theory Op_Plugins
  imports Builder_Interface
begin

text \<open>
  \<open>internal/resource/rabbitmq_plugins.go\<close>: the list of enabled plugins and the config map
  that carries it.
\<close>

definition requiredPlugins :: "string list" where
  "requiredPlugins = [''rabbitmq_peer_discovery_k8s'', ''rabbitmq_prometheus'', ''rabbitmq_management'']"

definition PluginsConfigName :: string where
  "PluginsConfigName = ''plugins-conf''"

record RabbitmqPlugins =
  rp_requiredPlugins :: "string list"
  rp_additionalPlugins :: "string list"

definition NewRabbitmqPlugins :: "Plugin list \<Rightarrow> RabbitmqPlugins" where
  "NewRabbitmqPlugins plugins =
     \<lparr>rp_requiredPlugins = requiredPlugins, rp_additionalPlugins = map (\<lambda>p. p) plugins\<rparr>"

text \<open>The loop of \<open>DesiredPlugins\<close>: \<open>check\<close> holds the plugins seen so far.\<close>

fun desired_plugins_loop :: "(string \<rightharpoonup> bool) \<Rightarrow> string list \<Rightarrow> string list \<Rightarrow> string list" where
  "desired_plugins_loop check enabledPlugins [] = enabledPlugins"
| "desired_plugins_loop check enabledPlugins (p # ps) =
     (if check p = None then desired_plugins_loop (check(p \<mapsto> True)) (enabledPlugins @ [p]) ps
      else desired_plugins_loop check enabledPlugins ps)"

definition DesiredPlugins :: "RabbitmqPlugins \<Rightarrow> string list" where
  "DesiredPlugins r =
     desired_plugins_loop Map.empty [] (rp_requiredPlugins r @ rp_additionalPlugins r)"

definition AsString :: "RabbitmqPlugins \<Rightarrow> string \<Rightarrow> string" where
  "AsString r sep = join (DesiredPlugins r) sep"

definition desiredPluginsAsString :: "Plugin list \<Rightarrow> string" where
  "desiredPluginsAsString additionalPlugins =
     ''['' @ AsString (NewRabbitmqPlugins additionalPlugins) '','' @ ''].''"

definition plugins_Build :: "lib \<Rightarrow> rand_source \<Rightarrow> RabbitmqCluster \<Rightarrow> ConfigMap outcome" where
  "plugins_Build L rnd c = Ok
     \<lparr>cm_meta = (new_meta (ChildResourceName c PluginsConfigName) (cluster_namespace c))
        \<lparr>om_labels := GetLabels (cluster_name c) (om_labels (cl_meta c)),
         om_annotations := ReconcileAndFilterAnnotations None [om_annotations (cl_meta c)]\<rparr>,
      cm_data = Some [''enabled_plugins'' \<mapsto> desiredPluginsAsString []]\<rparr>"

definition plugins_Update :: "lib \<Rightarrow> RabbitmqCluster \<Rightarrow> ConfigMap \<Rightarrow> ConfigMap outcome" where
  "plugins_Update L c cm =
     (let data = (case cm_data cm of None \<Rightarrow> Map.empty | Some d \<Rightarrow> d);
          cm' = cm\<lparr>cm_data := Some (data(''enabled_plugins'' \<mapsto>
                  desiredPluginsAsString (rc_additionalPlugins (sp_rabbitmq (cl_spec c)))))\<rparr>
      in bind_ok (set_owner L c (cm_meta cm')) (\<lambda>m. Ok (cm'\<lparr>cm_meta := m\<rparr>)))"

section \<open>The loop keeps first occurrences\<close>

text \<open>A reference definition: drop every element that occurs earlier in the list.\<close>

definition first_occurrences :: "'a list \<Rightarrow> 'a list" where
  "first_occurrences xs = rev (remdups (rev xs))"

lemma first_occurrences_snoc:
  "first_occurrences (xs @ [x]) = (if x \<in> set xs then first_occurrences xs else first_occurrences xs @ [x])"
  by (simp add: first_occurrences_def)

lemma first_occurrences_facts [simp]:
  "distinct (first_occurrences xs)"
  "set (first_occurrences xs) = set xs"
  by (simp_all add: first_occurrences_def)

lemma first_occurrences_prefix: "distinct xs \<Longrightarrow> prefix xs (first_occurrences (xs @ ys))"
proof (induction ys rule: rev_induct)
  case Nil
  then have "first_occurrences xs = xs"
    by (simp add: first_occurrences_def distinct_remdups_id)
  then show ?case by simp
next
  case (snoc y ys)
  then show ?case
    using first_occurrences_snoc [of "xs @ ys" y] by (auto simp: prefix_def)
qed

lemma desired_plugins_loop_first:
  assumes "\<forall>p. check p \<noteq> None \<longleftrightarrow> p \<in> set done"
  shows "desired_plugins_loop check (first_occurrences done) ps = first_occurrences (done @ ps)"
  using assms
proof (induction ps arbitrary: check "done")
  case (Cons p ps)
  show ?case
  proof (cases "p \<in> set done")
    case True
    then have "first_occurrences (done @ [p]) = first_occurrences done"
      by (simp add: first_occurrences_snoc)
    moreover have "\<forall>q. check q \<noteq> None \<longleftrightarrow> q \<in> set (done @ [p])" using Cons.prems True by auto
    moreover obtain b where "check p = Some b" using Cons.prems True by blast
    ultimately show ?thesis using Cons.IH [of check "done @ [p]"] by simp
  next
    case False
    then have "first_occurrences (done @ [p]) = first_occurrences done @ [p]"
      by (simp add: first_occurrences_snoc)
    moreover have "\<forall>q. (check(p \<mapsto> True)) q \<noteq> None \<longleftrightarrow> q \<in> set (done @ [p])" using Cons.prems by auto
    then have "desired_plugins_loop (check(p \<mapsto> True)) (first_occurrences (done @ [p])) ps
        = first_occurrences ((done @ [p]) @ ps)" by (rule Cons.IH)
    moreover have "check p = None" using Cons.prems False by blast
    ultimately show ?thesis by simp
  qed
qed simp

lemma DesiredPlugins_eq:
  "DesiredPlugins r = first_occurrences (rp_requiredPlugins r @ rp_additionalPlugins r)"
  using desired_plugins_loop_first [of Map.empty "[]"] by (simp add: DesiredPlugins_def first_occurrences_def)

lemma requiredPlugins_distinct: "distinct requiredPlugins"
  by (simp add: requiredPlugins_def)

lemma set_DesiredPlugins: "set (DesiredPlugins (NewRabbitmqPlugins ps)) = set requiredPlugins \<union> set ps"
  by (simp add: DesiredPlugins_eq NewRabbitmqPlugins_def)

section \<open>The builder\<close>

lemma plugins_Update_Ok:
  "plugins_Update L c cm = Ok cm' \<longleftrightarrow>
     (\<exists>m. set_owner L c (cm_meta cm) = Ok m \<and>
        cm' = \<lparr>cm_meta = m, cm_data = Some ((entries (cm_data cm))(''enabled_plugins'' \<mapsto>
                 desiredPluginsAsString (rc_additionalPlugins (sp_rabbitmq (cl_spec c)))))\<rparr>)"
  by (auto simp: plugins_Update_def bind_ok_eq_Ok entries_def)

interpretation plugins: resource_builder PluginsConfigName cm_meta "\<lambda>c. True" plugins_Build plugins_Update
proof unfold_locales
  fix L rnd c x
  assume "plugins_Build L rnd c = Ok x"
  then show "om_name (cm_meta x) = ChildResourceName c PluginsConfigName \<and>
      om_namespace (cm_meta x) = cluster_namespace c" "om_ownerReferences (cm_meta x) = []"
    by (auto simp: plugins_Build_def)
next
  fix L c x y
  assume L: "lib_ok L" and "plugins_Update L c x = Ok y"
  then obtain m where m: "set_owner L c (cm_meta x) = Ok m" and y: "cm_meta y = m"
    "cm_data y = Some ((entries (cm_data x))(''enabled_plugins'' \<mapsto>
                 desiredPluginsAsString (rc_additionalPlugins (sp_rabbitmq (cl_spec c)))))"
    by (auto simp: plugins_Update_Ok)
  note facts = set_owner_facts [OF L m]
  show "om_name (cm_meta y) = om_name (cm_meta x) \<and> om_namespace (cm_meta y) = om_namespace (cm_meta x)
      \<and> om_uid (cm_meta y) = om_uid (cm_meta x)"
    "\<exists>r. controller_of (cm_meta y) = Some r \<and> or_uid r = om_uid (cl_meta c) \<and> or_name r = cluster_name c"
    using facts y by simp_all
  show "plugins_Update L c y = Ok y"
    using set_owner_again [OF L m refl refl] y by (auto simp: plugins_Update_Ok)
qed

section \<open>Properties\<close>

text \<open>
  C14. The plugins that the operator enables: the three required ones come first, whatever the
  user lists; every additional plugin is enabled; none is listed twice; and the additional
  ones keep the order of their first occurrence.
\<close>

theorem desired_plugins_correct:
  "DesiredPlugins (NewRabbitmqPlugins ps) = first_occurrences (requiredPlugins @ ps)
   \<and> prefix requiredPlugins (DesiredPlugins (NewRabbitmqPlugins ps))
   \<and> distinct (DesiredPlugins (NewRabbitmqPlugins ps))
   \<and> set (DesiredPlugins (NewRabbitmqPlugins ps)) = set requiredPlugins \<union> set ps"
  using first_occurrences_prefix [OF requiredPlugins_distinct, of ps]
  by (simp add: DesiredPlugins_eq NewRabbitmqPlugins_def)

text \<open>
  C15. The file \<open>enabled_plugins\<close> in the config map determines the plugin list: stripping the
  brackets and the dot and splitting at the commas gives back what the operator wants, if no
  plugin name contains a comma (the validation pattern of the custom resource allows word
  characters only).
\<close>

theorem enabled_plugins_roundtrip:
  assumes "\<forall>p \<in> set ps. CHR '','' \<notin> set p" and "plugins_Update L c cm = Ok cm'"
    and "ps = rc_additionalPlugins (sp_rabbitmq (cl_spec c))"
  shows "\<exists>body. entries (cm_data cm') ''enabled_plugins'' = Some (''['' @ body @ ''].'')
    \<and> split_on (CHR '','') body = DesiredPlugins (NewRabbitmqPlugins ps)
    \<and> (\<forall>k. k \<noteq> ''enabled_plugins'' \<longrightarrow> entries (cm_data cm') k = entries (cm_data cm) k)"
proof -
  let ?ds = "DesiredPlugins (NewRabbitmqPlugins ps)"
  have "set ?ds \<noteq> {}" by (simp add: set_DesiredPlugins requiredPlugins_def)
  then have "?ds \<noteq> []" by simp
  moreover have "\<forall>p \<in> set requiredPlugins. CHR '','' \<notin> set p" by (simp add: requiredPlugins_def)
  with assms(1) have "\<forall>p \<in> set ?ds. CHR '','' \<notin> set p" unfolding set_DesiredPlugins by blast
  ultimately have body: "split_on (CHR '','') (AsString (NewRabbitmqPlugins ps) '','') = ?ds"
    by (simp add: AsString_def split_on_join)
  from assms(2) obtain m where cm': "cm' = \<lparr>cm_meta = m, cm_data = Some ((entries (cm_data cm))
      (''enabled_plugins'' \<mapsto> desiredPluginsAsString ps))\<rparr>"
    unfolding plugins_Update_Ok assms(3) by blast
  show ?thesis
  proof (intro exI conjI)
    show "entries (cm_data cm') ''enabled_plugins'' =
        Some (''['' @ AsString (NewRabbitmqPlugins ps) '','' @ ''].'')"
      by (simp add: cm' desiredPluginsAsString_def)
    show "\<forall>k. k \<noteq> ''enabled_plugins'' \<longrightarrow> entries (cm_data cm') k = entries (cm_data cm) k"
      by (simp add: cm')
  qed (rule body)
qed


theorem enabled_plugins_roundtrip_witness:
  "\<exists>cm' body. plugins_Update sample_lib ((new_cluster ''r'' ''ns'' ''u1'')\<lparr>cl_spec := default_spec
        \<lparr>sp_rabbitmq := (sp_rabbitmq default_spec)\<lparr>rc_additionalPlugins := [''rabbitmq_mqtt'']\<rparr>\<rparr>\<rparr>)
      \<lparr>cm_meta = new_meta ''r-plugins-conf'' ''ns'', cm_data = None\<rparr> = Ok cm'
    \<and> entries (cm_data cm') ''enabled_plugins'' = Some (''['' @ body @ ''].'')
    \<and> split_on (CHR '','') body = requiredPlugins @ [''rabbitmq_mqtt'']"
proof -
  let ?c = "(new_cluster ''r'' ''ns'' ''u1'')\<lparr>cl_spec := default_spec
        \<lparr>sp_rabbitmq := (sp_rabbitmq default_spec)\<lparr>rc_additionalPlugins := [''rabbitmq_mqtt'']\<rparr>\<rparr>\<rparr>"
  let ?cm = "\<lparr>cm_meta = new_meta ''r-plugins-conf'' ''ns'', cm_data = None\<rparr>"
  have "\<exists>m. set_owner sample_lib ?c (cm_meta ?cm) = Ok m"
    by (simp add: set_owner_def sample_lib_def sample_set_controller_def controller_of_def)
  then obtain cm' where upd: "plugins_Update sample_lib ?c ?cm = Ok cm'"
    unfolding plugins_Update_Ok by blast
  have names: "\<forall>p \<in> set [''rabbitmq_mqtt'']. CHR '','' \<notin> set p"
    "[''rabbitmq_mqtt''] = rc_additionalPlugins (sp_rabbitmq (cl_spec ?c))" by simp_all
  have "DesiredPlugins (NewRabbitmqPlugins [''rabbitmq_mqtt'']) = requiredPlugins @ [''rabbitmq_mqtt'']"
    by (simp add: DesiredPlugins_def NewRabbitmqPlugins_def requiredPlugins_def)
  with enabled_plugins_roundtrip [OF names(1) upd names(2)] upd show ?thesis by auto
qed

end
