(* ===== verification/Op_Access.thy ===== *)
theory Op_Access
  imports Builder_Interface
begin

text \<open>
  \<open>internal/resource/service_account.go\<close>, \<open>role.go\<close> and \<open>role_binding.go\<close>: the identity
  under which the RabbitMQ pods talk to the Kubernetes API and what it may do.
\<close>

definition serviceAccountName :: string where "serviceAccountName = ''server''"
definition roleName :: string where "roleName = ''peer-discovery''"
definition roleBindingName :: string where "roleBindingName = ''server''"

section \<open>Service account\<close>

definition service_account_Build :: "lib \<Rightarrow> rand_source \<Rightarrow> RabbitmqCluster \<Rightarrow> ServiceAccount outcome" where
  "service_account_Build L rnd c =
     Ok \<lparr>sa_meta = new_meta (ChildResourceName c serviceAccountName) (cluster_namespace c)\<rparr>"

definition service_account_Update :: "lib \<Rightarrow> RabbitmqCluster \<Rightarrow> ServiceAccount \<Rightarrow> ServiceAccount outcome" where
  "service_account_Update L c sa =
     bind_ok (set_owner L c (set_labels_annotations c (sa_meta sa))) (\<lambda>m. Ok (sa\<lparr>sa_meta := m\<rparr>))"

section \<open>Role\<close>

definition role_Build :: "lib \<Rightarrow> rand_source \<Rightarrow> RabbitmqCluster \<Rightarrow> Role outcome" where
  "role_Build L rnd c =
     Ok \<lparr>role_meta = new_meta (ChildResourceName c roleName) (cluster_namespace c), role_rules = []\<rparr>"

definition role_Update :: "lib \<Rightarrow> RabbitmqCluster \<Rightarrow> Role \<Rightarrow> Role outcome" where
  "role_Update L c r =
     (let r' = r\<lparr>role_rules :=
            [\<lparr>pr_apiGroups = [''''], pr_resources = [''endpoints''], pr_verbs = [''get'']\<rparr>,
             \<lparr>pr_apiGroups = [''''], pr_resources = [''events''], pr_verbs = [''create'']\<rparr>]\<rparr>
      in bind_ok (set_owner L c (set_labels_annotations c (role_meta r'))) (\<lambda>m. Ok (r'\<lparr>role_meta := m\<rparr>)))"

section \<open>Role binding\<close>

definition role_binding_Build :: "lib \<Rightarrow> rand_source \<Rightarrow> RabbitmqCluster \<Rightarrow> RoleBinding outcome" where
  "role_binding_Build L rnd c =
     Ok \<lparr>rb_meta = new_meta (ChildResourceName c roleBindingName) (cluster_namespace c),
         rb_roleRef = \<lparr>rref_apiGroup = [], rref_kind = [], rref_name = []\<rparr>, rb_subjects = []\<rparr>"

definition role_binding_Update :: "lib \<Rightarrow> RabbitmqCluster \<Rightarrow> RoleBinding \<Rightarrow> RoleBinding outcome" where
  "role_binding_Update L c rb =
     (let rb' = rb\<lparr>rb_roleRef := \<lparr>rref_apiGroup = ''rbac.authorization.k8s.io'', rref_kind = ''Role'',
                     rref_name = ChildResourceName c roleName\<rparr>,
                   rb_subjects := [\<lparr>subj_kind = ''ServiceAccount'',
                     subj_name = ChildResourceName c serviceAccountName\<rparr>]\<rparr>
      in bind_ok (set_owner L c (set_labels_annotations c (rb_meta rb'))) (\<lambda>m. Ok (rb'\<lparr>rb_meta := m\<rparr>)))"

section \<open>The builders\<close>

interpretation service_account: metadata_builder serviceAccountName sa_meta
  "\<lambda>m sa. sa\<lparr>sa_meta := m\<rparr>" "\<lambda>c sa. Ok sa" service_account_Build service_account_Update
  by unfold_locales (auto simp: service_account_Build_def service_account_Update_def bind_ok_eq_Ok)

interpretation role: metadata_builder roleName role_meta "\<lambda>m r. r\<lparr>role_meta := m\<rparr>"
  "\<lambda>c r. Ok (r\<lparr>role_rules :=
      [\<lparr>pr_apiGroups = [''''], pr_resources = [''endpoints''], pr_verbs = [''get'']\<rparr>,
       \<lparr>pr_apiGroups = [''''], pr_resources = [''events''], pr_verbs = [''create'']\<rparr>]\<rparr>)"
  role_Build role_Update
  by unfold_locales (auto simp: role_Build_def role_Update_def bind_ok_eq_Ok)

interpretation role_binding: metadata_builder roleBindingName rb_meta "\<lambda>m r. r\<lparr>rb_meta := m\<rparr>"
  "\<lambda>c rb. Ok (rb\<lparr>rb_roleRef := \<lparr>rref_apiGroup = ''rbac.authorization.k8s.io'', rref_kind = ''Role'',
                     rref_name = ChildResourceName c roleName\<rparr>,
                   rb_subjects := [\<lparr>subj_kind = ''ServiceAccount'',
                     subj_name = ChildResourceName c serviceAccountName\<rparr>]\<rparr>)"
  role_binding_Build role_binding_Update
  by unfold_locales (auto simp: role_binding_Build_def role_binding_Update_def bind_ok_eq_Ok)

section \<open>Properties\<close>



end
