(* ===== verification/Op_PodTemplate.thy ===== *)
theory Op_PodTemplate
  imports Op_Config Op_Plugins Op_Access
begin

text \<open>
  The pod template of \<open>internal/resource/statefulset.go\<close>: volumes, mounts, environment,
  container ports, the setup container, the updater of the default user's credentials, and
  the annotations for the Vault agent.
\<close>

section \<open>Constants\<close>

definition stsSuffix :: string where "stsSuffix = ''server''"
definition initContainerCPU :: quantity where "initContainerCPU = milli 100"
definition initContainerMemory :: quantity where "initContainerMemory = mebi 500"
definition defaultPVCName :: string where "defaultPVCName = ''persistence''"
definition DeletionMarker :: string where "DeletionMarker = ''skipPreStopChecks''"

section \<open>Container ports\<close>

definition container_port :: "string \<Rightarrow> int \<Rightarrow> ContainerPort" where
  "container_port n p = \<lparr>cp_name = n, cp_containerPort = p\<rparr>"

definition updateContainerPortsOnlyTLSListeners :: "RabbitmqCluster \<Rightarrow> ContainerPort list" where
  "updateContainerPortsOnlyTLSListeners c =
     [container_port ''epmd'' 4369, container_port ''amqps'' 5671,
      container_port ''management-tls'' 15671, container_port ''prometheus-tls'' 15691]
     @ (if AdditionalPluginEnabled c ''rabbitmq_mqtt'' then [container_port ''mqtts'' 8883] else [])
     @ (if AdditionalPluginEnabled c ''rabbitmq_stomp'' then [container_port ''stomps'' 61614] else [])
     @ (if StreamNeeded c then [container_port ''streams'' 5551] else [])
     @ (if MutualTLSEnabled c
        then (if AdditionalPluginEnabled c ''rabbitmq_web_mqtt'' then [container_port ''web-mqtt-tls'' 15676] else [])
           @ (if AdditionalPluginEnabled c ''rabbitmq_web_stomp'' then [container_port ''web-stomp-tls'' 15673] else [])
        else [])"

definition updateContainerPorts :: "RabbitmqCluster \<Rightarrow> ContainerPort list" where
  "updateContainerPorts c =
     (if DisableNonTLSListeners c then updateContainerPortsOnlyTLSListeners c
      else [container_port ''epmd'' 4369, container_port ''amqp'' 5672,
            container_port ''management'' 15672, container_port ''prometheus'' 15692]
     @ (if AdditionalPluginEnabled c ''rabbitmq_mqtt'' then [container_port ''mqtt'' 1883] else [])
     @ (if AdditionalPluginEnabled c ''rabbitmq_web_mqtt'' then [container_port ''web-mqtt'' 15675] else [])
     @ (if AdditionalPluginEnabled c ''rabbitmq_stomp'' then [container_port ''stomp'' 61613] else [])
     @ (if AdditionalPluginEnabled c ''rabbitmq_web_stomp'' then [container_port ''web-stomp'' 15674] else [])
     @ (if StreamNeeded c then [container_port ''stream'' 5552] else [])
     @ (if TLSEnabled c
        then [container_port ''amqps'' 5671, container_port ''management-tls'' 15671,
              container_port ''prometheus-tls'' 15691]
           @ (if AdditionalPluginEnabled c ''rabbitmq_mqtt'' then [container_port ''mqtts'' 8883] else [])
           @ (if AdditionalPluginEnabled c ''rabbitmq_stomp'' then [container_port ''stomps'' 61614] else [])
           @ (if StreamNeeded c then [container_port ''streams'' 5551] else [])
           @ (if MutualTLSEnabled c
              then (if AdditionalPluginEnabled c ''rabbitmq_web_mqtt'' then [container_port ''web-mqtt-tls'' 15676] else [])
                 @ (if AdditionalPluginEnabled c ''rabbitmq_web_stomp'' then [container_port ''web-stomp-tls'' 15673] else [])
              else [])
        else []))"

section \<open>The containers\<close>

definition mount :: "string \<Rightarrow> string \<Rightarrow> VolumeMount" where
  "mount n path = \<lparr>vm_name = n, vm_mountPath = path, vm_subPath = [], vm_readOnly = False\<rparr>"

definition mount_sub :: "string \<Rightarrow> string \<Rightarrow> string \<Rightarrow> VolumeMount" where
  "mount_sub n path sub = \<lparr>vm_name = n, vm_mountPath = path, vm_subPath = sub, vm_readOnly = False\<rparr>"

definition tls_mount :: VolumeMount where
  "tls_mount = \<lparr>vm_name = ''rabbitmq-tls'', vm_mountPath = ''/etc/rabbitmq-tls/'', vm_subPath = [],
     vm_readOnly = True\<rparr>"

definition env_value :: "string \<Rightarrow> string \<Rightarrow> EnvVar" where
  "env_value n v = \<lparr>ev_name = n, ev_value = v, ev_fieldRef = None\<rparr>"

definition env_field :: "string \<Rightarrow> string \<Rightarrow> EnvVar" where
  "env_field n path = \<lparr>ev_name = n, ev_value = [], ev_fieldRef = Some (path, ''v1'')\<rparr>"

definition envVarsK8sObjects :: "RabbitmqCluster \<Rightarrow> EnvVar list" where
  "envVarsK8sObjects c =
     [env_field ''MY_POD_NAME'' ''metadata.name'', env_field ''MY_POD_NAMESPACE'' ''metadata.namespace'',
      env_value ''K8S_SERVICE_NAME'' (ChildResourceName c headlessServiceSuffix)]"

text \<open>The third word of the command, with the path that \<open>Sprintf\<close> puts in.\<close>

definition setup_script :: "string \<Rightarrow> string" where
  "setup_script path =
     ''cp /tmp/erlang-cookie-secret/.erlang.cookie /var/lib/rabbitmq/.erlang.cookie ''
     @ ''&& chmod 600 /var/lib/rabbitmq/.erlang.cookie ; ''
     @ ''cp /tmp/rabbitmq-plugins/enabled_plugins /operator/enabled_plugins ; ''
     @ ''echo '' @ [char_of (39 :: nat)] @ ''[default]'' @ [char_of (39 :: nat)] @ '' > /var/lib/rabbitmq/.rabbitmqadmin.conf ''
     @ ''&& sed -e '' @ [char_of (39 :: nat)] @ ''s/default_user/username/'' @ [char_of (39 :: nat)]
     @ '' -e '' @ [char_of (39 :: nat)] @ ''s/default_pass/password/'' @ [char_of (39 :: nat)] @ '' '' @ path
     @ '' >> /var/lib/rabbitmq/.rabbitmqadmin.conf ''
     @ ''&& chmod 600 /var/lib/rabbitmq/.rabbitmqadmin.conf''"

definition setupContainer :: "RabbitmqCluster \<Rightarrow> Container" where
  "setupContainer c = zero_container\<lparr>c_name := ''setup-container'', c_image := sp_image (cl_spec c),
     c_command := [''sh'', ''-c'',
       setup_script (if VaultDefaultUserSecretEnabled c then ''/etc/rabbitmq/conf.d/11-default_user.conf''
                     else ''/tmp/default_user.conf'')],
     c_resources := \<lparr>rr_limits = Some [''cpu'' \<mapsto> initContainerCPU, ''memory'' \<mapsto> initContainerMemory],
                     rr_requests = Some [''cpu'' \<mapsto> initContainerCPU, ''memory'' \<mapsto> initContainerMemory]\<rparr>,
     c_volumeMounts := Some
       ([mount ''plugins-conf'' ''/tmp/rabbitmq-plugins/'',
         mount ''rabbitmq-erlang-cookie'' ''/var/lib/rabbitmq/'',
         mount ''erlang-cookie-secret'' ''/tmp/erlang-cookie-secret/'',
         mount ''rabbitmq-plugins'' ''/operator'',
         mount ''persistence'' ''/var/lib/rabbitmq/mnesia/'']
        @ (if VaultDefaultUserSecretEnabled c then []
           else [mount_sub ''rabbitmq-confd'' ''/tmp/default_user.conf'' ''default_user.conf'']))\<rparr>"

text \<open>Called only when the Vault settings name an image for the updater.\<close>

definition defaultUserCredentialUpdater :: "RabbitmqCluster \<Rightarrow> string \<Rightarrow> Container" where
  "defaultUserCredentialUpdater c img = zero_container\<lparr>c_name := ''default-user-credential-updater'',
     c_resources := \<lparr>rr_limits = Some [''cpu'' \<mapsto> milli 500, ''memory'' \<mapsto> mebi 128],
                     rr_requests = Some [''cpu'' \<mapsto> milli 10, ''memory'' \<mapsto> kibi 512]\<rparr>,
     c_image := img,
     c_args := [''--management-uri'',
       (if TLSEnabled c then ''https://$(HOSTNAME_DOMAIN):15671'' else ''http://127.0.0.1:15672''),
       ''-v'', ''4''],
     c_volumeMounts := Some (mount ''rabbitmq-erlang-cookie'' ''/var/lib/rabbitmq/''
       # (if SecretTLSEnabled c then [tls_mount] else [])),
     c_env := Some (envVarsK8sObjects c
       @ [env_value ''HOSTNAME_DOMAIN'' ''$(MY_POD_NAME).$(K8S_SERVICE_NAME).$(MY_POD_NAMESPACE)''])\<rparr>"

section \<open>Volumes\<close>

text \<open>\<open>appendDefaultUserSecretVolumeProjection\<close> adds to the projected volume in place.\<close>

definition appendDefaultUserSecretVolumeProjection :: "Volume list \<Rightarrow> RabbitmqCluster \<Rightarrow> Volume list" where
  "appendDefaultUserSecretVolumeProjection volumes c =
     map (\<lambda>v. if v_name v = ''rabbitmq-confd''
              then (case v_source v of
                      ProjectedSource sources mode \<Rightarrow>
                        v\<lparr>v_source := ProjectedSource
                          (sources @ [SecretProjection (ChildResourceName c DefaultUserSecretName)
                             [(''default_user.conf'', ''default_user.conf'')] None]) mode\<rparr>
                    | _ \<Rightarrow> v)
              else v) volumes"

definition volume :: "string \<Rightarrow> VolumeSource \<Rightarrow> Volume" where
  "volume n src = \<lparr>v_name = n, v_source = src\<rparr>"

definition base_volumes :: "RabbitmqCluster \<Rightarrow> Volume list" where
  "base_volumes c =
     [volume ''plugins-conf'' (ConfigMapSource (ChildResourceName c PluginsConfigName)),
      volume ''rabbitmq-confd'' (ProjectedSource
        [ConfigMapProjection (ChildResourceName c ServerConfigMapName)
          [(''operatorDefaults.conf'', ''operatorDefaults.conf''),
           (''userDefinedConfiguration.conf'', ''userDefinedConfiguration.conf'')]] None),
      volume ''rabbitmq-erlang-cookie'' EmptyDirSource,
      volume ''erlang-cookie-secret'' (SecretSource (ChildResourceName c erlangCookieName)),
      volume ''rabbitmq-plugins'' EmptyDirSource,
      volume ''pod-info'' (DownwardAPISource
        [(DeletionMarker, ''metadata.labels['' @ [char_of (39 :: nat)] @ DeletionMarker @ [char_of (39 :: nat)] @ '']'')])]"

text \<open>The projected TLS volume; the mode is the decimal number of the source.\<close>

definition tlsProjectedVolume :: "RabbitmqCluster \<Rightarrow> Volume" where
  "tlsProjectedVolume c =
     volume ''rabbitmq-tls'' (ProjectedSource
       (SecretProjection (tls_secretName (sp_tls (cl_spec c))) [] (Some True)
        # (if MutualTLSEnabled c \<and> \<not> SingleTLSSecret c
           then [SecretProjection (tls_caSecretName (sp_tls (cl_spec c))) [] (Some True)] else []))
       (Some 400))"

definition pod_volumes :: "RabbitmqCluster \<Rightarrow> quantity \<Rightarrow> Volume list" where
  "pod_volumes c storage =
     (if VaultDefaultUserSecretEnabled c then base_volumes c
      else appendDefaultUserSecretVolumeProjection (base_volumes c) c)
     @ (if rc_advancedConfig (sp_rabbitmq (cl_spec c)) \<noteq> [] \<or> rc_envConfig (sp_rabbitmq (cl_spec c)) \<noteq> []
        then [volume ''server-conf'' (ConfigMapSource (ChildResourceName c ServerConfigMapName))] else [])
     @ (if storage = 0 then [volume ''persistence'' EmptyDirSource] else [])
     @ (if SecretTLSEnabled c then [tlsProjectedVolume c] else [])"

definition rabbitmqContainerVolumeMounts :: "RabbitmqCluster \<Rightarrow> VolumeMount list" where
  "rabbitmqContainerVolumeMounts c =
     [mount ''rabbitmq-erlang-cookie'' ''/var/lib/rabbitmq/'',
      mount ''persistence'' ''/var/lib/rabbitmq/mnesia/'',
      mount ''rabbitmq-plugins'' ''/operator'',
      mount_sub ''rabbitmq-confd'' ''/etc/rabbitmq/conf.d/10-operatorDefaults.conf'' ''operatorDefaults.conf'',
      mount_sub ''rabbitmq-confd'' ''/etc/rabbitmq/conf.d/90-userDefinedConfiguration.conf''
        ''userDefinedConfiguration.conf'',
      mount ''pod-info'' ''/etc/pod-info/'']
     @ (if VaultDefaultUserSecretEnabled c then []
        else [mount_sub ''rabbitmq-confd'' ''/etc/rabbitmq/conf.d/11-default_user.conf'' ''default_user.conf''])
     @ (if rc_envConfig (sp_rabbitmq (cl_spec c)) \<noteq> []
        then [mount_sub ''server-conf'' ''/etc/rabbitmq/rabbitmq-env.conf'' ''rabbitmq-env.conf''] else [])
     @ (if rc_advancedConfig (sp_rabbitmq (cl_spec c)) \<noteq> []
        then [mount_sub ''server-conf'' ''/etc/rabbitmq/advanced.config'' ''advanced.config''] else [])
     @ (if SecretTLSEnabled c then [tls_mount] else [])"

section \<open>Annotations for the Vault agent\<close>

definition podHostNames :: "RabbitmqCluster \<Rightarrow> string" where
  "podHostNames c =
     (let n = (case sp_replicas (cl_spec c) of None \<Rightarrow> 1 | Some r \<Rightarrow> r);
          altNames = concat (map (\<lambda>i. '','' @ ChildResourceName c stsSuffix @ ''-'' @ itoa (int i) @ ''.''
            @ ChildResourceName c headlessServiceSuffix @ ''.'' @ cluster_namespace c) [0..<nat n])
      in trim_prefix altNames '','')"

definition quote :: string where "quote = [char_of (34 :: nat)]"

definition generateVaultTLSTemplate :: "string \<Rightarrow> string \<Rightarrow> VaultSpec \<Rightarrow> string \<Rightarrow> string" where
  "generateVaultTLSTemplate commonName altNames v tlsAttribute =
     [newline] @ ''{{- with secret '' @ quote @ vt_pkiIssuerPath (vs_tls v) @ quote
     @ '' '' @ quote @ ''common_name='' @ commonName @ quote
     @ '' '' @ quote @ ''alt_names='' @ altNames @ quote
     @ '' '' @ quote @ ''ip_sans='' @ vt_ipSans (vs_tls v) @ quote @ '' -}}''
     @ [newline] @ ''{{ .Data.'' @ tlsAttribute @ '' }}'' @ [newline] @ ''{{- end }}''"

definition default_user_template :: "string \<Rightarrow> string" where
  "default_user_template path =
     [newline] @ ''{{- with secret '' @ quote @ path @ quote @ '' -}}''
     @ [newline] @ ''default_user = {{ .Data.data.username }}''
     @ [newline] @ ''default_pass = {{ .Data.data.password }}'' @ [newline] @ ''{{- end }}''"

text \<open>The three annotations for one file of the TLS material.\<close>

definition vault_file_annotations ::
  "string \<Rightarrow> string \<Rightarrow> string \<Rightarrow> string \<Rightarrow> (string \<rightharpoonup> string) \<Rightarrow> (string \<rightharpoonup> string)" where
  "vault_file_annotations file dir path template m = m(
     ''vault.hashicorp.com/secret-volume-path-'' @ file \<mapsto> dir,
     ''vault.hashicorp.com/agent-inject-secret-'' @ file \<mapsto> path,
     ''vault.hashicorp.com/agent-inject-template-'' @ file \<mapsto> template)"

definition vault_base_annotations :: "VaultSpec \<Rightarrow> string \<rightharpoonup> string" where
  "vault_base_annotations v = [''vault.hashicorp.com/agent-inject'' \<mapsto> ''true'',
     ''vault.hashicorp.com/agent-init-first'' \<mapsto> ''true'', ''vault.hashicorp.com/role'' \<mapsto> vs_role v]"

definition vault_user_annotations :: "VaultSpec \<Rightarrow> (string \<rightharpoonup> string) \<Rightarrow> (string \<rightharpoonup> string)" where
  "vault_user_annotations v m =
     (if DefaultUserSecretEnabled v
      then m(''vault.hashicorp.com/secret-volume-path-11-default_user.conf'' \<mapsto> ''/etc/rabbitmq/conf.d'',
             ''vault.hashicorp.com/agent-inject-perms-11-default_user.conf'' \<mapsto> ''0640'',
             ''vault.hashicorp.com/agent-inject-secret-11-default_user.conf'' \<mapsto> vs_defaultUserPath v,
             ''vault.hashicorp.com/agent-inject-template-11-default_user.conf'' \<mapsto>
               default_user_template (vs_defaultUserPath v))
      else m)"

definition vault_tls_annotations ::
  "RabbitmqCluster \<Rightarrow> VaultSpec \<Rightarrow> (string \<rightharpoonup> string) \<Rightarrow> (string \<rightharpoonup> string)" where
  "vault_tls_annotations c v m =
     (if VaultSpec_TLSEnabled v
      then (let pathCert = vt_pkiIssuerPath (vs_tls v);
                commonName = (if vt_commonName (vs_tls v) \<noteq> [] then vt_commonName (vs_tls v)
                              else ServiceSubDomain c);
                altNames = (if vt_altNames (vs_tls v) \<noteq> []
                            then podHostNames c @ '','' @ vt_altNames (vs_tls v) else podHostNames c);
                certDir = trim_suffix tlsCertDir ''/''
            in vault_file_annotations caCertFilename certDir pathCert
                 (generateVaultTLSTemplate commonName altNames v ''issuing_ca'')
               (vault_file_annotations tlsKeyFilename certDir pathCert
                 (generateVaultTLSTemplate commonName altNames v ''private_key'')
               (vault_file_annotations tlsCertFilename certDir pathCert
                 (generateVaultTLSTemplate commonName altNames v ''certificate'') m)))
      else m)"

definition appendVaultAnnotations :: "gomap \<Rightarrow> RabbitmqCluster \<Rightarrow> VaultSpec \<Rightarrow> gomap" where
  "appendVaultAnnotations current c v =
     ReconcileAnnotations current
       [Some (vault_tls_annotations c v (vault_user_annotations v (vault_base_annotations v))), vs_annotations v]"

definition defaultPodAnnotations :: "RabbitmqCluster \<Rightarrow> gomap" where
  "defaultPodAnnotations c =
     (case sb_vault (sp_secretBackend (cl_spec c)) of
        None \<Rightarrow> Some Map.empty
      | Some v \<Rightarrow> appendVaultAnnotations (Some Map.empty) c v)"

section \<open>The template\<close>

definition preStop_command :: "int \<Rightarrow> string list" where
  "preStop_command grace = [''/bin/bash'', ''-c'',
     ''if [ ! -z '' @ quote @ ''$(cat /etc/pod-info/'' @ DeletionMarker @ '')'' @ quote @ '' ]; then exit 0; fi;''
     @ '' rabbitmq-upgrade await_online_quorum_plus_one -t '' @ itoa grace @ '';''
     @ '' rabbitmq-upgrade await_online_synchronized_mirror -t '' @ itoa grace @ '';''
     @ '' rabbitmq-upgrade drain -t '' @ itoa grace]"

definition rabbitmq_container :: "RabbitmqCluster \<Rightarrow> ResourceRequirements \<Rightarrow> int \<Rightarrow> Container" where
  "rabbitmq_container c res grace = \<lparr>c_name = ''rabbitmq'', c_image = sp_image (cl_spec c),
     c_command = [], c_args = [],
     c_env = Some (envVarsK8sObjects c
       @ [env_value ''RABBITMQ_ENABLED_PLUGINS_FILE'' ''/operator/enabled_plugins'',
          env_value ''RABBITMQ_USE_LONGNAME'' ''true'',
          env_value ''RABBITMQ_NODENAME'' ''rabbit@$(MY_POD_NAME).$(K8S_SERVICE_NAME).$(MY_POD_NAMESPACE)'',
          env_value ''K8S_HOSTNAME_SUFFIX'' ''.$(K8S_SERVICE_NAME).$(MY_POD_NAMESPACE)'']),
     c_ports = updateContainerPorts c, c_resources = res,
     c_volumeMounts = Some (rabbitmqContainerVolumeMounts c),
     c_readinessProbe = Some \<lparr>pb_port = NamedPort (if DisableNonTLSListeners c then ''amqps'' else ''amqp''),
       pb_initialDelaySeconds = 10, pb_timeoutSeconds = 5, pb_periodSeconds = 10,
       pb_successThreshold = 1, pb_failureThreshold = 3\<rparr>,
     c_preStop = Some (preStop_command grace), c_securityContext = None\<rparr>"

text \<open>The condition on the last lines: an image for the updater, and not the empty one.\<close>

definition updater_containers :: "RabbitmqCluster \<Rightarrow> Container list" where
  "updater_containers c =
     (case sb_vault (sp_secretBackend (cl_spec c)) of
        None \<Rightarrow> []
      | Some v \<Rightarrow>
          (if DefaultUserSecretEnabled v
           then (case vs_defaultUserUpdaterImage v of
                   None \<Rightarrow> []
                 | Some img \<Rightarrow> if img \<noteq> [] then [defaultUserCredentialUpdater c img] else [])
           else []))"

definition pod_template ::
  "RabbitmqCluster \<Rightarrow> gomap \<Rightarrow> quantity \<Rightarrow> ResourceRequirements \<Rightarrow> int \<Rightarrow> PodTemplateSpec" where
  "pod_template c prev storage res grace =
     \<lparr>pt_meta = (new_meta [] [])\<lparr>om_labels := Label (cluster_name c),
        om_annotations := ReconcileAnnotations prev [defaultPodAnnotations c]\<rparr>,
      pt_spec = \<lparr>ps_topologySpreadConstraints =
          [\<lparr>tsc_maxSkew = 1, tsc_topologyKey = ''topology.kubernetes.io/zone'',
            tsc_whenUnsatisfiable = ''ScheduleAnyway'',
            tsc_labelSelector = \<lparr>ls_matchLabels = LabelSelector_of (cluster_name c), ls_matchExpressions = []\<rparr>\<rparr>],
        ps_securityContext = Some \<lparr>psc_fsGroup = Some 0, psc_runAsUser = Some 999, psc_payload = []\<rparr>,
        ps_imagePullSecrets = sp_imagePullSecrets (cl_spec c),
        ps_terminationGracePeriodSeconds = sp_terminationGracePeriodSeconds (cl_spec c),
        ps_serviceAccountName = ChildResourceName c serviceAccountName,
        ps_automountServiceAccountToken = Some True, ps_affinity = sp_affinity (cl_spec c),
        ps_tolerations = sp_tolerations (cl_spec c), ps_initContainers = [setupContainer c],
        ps_volumes = pod_volumes c storage,
        ps_containers = rabbitmq_container c res grace # updater_containers c\<rparr>\<rparr>"

text \<open>The three pointers of the specification that are read without a test for nil.\<close>

definition nil_deref :: "'a outcome" where "nil_deref = Panic ''nil pointer dereference''"

definition deref :: "'a option \<Rightarrow> 'a outcome" where
  "deref p = (case p of None \<Rightarrow> nil_deref | Some x \<Rightarrow> Ok x)"

definition podTemplateSpec :: "RabbitmqCluster \<Rightarrow> gomap \<Rightarrow> PodTemplateSpec outcome" where
  "podTemplateSpec c previousPodAnnotations =
     bind_ok (deref (pe_storage (sp_persistence (cl_spec c)))) (\<lambda>storage.
     bind_ok (deref (sp_resources (cl_spec c))) (\<lambda>res.
     bind_ok (deref (sp_terminationGracePeriodSeconds (cl_spec c))) (\<lambda>grace.
     Ok (pod_template c previousPodAnnotations storage res grace))))"

section \<open>Lemmas\<close>

lemma deref_simps [simp]: "deref (Some x) = Ok x" "deref None = nil_deref"
  by (simp_all add: deref_def)

lemma deref_eq_Ok [simp]: "deref p = Ok x \<longleftrightarrow> p = Some x"
  by (simp add: deref_def nil_deref_def split: option.split)

lemma nil_deref_not_Ok [simp]: "nil_deref \<noteq> Ok x" "bind_ok nil_deref f = nil_deref"
  by (simp_all add: nil_deref_def)

lemma nil_deref_poly [simp]: "bind_ok (nil_deref :: 'a outcome) f = (nil_deref :: 'b outcome)"
  by (simp add: nil_deref_def)

lemma container_port_simps [simp]:
  "cp_name (container_port n p) = n" "cp_containerPort (container_port n p) = p"
  by (simp_all add: container_port_def)

text \<open>Membership in the list of container ports, by settings.\<close>

lemma in_if_list: "(x \<in> set (if b then xs else [])) \<longleftrightarrow> b \<and> x \<in> set xs"
  by simp

lemma container_ports_iff:
  "x \<in> set (updateContainerPorts c) \<longleftrightarrow>
     x = container_port ''epmd'' 4369
     \<or> (\<not> DisableNonTLSListeners c \<and>
         (x = container_port ''amqp'' 5672 \<or> x = container_port ''management'' 15672
          \<or> x = container_port ''prometheus'' 15692
          \<or> AdditionalPluginEnabled c ''rabbitmq_mqtt'' \<and> x = container_port ''mqtt'' 1883
          \<or> AdditionalPluginEnabled c ''rabbitmq_web_mqtt'' \<and> x = container_port ''web-mqtt'' 15675
          \<or> AdditionalPluginEnabled c ''rabbitmq_stomp'' \<and> x = container_port ''stomp'' 61613
          \<or> AdditionalPluginEnabled c ''rabbitmq_web_stomp'' \<and> x = container_port ''web-stomp'' 15674
          \<or> StreamNeeded c \<and> x = container_port ''stream'' 5552))
     \<or> ((DisableNonTLSListeners c \<or> TLSEnabled c) \<and>
         (x = container_port ''amqps'' 5671 \<or> x = container_port ''management-tls'' 15671
          \<or> x = container_port ''prometheus-tls'' 15691
          \<or> AdditionalPluginEnabled c ''rabbitmq_mqtt'' \<and> x = container_port ''mqtts'' 8883
          \<or> AdditionalPluginEnabled c ''rabbitmq_stomp'' \<and> x = container_port ''stomps'' 61614
          \<or> StreamNeeded c \<and> x = container_port ''streams'' 5551
          \<or> MutualTLSEnabled c \<and> AdditionalPluginEnabled c ''rabbitmq_web_mqtt''
              \<and> x = container_port ''web-mqtt-tls'' 15676
          \<or> MutualTLSEnabled c \<and> AdditionalPluginEnabled c ''rabbitmq_web_stomp''
              \<and> x = container_port ''web-stomp-tls'' 15673))"
proof (cases "DisableNonTLSListeners c")
  case True
  then show ?thesis
    unfolding updateContainerPorts_def updateContainerPortsOnlyTLSListeners_def if_P [OF True]
      set_append Un_iff in_if_list list.set insert_iff empty_iff using True by satx
next
  case False
  then show ?thesis
    unfolding updateContainerPorts_def if_not_P [OF False] set_append Un_iff in_if_list list.set
      insert_iff empty_iff using False by satx
qed

text \<open>The volumes, by name.\<close>

lemma appendDefaultUserSecret_names [simp]:
  "map v_name (appendDefaultUserSecretVolumeProjection vs c) = map v_name vs"
  by (induction vs) (auto simp: appendDefaultUserSecretVolumeProjection_def split: VolumeSource.splits)

lemma volume_names:
  "map v_name (pod_volumes c storage) =
     [''plugins-conf'', ''rabbitmq-confd'', ''rabbitmq-erlang-cookie'', ''erlang-cookie-secret'',
      ''rabbitmq-plugins'', ''pod-info'']
     @ (if rc_advancedConfig (sp_rabbitmq (cl_spec c)) \<noteq> [] \<or> rc_envConfig (sp_rabbitmq (cl_spec c)) \<noteq> []
        then [''server-conf''] else [])
     @ (if storage = 0 then [''persistence''] else [])
     @ (if SecretTLSEnabled c then [''rabbitmq-tls''] else [])"
proof -
  have "map v_name (base_volumes c) = [''plugins-conf'', ''rabbitmq-confd'', ''rabbitmq-erlang-cookie'',
      ''erlang-cookie-secret'', ''rabbitmq-plugins'', ''pod-info'']"
    by (simp add: base_volumes_def volume_def)
  then have "map v_name (if VaultDefaultUserSecretEnabled c then base_volumes c
      else appendDefaultUserSecretVolumeProjection (base_volumes c) c) = [''plugins-conf'', ''rabbitmq-confd'',
      ''rabbitmq-erlang-cookie'', ''erlang-cookie-secret'', ''rabbitmq-plugins'', ''pod-info'']" by simp
  then show ?thesis
    unfolding pod_volumes_def map_append by (simp add: volume_def tlsProjectedVolume_def)
qed

text \<open>The names that mounts refer to.\<close>

definition mount_names :: "Container \<Rightarrow> string set" where
  "mount_names k = vm_name ` set (slice (c_volumeMounts k))"

lemma mount_simps [simp]:
  "vm_name (mount n p) = n" "vm_name (mount_sub n p s) = n" "vm_name tls_mount = ''rabbitmq-tls''"
  by (simp_all add: mount_def mount_sub_def tls_mount_def)

lemma setup_mounts:
  "mount_names (setupContainer c) \<subseteq> {''plugins-conf'', ''rabbitmq-erlang-cookie'', ''erlang-cookie-secret'',
     ''rabbitmq-plugins'', ''persistence'', ''rabbitmq-confd''}"
  by (simp add: mount_names_def setupContainer_def)

lemma rabbitmq_mounts:
  "mount_names (rabbitmq_container c res grace) \<subseteq>
     {''rabbitmq-erlang-cookie'', ''persistence'', ''rabbitmq-plugins'', ''rabbitmq-confd'', ''pod-info''}
     \<union> (if rc_advancedConfig (sp_rabbitmq (cl_spec c)) \<noteq> [] \<or> rc_envConfig (sp_rabbitmq (cl_spec c)) \<noteq> []
        then {''server-conf''} else {})
     \<union> (if SecretTLSEnabled c then {''rabbitmq-tls''} else {})"
  by (auto simp: mount_names_def rabbitmq_container_def rabbitmqContainerVolumeMounts_def)

lemma updater_containers_cases:
  "updater_containers c = [] \<or> (\<exists>img. img \<noteq> [] \<and> updater_containers c = [defaultUserCredentialUpdater c img])"
  by (auto simp: updater_containers_def split: option.split)

lemma updater_mounts:
  assumes "k \<in> set (updater_containers c)"
  shows "mount_names k \<subseteq> {''rabbitmq-erlang-cookie''} \<union> (if SecretTLSEnabled c then {''rabbitmq-tls''} else {})"
proof -
  from assms obtain img where "k = defaultUserCredentialUpdater c img"
    using updater_containers_cases [of c] by auto
  then show ?thesis by (simp add: mount_names_def defaultUserCredentialUpdater_def)
qed

end
