(* ===== verification/Op_StatefulSet.thy ===== *)
theory Op_StatefulSet
  imports Op_PodTemplate
begin

text \<open>
  The builder of the stateful set (\<open>internal/resource/statefulset.go\<close>): the claim for the
  data volume, \<open>Build\<close>, \<open>Update\<close>, the override with its patch of the pod, and the two loops
  that put certain variables and mounts first.
\<close>

section \<open>Swapping loops\<close>

text \<open>
  \<open>sortEnvVar\<close> and \<open>sortVolumeMounts\<close> have one shape: run through the positions and swap an
  element with a name of its own slot into that slot. The slice is read while it changes.
\<close>

fun swap_loop :: "(string \<Rightarrow> nat option) \<Rightarrow> ('a \<Rightarrow> string) \<Rightarrow> nat list \<Rightarrow> 'a list \<Rightarrow> 'a list outcome" where
  "swap_loop slot name [] xs = Ok xs"
| "swap_loop slot name (i # is) xs =
     (case slot (name (xs ! i)) of
        None \<Rightarrow> swap_loop slot name is xs
      | Some k \<Rightarrow> bind_ok (swap_at xs k i) (swap_loop slot name is))"

definition env_slot :: "string \<Rightarrow> nat option" where
  "env_slot n = (if n = ''MY_POD_NAME'' then Some 0 else if n = ''MY_POD_NAMESPACE'' then Some 1
     else if n = ''K8S_SERVICE_NAME'' then Some 2 else None)"

definition mount_slot :: "string \<Rightarrow> nat option" where
  "mount_slot n = (if n = ''rabbitmq-erlang-cookie'' then Some 0 else if n = defaultPVCName then Some 1 else None)"

definition sortEnvVar :: "EnvVar list \<Rightarrow> EnvVar list outcome" where
  "sortEnvVar env = swap_loop env_slot ev_name [0..<length env] env"

definition sortVolumeMounts :: "VolumeMount list \<Rightarrow> VolumeMount list outcome" where
  "sortVolumeMounts mounts = swap_loop mount_slot vm_name [0..<length mounts] mounts"

section \<open>The claim for the data volume\<close>

definition disableBlockOwnerDeletion :: "PersistentVolumeClaim \<Rightarrow> PersistentVolumeClaim" where
  "disableBlockOwnerDeletion pvc = pvc\<lparr>pvc_meta := (pvc_meta pvc)
     \<lparr>om_ownerReferences := map (\<lambda>r. r\<lparr>or_blockOwnerDeletion := Some False\<rparr>) (om_ownerReferences (pvc_meta pvc))\<rparr>\<rparr>"

definition persistentVolumeClaim :: "lib \<Rightarrow> RabbitmqCluster \<Rightarrow> PersistentVolumeClaim list outcome" where
  "persistentVolumeClaim L c =
     bind_ok (deref (pe_storage (sp_persistence (cl_spec c)))) (\<lambda>storage.
     if storage = 0 then Ok []
     else bind_ok (set_owner L c ((new_meta defaultPVCName (cluster_namespace c))
              \<lparr>om_labels := Label (cluster_name c),
               om_annotations := ReconcileAndFilterAnnotations (Some Map.empty) [om_annotations (cl_meta c)]\<rparr>))
            (\<lambda>m. Ok [disableBlockOwnerDeletion \<lparr>pvc_meta = m,
              pvc_spec = \<lparr>pvcs_resources = \<lparr>rr_limits = None, rr_requests = Some [''storage'' \<mapsto> storage]\<rparr>,
                pvcs_accessModes = [''ReadWriteOnce''],
                pvcs_storageClassName = pe_storageClassName (sp_persistence (cl_spec c))\<rparr>\<rparr>]))"

text \<open>The new capacity is written into the map of requests of each claim of the default name.\<close>

fun updatePersistenceStorageCapacity ::
  "PersistentVolumeClaim list \<Rightarrow> quantity option \<Rightarrow> PersistentVolumeClaim list outcome" where
  "updatePersistenceStorageCapacity [] capacity = Ok []"
| "updatePersistenceStorageCapacity (t # ts) capacity =
     bind_ok
       (if om_name (pvc_meta t) = defaultPVCName
        then bind_ok (deref capacity) (\<lambda>q.
             bind_ok (map_store (rr_requests (pvcs_resources (pvc_spec t))) ''storage'' q) (\<lambda>reqs.
             Ok (t\<lparr>pvc_spec := (pvc_spec t)\<lparr>pvcs_resources :=
                   (pvcs_resources (pvc_spec t))\<lparr>rr_requests := reqs\<rparr>\<rparr>\<rparr>)))
        else Ok t)
       (\<lambda>t'. bind_ok (updatePersistenceStorageCapacity ts capacity) (\<lambda>ts'. Ok (t' # ts')))"

section \<open>The override\<close>

definition copyObjectMeta :: "ObjectMeta \<Rightarrow> EmbeddedObjectMeta \<Rightarrow> ObjectMeta" where
  "copyObjectMeta base ov =
     (let b1 = (if eom_name ov \<noteq> [] then base\<lparr>om_name := eom_name ov\<rparr> else base);
          b2 = (if eom_labels ov \<noteq> None then b1\<lparr>om_labels := mergeMap (om_labels b1) (eom_labels ov)\<rparr> else b1)
      in if eom_annotations ov \<noteq> None
         then b2\<lparr>om_annotations := mergeMap (om_annotations b2) (eom_annotations ov)\<rparr> else b2)"

fun containerRabbitmq :: "Container list \<Rightarrow> Container" where
  "containerRabbitmq [] = zero_container"
| "containerRabbitmq (k # ks) = (if c_name k = ''rabbitmq'' then k else containerRabbitmq ks)"

definition index_panic :: "'a outcome" where "index_panic = Panic ''index out of range''"

definition on_first :: "(Container \<Rightarrow> Container outcome) \<Rightarrow> Container list \<Rightarrow> Container list outcome" where
  "on_first f ks = (case ks of [] \<Rightarrow> index_panic | k # ks' \<Rightarrow> bind_ok (f k) (\<lambda>k'. Ok (k' # ks')))"

definition sort_container_env :: "Container \<Rightarrow> Container outcome" where
  "sort_container_env k = (case c_env k of None \<Rightarrow> Ok k
     | Some env \<Rightarrow> bind_ok (sortEnvVar env) (\<lambda>e. Ok (k\<lparr>c_env := Some e\<rparr>)))"

definition sort_container_mounts :: "Container \<Rightarrow> Container outcome" where
  "sort_container_mounts k = (case c_volumeMounts k of None \<Rightarrow> Ok k
     | Some ms \<Rightarrow> bind_ok (sortVolumeMounts ms) (\<lambda>m. Ok (k\<lparr>c_volumeMounts := Some m\<rparr>)))"

text \<open>The last loop clears the security context at the index of the override's container.\<close>

fun clear_security_contexts :: "nat \<Rightarrow> Container list \<Rightarrow> Container list \<Rightarrow> Container list outcome" where
  "clear_security_contexts i [] patched = Ok patched"
| "clear_security_contexts i (o_k # o_ks) patched =
     (if c_securityContext o_k = Some \<lparr>sc_payload = []\<rparr>
      then (if i < length patched
            then clear_security_contexts (Suc i) o_ks (patched[i := (patched ! i)\<lparr>c_securityContext := None\<rparr>])
            else index_panic)
      else clear_security_contexts (Suc i) o_ks patched)"

definition patchPodSpec :: "lib \<Rightarrow> PodSpec \<Rightarrow> PodSpec \<Rightarrow> PodSpec outcome" where
  "patchPodSpec L podSpec ov =
     bind_ok (wrap_err ''error marshalling statefulSet podSpec'' (lib_marshal_pod_spec L podSpec)) (\<lambda>originalPodSpec.
     bind_ok (wrap_err ''error marshalling statefulSet podSpec override'' (lib_marshal_pod_spec L ov)) (\<lambda>patch.
     bind_ok (wrap_err ''error patching podSpec'' (lib_merge_pod_spec L originalPodSpec patch)) (\<lambda>patchedJSON.
     bind_ok (wrap_err ''error unmarshalling patched Stateful Set'' (lib_unmarshal_pod_spec L patchedJSON)) (\<lambda>p0.
     let rmqContainer = containerRabbitmq (ps_containers ov) in
     bind_ok (if c_env rmqContainer \<noteq> None then on_first sort_container_env (ps_containers p0)
              else Ok (ps_containers p0)) (\<lambda>ks1.
     bind_ok (if c_volumeMounts rmqContainer \<noteq> None then on_first sort_container_mounts ks1 else Ok ks1) (\<lambda>ks2.
     let p1 = p0\<lparr>ps_containers := ks2\<rparr>;
         p2 = (if ps_securityContext ov = Some \<lparr>psc_fsGroup = None, psc_runAsUser = None, psc_payload = []\<rparr>
               then p1\<lparr>ps_securityContext := None\<rparr> else p1) in
     bind_ok (clear_security_contexts 0 (ps_initContainers ov) (ps_initContainers p2)) (\<lambda>inits.
     Ok (p2\<lparr>ps_initContainers := inits\<rparr>))))))))"

text \<open>The claims of the override, in a loop that ends at the first error.\<close>

fun pvc_overrides ::
  "lib \<Rightarrow> RabbitmqCluster \<Rightarrow> string \<Rightarrow> EmbeddedPersistentVolumeClaim list \<Rightarrow> PersistentVolumeClaim list outcome" where
  "pvc_overrides L c ns [] = Ok []"
| "pvc_overrides L c ns (t # ts) =
     bind_ok (set_owner L c ((copyObjectMeta (new_meta [] []) (epvc_meta t))\<lparr>om_namespace := ns\<rparr>)) (\<lambda>m.
     bind_ok (pvc_overrides L c ns ts) (\<lambda>ts'.
     Ok (disableBlockOwnerDeletion \<lparr>pvc_meta = m, pvc_spec = epvc_spec t\<rparr> # ts')))"

definition override_claims ::
  "lib \<Rightarrow> RabbitmqCluster \<Rightarrow> string \<Rightarrow> StatefulSetSpecOverride \<Rightarrow> PersistentVolumeClaim list
     \<Rightarrow> PersistentVolumeClaim list outcome" where
  "override_claims L c ns ov templates =
     (if so_volumeClaimTemplates ov \<noteq> []
      then bind_ok (deref (pe_storage (sp_persistence (cl_spec c)))) (\<lambda>storage.
           if storage = 0 then Ok templates else pvc_overrides L c ns (so_volumeClaimTemplates ov))
      else Ok templates)"

definition override_template ::
  "lib \<Rightarrow> EmbeddedPodTemplateSpec option \<Rightarrow> PodTemplateSpec \<Rightarrow> PodTemplateSpec outcome" where
  "override_template L ov t =
     (case ov of
        None \<Rightarrow> Ok t
      | Some o_t \<Rightarrow>
          (let t1 = (case ept_meta o_t of None \<Rightarrow> t | Some m \<Rightarrow> t\<lparr>pt_meta := copyObjectMeta (pt_meta t) m\<rparr>)
           in case ept_spec o_t of
                None \<Rightarrow> Ok t1
              | Some p \<Rightarrow> bind_ok (patchPodSpec L (pt_spec t1) p) (\<lambda>p'. Ok (t1\<lparr>pt_spec := p'\<rparr>))))"

definition applyStsOverride ::
  "lib \<Rightarrow> RabbitmqCluster \<Rightarrow> StatefulSet \<Rightarrow> StatefulSetOverride \<Rightarrow> StatefulSet outcome" where
  "applyStsOverride L c sts ov =
     (let sts1 = (case sto_meta ov of
            None \<Rightarrow> sts
          | Some e \<Rightarrow> sts\<lparr>sts_meta := copyLabelsAnnotations (sts_meta sts) e\<rparr>)
      in case sto_spec ov of
           None \<Rightarrow> Ok sts1
         | Some sp \<Rightarrow>
             (let s1 = (if so_replicas sp \<noteq> None then (sts_spec sts1)\<lparr>sts_replicas := so_replicas sp\<rparr>
                        else sts_spec sts1);
                  s2 = (case so_updateStrategy sp of None \<Rightarrow> s1 | Some u \<Rightarrow> s1\<lparr>sts_updateStrategy := u\<rparr>);
                  s3 = (if so_podManagementPolicy sp \<noteq> []
                        then s2\<lparr>sts_podManagementPolicy := so_podManagementPolicy sp\<rparr> else s2)
              in bind_ok (override_claims L c (om_namespace (sts_meta sts1)) sp (sts_volumeClaimTemplates s3)) (\<lambda>claims.
                 bind_ok (override_template L (so_template sp) (sts_template s3)) (\<lambda>template.
                 Ok (sts1\<lparr>sts_spec := s3\<lparr>sts_volumeClaimTemplates := claims, sts_template := template\<rparr>\<rparr>)))))"

section \<open>Build and Update\<close>

definition statefulset_Build :: "lib \<Rightarrow> rand_source \<Rightarrow> RabbitmqCluster \<Rightarrow> StatefulSet outcome" where
  "statefulset_Build L rnd c =
     bind_ok (persistentVolumeClaim L c) (\<lambda>pvc.
     let ov = (case ov_statefulSet (sp_override (cl_spec c)) of None \<Rightarrow> None | Some o_s \<Rightarrow> sto_spec o_s);
         selector = (case ov of
             Some sp \<Rightarrow> if so_selector sp \<noteq> None then so_selector sp
                        else Some \<lparr>ls_matchLabels = LabelSelector_of (cluster_name c), ls_matchExpressions = []\<rparr>
           | None \<Rightarrow> Some \<lparr>ls_matchLabels = LabelSelector_of (cluster_name c), ls_matchExpressions = []\<rparr>);
         service = (case ov of
             Some sp \<Rightarrow> if so_serviceName sp \<noteq> [] then so_serviceName sp
                        else ChildResourceName c headlessServiceSuffix
           | None \<Rightarrow> ChildResourceName c headlessServiceSuffix)
     in Ok \<lparr>sts_meta = new_meta (ChildResourceName c stsSuffix) (cluster_namespace c),
            sts_spec = \<lparr>sts_replicas = None, sts_serviceName = service, sts_selector = selector,
              sts_template = zero_template, sts_volumeClaimTemplates = pvc,
              sts_podManagementPolicy = ''Parallel'',
              sts_updateStrategy = \<lparr>us_type = [], us_partition = None\<rparr>\<rparr>,
            sts_status = \<lparr>sts_readyReplicas = 0, sts_currentRevision = [], sts_updateRevision = []\<rparr>\<rparr>)"

text \<open>\<open>Update\<close> up to the override. The warning it may log has no effect on the object.\<close>

definition statefulset_base :: "RabbitmqCluster \<Rightarrow> StatefulSet \<Rightarrow> StatefulSet outcome" where
  "statefulset_base c sts =
     bind_ok (updatePersistenceStorageCapacity (sts_volumeClaimTemplates (sts_spec sts))
                (pe_storage (sp_persistence (cl_spec c)))) (\<lambda>templates.
     bind_ok (podTemplateSpec c (om_annotations (pt_meta (sts_template (sts_spec sts))))) (\<lambda>template.
     Ok (sts\<lparr>sts_meta := set_labels_annotations c (sts_meta sts),
             sts_spec := (sts_spec sts)\<lparr>sts_replicas := sp_replicas (cl_spec c),
               sts_updateStrategy := \<lparr>us_type = ''RollingUpdate'', us_partition = Some 0\<rparr>,
               sts_volumeClaimTemplates := templates, sts_template := template\<rparr>\<rparr>)))"

definition statefulset_Update :: "lib \<Rightarrow> RabbitmqCluster \<Rightarrow> StatefulSet \<Rightarrow> StatefulSet outcome" where
  "statefulset_Update L c sts =
     bind_ok (statefulset_base c sts) (\<lambda>base.
     bind_ok
       (case ov_statefulSet (sp_override (cl_spec c)) of
          None \<Rightarrow> Ok base
        | Some ov \<Rightarrow> wrap_err ''failed applying StatefulSet override'' (applyStsOverride L c base ov)) (\<lambda>sts'.
     bind_ok (set_owner L c (sts_meta sts')) (\<lambda>m. Ok (sts'\<lparr>sts_meta := m\<rparr>))))"

section \<open>Lemmas on the swapping loops\<close>

lemma swap_loop_mset: "swap_loop slot name is xs = Ok ys \<Longrightarrow> mset ys = mset xs"
proof (induction slot name "is" xs arbitrary: ys rule: swap_loop.induct)
  case (2 slot name i "is" xs)
  then show ?case by (auto simp: outcome_ok split: option.splits dest: swap_at_mset)
qed simp

lemma swap_loop_total:
  "\<forall>i \<in> set is. i < length xs \<Longrightarrow> \<forall>x \<in> set xs. \<forall>k. slot (name x) = Some k \<longrightarrow> k < length xs \<Longrightarrow>
     \<exists>ys. swap_loop slot name is xs = Ok ys"
proof (induction slot name "is" xs rule: swap_loop.induct)
  case (2 slot name i "is" xs)
  show ?case
  proof (cases "slot (name (xs ! i))")
    case (Some k)
    have "xs ! i \<in> set xs" using 2 by (intro nth_mem) simp
    with Some have "k < length xs" using "2.prems"(2) by blast
    then obtain zs where zs: "swap_at xs k i = Ok zs" using 2 by (simp add: swap_at_def)
    have "set zs = set xs" "length zs = length xs"
      using swap_at_mset [OF zs] swap_at_length [OF zs] by (metis set_mset_mset)+
    with 2 Some zs show ?thesis by auto
  next
    case None
    with 2 show ?thesis by simp
  qed
qed simp

text \<open>
  A loop over all positions establishes what every step keeps: \<open>Q k xs\<close> says what holds when
  the first \<open>k\<close> positions are done.
\<close>

lemma swap_loop_invariant:
  assumes "swap_loop slot name [m..<n] xs = Ok ys" and "Q m xs" and "m \<le> n" and "length xs = n"
    and "\<And>k zs. m \<le> k \<Longrightarrow> k < n \<Longrightarrow> length zs = n \<Longrightarrow> mset zs = mset xs \<Longrightarrow> Q k zs \<Longrightarrow>
      slot (name (zs ! k)) = None \<Longrightarrow> Q (Suc k) zs"
    and "\<And>k zs j. m \<le> k \<Longrightarrow> k < n \<Longrightarrow> length zs = n \<Longrightarrow> mset zs = mset xs \<Longrightarrow> Q k zs \<Longrightarrow>
      slot (name (zs ! k)) = Some j \<Longrightarrow> j < n \<Longrightarrow> Q (Suc k) (zs[j := zs ! k, k := zs ! j])"
  shows "Q n ys"
  using assms
proof (induction "n - m" arbitrary: m xs)
  case 0
  then show ?case by simp
next
  case (Suc d)
  then have m: "m < n" by simp
  then have upt: "[m..<n] = m # [Suc m..<n]" by (rule upt_conv_Cons)
  show ?case
  proof (cases "slot (name (xs ! m))")
    case None
    have "Q (Suc m) xs" using Suc.prems(2,4,5) None m by blast
    moreover have "swap_loop slot name [Suc m..<n] xs = Ok ys" using Suc.prems(1) None upt by simp
    ultimately show ?thesis using Suc m by (intro Suc.hyps(1) [of "Suc m" xs]) auto
  next
    case (Some j)
    with Suc.prems(1) upt obtain zs where zs: "swap_at xs j m = Ok zs"
      and rest: "swap_loop slot name [Suc m..<n] zs = Ok ys" by (auto simp: outcome_ok)
    from zs have eq: "zs = xs[j := xs ! m, m := xs ! j]" and j: "j < n"
      using Suc.prems(4) by (auto simp: swap_at_def split: if_splits)
    have "Q (Suc m) zs" unfolding eq using Suc.prems(2,4,6) Some m j by blast
    moreover have "mset zs = mset xs" "length zs = n"
      using swap_at_mset [OF zs] swap_at_length [OF zs] Suc.prems(4) by simp_all
    ultimately show ?thesis using Suc m rest by (intro Suc.hyps(1) [of "Suc m" zs]) auto
  qed
qed

text \<open>What is known of the mounts when the first \<open>k\<close> positions are done.\<close>

definition mounts_done :: "nat \<Rightarrow> VolumeMount list \<Rightarrow> bool" where
  "mounts_done k ms \<longleftrightarrow>
     (vm_name (ms ! 0) = ''rabbitmq-erlang-cookie'' \<or> (\<forall>i < k. vm_name (ms ! i) \<noteq> ''rabbitmq-erlang-cookie''))
     \<and> (vm_name (ms ! 1) = defaultPVCName \<and> 1 < length ms \<or> (\<forall>i < k. vm_name (ms ! i) \<noteq> defaultPVCName))"

lemma mount_slot_Some:
  "mount_slot n = Some j \<longleftrightarrow> n = ''rabbitmq-erlang-cookie'' \<and> j = 0 \<or> n = defaultPVCName \<and> j = 1"
  by (auto simp: mount_slot_def defaultPVCName_def)

lemma mount_slot_None:
  "mount_slot n = None \<longleftrightarrow> n \<noteq> ''rabbitmq-erlang-cookie'' \<and> n \<noteq> defaultPVCName"
  by (auto simp: mount_slot_def)

lemma mounts_done_step:
  assumes "mounts_done k ms" and "k < length ms" and "mount_slot (vm_name (ms ! k)) = Some j" and "j < length ms"
  shows "mounts_done (Suc k) (ms[j := ms ! k, k := ms ! j])"
proof -
  have ne: "defaultPVCName \<noteq> ''rabbitmq-erlang-cookie''" by (simp add: defaultPVCName_def)
  consider "vm_name (ms ! k) = ''rabbitmq-erlang-cookie''" "j = 0" | "vm_name (ms ! k) = defaultPVCName" "j = 1"
    using assms(3) by (auto simp: mount_slot_Some)
  then show ?thesis
  proof cases
    case 1
    have "vm_name (ms[0 := ms ! k, k := ms ! 0] ! 0) = ''rabbitmq-erlang-cookie''"
      using 1 assms(2,4) by (cases "k = 0") (auto simp: nth_list_update)
    moreover have "vm_name (ms[0 := ms ! k, k := ms ! 0] ! 1) = defaultPVCName \<and> 1 < length ms
        \<or> (\<forall>i < Suc k. vm_name (ms[0 := ms ! k, k := ms ! 0] ! i) \<noteq> defaultPVCName)"
      using assms(1,2) 1 ne order.strict_trans1 [OF le0 assms(2)] unfolding mounts_done_def
      by (cases "k = 0"; cases "k = 1") (auto simp: nth_list_update less_Suc_eq)
    ultimately show ?thesis using 1 by (simp add: mounts_done_def)
  next
    case 2
    have "vm_name (ms[1 := ms ! k, k := ms ! 1] ! 1) = defaultPVCName"
      using 2 assms(2,4) by (cases "k = 1") auto
    moreover have "vm_name (ms[1 := ms ! k, k := ms ! 1] ! 0) = ''rabbitmq-erlang-cookie''
        \<or> (\<forall>i < Suc k. vm_name (ms[1 := ms ! k, k := ms ! 1] ! i) \<noteq> ''rabbitmq-erlang-cookie'')"
      using assms(1,2) 2 ne unfolding mounts_done_def
      by (cases "k = 0"; cases "k = 1") (auto simp: nth_list_update less_Suc_eq)
    ultimately show ?thesis using 2 assms(4) by (simp add: mounts_done_def)
  qed
qed

text \<open>Where the three variables are when the first \<open>k\<close> positions are done.\<close>

definition env_done :: "nat \<Rightarrow> nat \<Rightarrow> nat \<Rightarrow> nat \<Rightarrow> EnvVar list \<Rightarrow> bool" where
  "env_done p n s k env \<longleftrightarrow>
     ev_name (env ! (if p < k then 0 else p)) = ''MY_POD_NAME''
     \<and> ev_name (env ! (if n < k then 1 else n)) = ''MY_POD_NAMESPACE''
     \<and> ev_name (env ! (if s < k then 2 else s)) = ''K8S_SERVICE_NAME''"

lemma env_slot_Some:
  "env_slot x = Some j \<longleftrightarrow> x = ''MY_POD_NAME'' \<and> j = 0 \<or> x = ''MY_POD_NAMESPACE'' \<and> j = 1
     \<or> x = ''K8S_SERVICE_NAME'' \<and> j = 2"
  by (auto simp: env_slot_def)

lemma env_done_step:
  assumes sofar: "env_done p n s k env" and order: "p < n" "n < s" "s < length env" and k: "k < length env"
    and dist: "distinct (map ev_name env)"
  shows "env_slot (ev_name (env ! k)) = Some j \<Longrightarrow> env_done p n s (Suc k) (env[j := env ! k, k := env ! j])"
    and "env_slot (ev_name (env ! k)) = None \<Longrightarrow> env_done p n s (Suc k) env"
proof -
  have same: "i = k" if "ev_name (env ! i) = ev_name (env ! k)" "i < length env" for i
    using nth_eq_iff_index_eq [OF dist, of i k] that k by simp
  have len: "0 < length env" "1 < length env" "2 < length env" using order by linarith+
  have bounds: "(if p < k then 0 else p) < length env" "(if n < k then 1 else n) < length env"
    "(if s < k then 2 else s) < length env" using order k by auto
  note at = sofar [unfolded env_done_def]
  {
    assume "env_slot (ev_name (env ! k)) = Some j"
    then consider "ev_name (env ! k) = ''MY_POD_NAME''" "j = 0"
      | "ev_name (env ! k) = ''MY_POD_NAMESPACE''" "j = 1" | "ev_name (env ! k) = ''K8S_SERVICE_NAME''" "j = 2"
      by (auto simp: env_slot_Some)
    then show "env_done p n s (Suc k) (env[j := env ! k, k := env ! j])"
    proof cases
      case 1
      then have "k = p" using same [OF _ bounds(1)] at by (auto split: if_splits)
      with at 1 order k len show ?thesis by (auto simp: env_done_def nth_list_update split: if_splits)
    next
      case 2
      then have "k = n" using same [OF _ bounds(2)] at order by (auto split: if_splits)
      with at 2 order k len show ?thesis by (auto simp: env_done_def nth_list_update split: if_splits)
    next
      case 3
      then have "k = s" using same [OF _ bounds(3)] at order by (auto split: if_splits)
      with at 3 order k len show ?thesis by (auto simp: env_done_def nth_list_update split: if_splits)
    qed
  }
  assume "env_slot (ev_name (env ! k)) = None"
  then have "ev_name (env ! k) \<notin> {''MY_POD_NAME'', ''MY_POD_NAMESPACE'', ''K8S_SERVICE_NAME''}"
    by (auto simp: env_slot_def split: if_splits)
  then have "k \<noteq> p" "k \<noteq> n" "k \<noteq> s" using at by auto
  with at show "env_done p n s (Suc k) env" by (simp add: env_done_def less_Suc_eq)
qed

section \<open>Lemmas on Build and Update\<close>

lemma updatePersistence_idem:
  "updatePersistenceStorageCapacity ts cap = Ok ts' \<Longrightarrow> updatePersistenceStorageCapacity ts' cap = Ok ts'"
proof (induction ts arbitrary: ts')
  case (Cons t ts)
  from Cons.prems obtain t' us where us: "updatePersistenceStorageCapacity ts cap = Ok us" and ts': "ts' = t' # us"
    and t': "(if om_name (pvc_meta t) = defaultPVCName
        then bind_ok (deref cap) (\<lambda>q. bind_ok (map_store (rr_requests (pvcs_resources (pvc_spec t))) ''storage'' q)
          (\<lambda>reqs. Ok (t\<lparr>pvc_spec := (pvc_spec t)\<lparr>pvcs_resources := (pvcs_resources (pvc_spec t))\<lparr>rr_requests := reqs\<rparr>\<rparr>\<rparr>)))
        else Ok t) = Ok t'"
    by (auto simp: bind_ok_eq_Ok)
  show ?case
  proof (cases "om_name (pvc_meta t) = defaultPVCName")
    case True
    with t' obtain q f where "cap = Some q" "rr_requests (pvcs_resources (pvc_spec t)) = Some f"
      and "t' = t\<lparr>pvc_spec := (pvc_spec t)\<lparr>pvcs_resources := (pvcs_resources (pvc_spec t))
              \<lparr>rr_requests := Some (f(''storage'' \<mapsto> q))\<rparr>\<rparr>\<rparr>"
      by (cases "rr_requests (pvcs_resources (pvc_spec t))") (auto simp: bind_ok_eq_Ok)
    with True ts' Cons.IH [OF us] show ?thesis by simp
  next
    case False
    with t' ts' Cons.IH [OF us] show ?thesis by simp
  qed
qed simp

text \<open>What the update does to each claim template.\<close>

lemma updatePersistence_effect:
  "updatePersistenceStorageCapacity ts cap = Ok ts' \<Longrightarrow>
     map pvc_meta ts' = map pvc_meta ts
     \<and> list_all2 (\<lambda>t t'. if om_name (pvc_meta t) = defaultPVCName
          then cap \<noteq> None \<and> entries (rr_requests (pvcs_resources (pvc_spec t'))) =
                 (entries (rr_requests (pvcs_resources (pvc_spec t))))(''storage'' := cap)
          else t' = t) ts ts'"
proof (induction ts arbitrary: ts')
  case (Cons t ts)
  from Cons.prems obtain t' us where us: "updatePersistenceStorageCapacity ts cap = Ok us" and ts': "ts' = t' # us"
    and t': "(if om_name (pvc_meta t) = defaultPVCName
        then bind_ok (deref cap) (\<lambda>q. bind_ok (map_store (rr_requests (pvcs_resources (pvc_spec t))) ''storage'' q)
          (\<lambda>reqs. Ok (t\<lparr>pvc_spec := (pvc_spec t)\<lparr>pvcs_resources := (pvcs_resources (pvc_spec t))\<lparr>rr_requests := reqs\<rparr>\<rparr>\<rparr>)))
        else Ok t) = Ok t'"
    by (auto simp: bind_ok_eq_Ok)
  show ?case
  proof (cases "om_name (pvc_meta t) = defaultPVCName")
    case True
    with t' obtain q reqs where "cap = Some q"
      "map_store (rr_requests (pvcs_resources (pvc_spec t))) ''storage'' q = Ok reqs"
      "t' = t\<lparr>pvc_spec := (pvc_spec t)\<lparr>pvcs_resources := (pvcs_resources (pvc_spec t))\<lparr>rr_requests := reqs\<rparr>\<rparr>\<rparr>"
      by (auto simp: bind_ok_eq_Ok)
    with True ts' Cons.IH [OF us] show ?thesis by (simp add: entries_map_store)
  next
    case False
    with t' ts' Cons.IH [OF us] show ?thesis by simp
  qed
qed simp

text \<open>
  No override that the library merges or that replaces the claims: what remains is decided by
  the operator alone.
\<close>

definition sts_settled :: "RabbitmqCluster \<Rightarrow> bool" where
  "sts_settled c =
     (case ov_statefulSet (sp_override (cl_spec c)) of
        None \<Rightarrow> True
      | Some ov \<Rightarrow> (case sto_spec ov of
            None \<Rightarrow> True
          | Some sp \<Rightarrow> so_volumeClaimTemplates sp = []
              \<and> (case so_template sp of None \<Rightarrow> True | Some t \<Rightarrow> ept_spec t = None)))"

text \<open>The metadata an update gives the stateful set, before the owner is set.\<close>

definition sts_new_meta :: "RabbitmqCluster \<Rightarrow> ObjectMeta \<Rightarrow> ObjectMeta" where
  "sts_new_meta c m =
     (case ov_statefulSet (sp_override (cl_spec c)) of
        None \<Rightarrow> set_labels_annotations c m
      | Some ov \<Rightarrow> (case sto_meta ov of
            None \<Rightarrow> set_labels_annotations c m
          | Some e \<Rightarrow> copyLabelsAnnotations (set_labels_annotations c m) e))"

lemma sts_new_meta_frame [simp]:
  "om_name (sts_new_meta c m) = om_name m"
  "om_namespace (sts_new_meta c m) = om_namespace m"
  "om_uid (sts_new_meta c m) = om_uid m"
  "om_ownerReferences (sts_new_meta c m) = om_ownerReferences m"
  by (simp_all add: sts_new_meta_def copyLabelsAnnotations_def Let_def split: option.split)

definition sts_added_annotations :: "RabbitmqCluster \<Rightarrow> string \<rightharpoonup> string" where
  "sts_added_annotations c =
     (entries (om_annotations (cl_meta c)) |` Collect isNotKubernetesAnnotation)
     ++ (case ov_statefulSet (sp_override (cl_spec c)) of
           None \<Rightarrow> Map.empty
         | Some ov \<Rightarrow> (case sto_meta ov of None \<Rightarrow> Map.empty | Some e \<Rightarrow> entries (ela_annotations e)))"

lemma sts_new_meta_adds:
  "om_annotations (sts_new_meta c m) = Some (entries (om_annotations m) ++ sts_added_annotations c)"
proof -
  let ?b = "set_labels_annotations c m"
  have b: "om_annotations ?b = Some (entries (om_annotations m)
      ++ (entries (om_annotations (cl_meta c)) |` Collect isNotKubernetesAnnotation))"
    by (simp add: ReconcileAndFilter_add)
  then have "om_annotations (sts_new_meta c m) \<noteq> None"
    using copy_adds(2) [of ?b] by (simp add: sts_new_meta_def split: option.split)
  moreover have "entries (om_annotations (sts_new_meta c m)) = entries (om_annotations m) ++ sts_added_annotations c"
    using copy_adds(1) [of ?b] b
    by (simp add: sts_new_meta_def sts_added_annotations_def split: option.split)
  ultimately show ?thesis by auto
qed

lemma sts_new_meta_else:
  "sts_new_meta c m = m\<lparr>om_labels := om_labels (sts_new_meta c m'),
     om_annotations := om_annotations (sts_new_meta c m)\<rparr>"
  by (simp add: sts_new_meta_def copyLabelsAnnotations_def set_labels_annotations_def Let_def
      split: option.split)

lemma sts_new_meta_twice:
  assumes "om_labels m' = om_labels (sts_new_meta c m)"
    and "om_annotations m' = om_annotations (sts_new_meta c m)"
  shows "sts_new_meta c m' = m'"
proof -
  have "om_annotations (sts_new_meta c m') = om_annotations m'"
    using assms(2) by (simp add: sts_new_meta_adds map_add_twice)
  then show ?thesis using sts_new_meta_else [of c m' m] assms(1) by simp
qed

text \<open>What the override leaves of the pod template when it has no specification to merge.\<close>

definition template_override :: "RabbitmqCluster \<Rightarrow> EmbeddedObjectMeta option" where
  "template_override c =
     (case ov_statefulSet (sp_override (cl_spec c)) of
        None \<Rightarrow> None
      | Some ov \<Rightarrow> (case sto_spec ov of
            None \<Rightarrow> None
          | Some sp \<Rightarrow> (case so_template sp of None \<Rightarrow> None | Some t \<Rightarrow> ept_meta t)))"

definition settled_template :: "RabbitmqCluster \<Rightarrow> PodTemplateSpec \<Rightarrow> PodTemplateSpec" where
  "settled_template c t =
     (case template_override c of None \<Rightarrow> t | Some m \<Rightarrow> t\<lparr>pt_meta := copyObjectMeta (pt_meta t) m\<rparr>)"

lemma copyObjectMeta_annotations:
  "om_annotations m \<noteq> None \<Longrightarrow>
     om_annotations (copyObjectMeta m e) = Some (entries (om_annotations m) ++ entries (eom_annotations e))"
  by (cases "om_annotations m"; cases "eom_annotations e") (simp_all add: copyObjectMeta_def mergeMap_add Let_def)

lemma copyObjectMeta_with_annotations:
  "copyObjectMeta (m\<lparr>om_annotations := a\<rparr>) e =
     (copyObjectMeta m e)\<lparr>om_annotations := om_annotations (copyObjectMeta (m\<lparr>om_annotations := a\<rparr>) e)\<rparr>"
  by (simp add: copyObjectMeta_def Let_def)

lemma pod_template_prev:
  "pod_template c prev q r g = (pod_template c prev' q r g)\<lparr>pt_meta :=
     (pt_meta (pod_template c prev' q r g))\<lparr>om_annotations := ReconcileAnnotations prev [defaultPodAnnotations c]\<rparr>\<rparr>"
  by (simp add: pod_template_def)

lemma settled_template_twice:
  assumes "podTemplateSpec c prev = Ok t"
  shows "\<exists>t'. podTemplateSpec c (om_annotations (pt_meta (settled_template c t))) = Ok t'
    \<and> settled_template c t' = settled_template c t"
proof -
  obtain q r g where t: "t = pod_template c prev q r g"
    and again: "\<And>prev'. podTemplateSpec c prev' = Ok (pod_template c prev' q r g)"
    using assms by (auto simp: podTemplateSpec_def bind_ok_eq_Ok)
  define d where "d = entries (defaultPodAnnotations c)"
  define o_a where "o_a = (case template_override c of None \<Rightarrow> Map.empty | Some e \<Rightarrow> entries (eom_annotations e))"
  have ann: "om_annotations (pt_meta (settled_template c (pod_template c prev' q r g)))
      = Some (entries prev' ++ (d ++ o_a))" for prev'
    by (simp add: settled_template_def o_a_def d_def pod_template_def ReconcileAnnotations_add
        copyObjectMeta_annotations split: option.split)
  define t' where "t' = pod_template c (om_annotations (pt_meta (settled_template c t))) q r g"
  have "om_annotations (pt_meta (settled_template c t')) = om_annotations (pt_meta (settled_template c t))"
    unfolding t'_def t ann by (simp only: entries_simps map_add_twice)
  moreover have "settled_template c t' = (settled_template c t)\<lparr>pt_meta := (pt_meta (settled_template c t))
      \<lparr>om_annotations := om_annotations (pt_meta (settled_template c t'))\<rparr>\<rparr>"
    unfolding t'_def t settled_template_def pod_template_def
    by (simp add: copyObjectMeta_def Let_def split: option.split)
  ultimately have "settled_template c t' = settled_template c t" by simp
  then show ?thesis using again t'_def by blast
qed

text \<open>The rest of the specification that an update gives.\<close>

definition override_fields :: "RabbitmqCluster \<Rightarrow> StatefulSetSpec \<Rightarrow> StatefulSetSpec" where
  "override_fields c s0 =
     (case ov_statefulSet (sp_override (cl_spec c)) of
        None \<Rightarrow> s0
      | Some ov \<Rightarrow> (case sto_spec ov of
            None \<Rightarrow> s0
          | Some sp \<Rightarrow>
              (let s1 = (if so_replicas sp \<noteq> None then s0\<lparr>sts_replicas := so_replicas sp\<rparr> else s0);
                   s2 = (case so_updateStrategy sp of None \<Rightarrow> s1 | Some u \<Rightarrow> s1\<lparr>sts_updateStrategy := u\<rparr>)
               in if so_podManagementPolicy sp \<noteq> []
                  then s2\<lparr>sts_podManagementPolicy := so_podManagementPolicy sp\<rparr> else s2)))"

definition settled_spec ::
  "RabbitmqCluster \<Rightarrow> PersistentVolumeClaim list \<Rightarrow> PodTemplateSpec \<Rightarrow> StatefulSetSpec \<Rightarrow> StatefulSetSpec" where
  "settled_spec c ts t s = override_fields c
     (s\<lparr>sts_replicas := sp_replicas (cl_spec c),
        sts_updateStrategy := \<lparr>us_type = ''RollingUpdate'', us_partition = Some 0\<rparr>,
        sts_volumeClaimTemplates := ts, sts_template := t\<rparr>)"

lemma settled_spec_twice: "settled_spec c ts t (settled_spec c ts t s) = settled_spec c ts t s"
  by (simp add: settled_spec_def override_fields_def Let_def split: option.split)

lemma settled_spec_simps [simp]:
  "sts_volumeClaimTemplates (settled_spec c ts t s) = ts"
  "sts_template (settled_spec c ts t s) = t"
  by (simp_all add: settled_spec_def override_fields_def Let_def split: option.split)

lemma override_template_settled:
  assumes "sts_settled c" and "ov_statefulSet (sp_override (cl_spec c)) = Some ov" and "sto_spec ov = Some sp"
  shows "override_claims L c ns sp ts = Ok ts" and "override_template L (so_template sp) t = Ok (settled_template c t)"
  using assms
  by (auto simp: sts_settled_def override_claims_def override_template_def settled_template_def
      template_override_def Let_def split: option.split)

lemma settled_template_no_spec:
  "ov_statefulSet (sp_override (cl_spec c)) = Some ov \<Longrightarrow> sto_spec ov = None \<Longrightarrow> settled_template c t = t"
  "ov_statefulSet (sp_override (cl_spec c)) = None \<Longrightarrow> settled_template c t = t"
  by (simp_all add: settled_template_def template_override_def)

lemma applyStsOverride_settled:
  assumes "sts_settled c" and "ov_statefulSet (sp_override (cl_spec c)) = Some ov"
  shows "applyStsOverride L c sts ov = Ok (sts\<lparr>
      sts_meta := (case sto_meta ov of None \<Rightarrow> sts_meta sts | Some e \<Rightarrow> copyLabelsAnnotations (sts_meta sts) e),
      sts_spec := override_fields c ((sts_spec sts)\<lparr>sts_template := settled_template c (sts_template (sts_spec sts))\<rparr>)\<rparr>)"
proof (cases "sto_spec ov")
  case None
  with assms show ?thesis
    by (simp add: applyStsOverride_def override_fields_def settled_template_no_spec split: option.split)
next
  case (Some sp)
  note parts = override_template_settled [OF assms Some]
  show ?thesis
    by (simp add: applyStsOverride_def parts Let_def override_fields_def assms(2) Some split: option.split)
qed

lemma statefulset_base_Ok:
  "statefulset_base c x = Ok b \<longleftrightarrow>
    (\<exists>ts t. updatePersistenceStorageCapacity (sts_volumeClaimTemplates (sts_spec x))
          (pe_storage (sp_persistence (cl_spec c))) = Ok ts
       \<and> podTemplateSpec c (om_annotations (pt_meta (sts_template (sts_spec x)))) = Ok t
       \<and> b = x\<lparr>sts_meta := set_labels_annotations c (sts_meta x),
             sts_spec := (sts_spec x)\<lparr>sts_replicas := sp_replicas (cl_spec c),
               sts_updateStrategy := \<lparr>us_type = ''RollingUpdate'', us_partition = Some 0\<rparr>,
               sts_volumeClaimTemplates := ts, sts_template := t\<rparr>\<rparr>)"
  by (auto simp: statefulset_base_def outcome_ok)

lemma statefulset_Update_Ok:
  assumes "sts_settled c"
  shows "statefulset_Update L c x = Ok y \<longleftrightarrow>
    (\<exists>ts t m. updatePersistenceStorageCapacity (sts_volumeClaimTemplates (sts_spec x))
          (pe_storage (sp_persistence (cl_spec c))) = Ok ts
       \<and> podTemplateSpec c (om_annotations (pt_meta (sts_template (sts_spec x)))) = Ok t
       \<and> set_owner L c (sts_new_meta c (sts_meta x)) = Ok m
       \<and> y = x\<lparr>sts_meta := m, sts_spec := settled_spec c ts (settled_template c t) (sts_spec x)\<rparr>)"
proof (cases "ov_statefulSet (sp_override (cl_spec c))")
  case None
  then show ?thesis
    by (auto simp: statefulset_Update_def statefulset_base_def outcome_ok sts_new_meta_def settled_spec_def
        override_fields_def settled_template_no_spec)
next
  case (Some ov)
  then show ?thesis
    unfolding statefulset_Update_def bind_ok_eq_Ok statefulset_base_Ok Some option.case wrap_err_eq_Ok
      applyStsOverride_settled [OF assms Some] sts_new_meta_def settled_spec_def
    by (cases "sto_meta ov") auto
qed

lemma applyStsOverride_meta:
  "applyStsOverride L c sts ov = Ok y \<Longrightarrow>
     sts_meta y = (case sto_meta ov of None \<Rightarrow> sts_meta sts | Some e \<Rightarrow> copyLabelsAnnotations (sts_meta sts) e)"
  by (cases "sto_meta ov"; cases "sto_spec ov") (auto simp: applyStsOverride_def Let_def outcome_ok)

lemma statefulset_Update_meta:
  assumes "statefulset_Update L c x = Ok y"
  shows "set_owner L c (sts_new_meta c (sts_meta x)) = Ok (sts_meta y)"
proof (cases "ov_statefulSet (sp_override (cl_spec c))")
  case None
  with assms show ?thesis by (auto simp: statefulset_Update_def statefulset_base_def sts_new_meta_def outcome_ok)
next
  case (Some ov)
  with assms obtain b s' where "statefulset_base c x = Ok b"
    "applyStsOverride L c b ov = Ok s'" "set_owner L c (sts_meta s') = Ok (sts_meta y)"
    by (auto simp: statefulset_Update_def outcome_ok)
  moreover have "sts_meta b = set_labels_annotations c (sts_meta x)"
    using calculation(1) by (auto simp: statefulset_base_Ok)
  ultimately show ?thesis using Some applyStsOverride_meta [of L c b ov s'] by (simp add: sts_new_meta_def split: option.splits)
qed

interpretation statefulset: resource_builder stsSuffix sts_meta sts_settled statefulset_Build statefulset_Update
proof unfold_locales
  fix L rnd c x
  assume "statefulset_Build L rnd c = Ok x"
  then show "om_name (sts_meta x) = ChildResourceName c stsSuffix \<and> om_namespace (sts_meta x) = cluster_namespace c"
    "om_ownerReferences (sts_meta x) = []"
    by (auto simp: statefulset_Build_def bind_ok_eq_Ok Let_def)
next
  fix L c x y
  assume L: "lib_ok L" and upd: "statefulset_Update L c x = Ok y"
  note facts = set_owner_facts [OF L statefulset_Update_meta [OF upd]]
  show "om_name (sts_meta y) = om_name (sts_meta x) \<and> om_namespace (sts_meta y) = om_namespace (sts_meta x)
      \<and> om_uid (sts_meta y) = om_uid (sts_meta x)"
    "\<exists>r. controller_of (sts_meta y) = Some r \<and> or_uid r = om_uid (cl_meta c) \<and> or_name r = cluster_name c"
    using facts by simp_all
  assume settled: "sts_settled c"
  with upd obtain ts t where ts: "updatePersistenceStorageCapacity (sts_volumeClaimTemplates (sts_spec x))
          (pe_storage (sp_persistence (cl_spec c))) = Ok ts"
    and t: "podTemplateSpec c (om_annotations (pt_meta (sts_template (sts_spec x)))) = Ok t"
    and spec: "sts_spec y = settled_spec c ts (settled_template c t) (sts_spec x)"
    by (auto simp: statefulset_Update_Ok)
  obtain t' where t': "podTemplateSpec c (om_annotations (pt_meta (settled_template c t))) = Ok t'"
    "settled_template c t' = settled_template c t" using settled_template_twice [OF t] by blast
  have "sts_new_meta c (sts_meta y) = sts_meta y"
    by (rule sts_new_meta_twice) (simp_all add: facts)
  moreover have "set_owner L c (sts_meta y) = Ok (sts_meta y)"
    by (rule set_owner_again [OF L statefulset_Update_meta [OF upd]]) simp_all
  moreover have "settled_spec c ts (settled_template c t) (sts_spec y) = sts_spec y"
    unfolding spec by (rule settled_spec_twice)
  ultimately show "statefulset_Update L c y = Ok y"
    unfolding statefulset_Update_Ok [OF settled]
    using updatePersistence_idem [OF ts] t' by (auto simp: spec)
qed

section \<open>Properties\<close>

text \<open>
  C26. Every volume mount of every container of the pod, the setup container and the updater of
  the credentials included, names a volume of the pod or a claim of the stateful set; no two
  volumes have one name, and the data volume is either a claim or an empty directory.
\<close>

theorem pod_mounts_resolve:
  assumes "lib_ok L" and "podTemplateSpec c prev = Ok t" and "persistentVolumeClaim L c = Ok claims"
  shows "(\<forall>k \<in> set (ps_initContainers (pt_spec t)) \<union> set (ps_containers (pt_spec t)).
        mount_names k \<subseteq> v_name ` set (ps_volumes (pt_spec t)) \<union> (om_name \<circ> pvc_meta) ` set claims)
    \<and> distinct (map v_name (ps_volumes (pt_spec t)) @ map (om_name \<circ> pvc_meta) claims)"
proof -
  obtain q r g where q: "pe_storage (sp_persistence (cl_spec c)) = Some q" and t: "t = pod_template c prev q r g"
    using assms(2) by (auto simp: podTemplateSpec_def bind_ok_eq_Ok)
  have claims: "map (om_name \<circ> pvc_meta) claims = (if q = 0 then [] else [''persistence''])"
  proof (cases "q = 0")
    case False
    with assms(3) q obtain m where "set_owner L c ((new_meta defaultPVCName (cluster_namespace c))
              \<lparr>om_labels := Label (cluster_name c),
               om_annotations := ReconcileAndFilterAnnotations (Some Map.empty) [om_annotations (cl_meta c)]\<rparr>) = Ok m"
      and cl: "map (om_name \<circ> pvc_meta) claims = [om_name m]"
      by (auto simp: persistentVolumeClaim_def bind_ok_eq_Ok disableBlockOwnerDeletion_def)
    then show ?thesis using set_owner_facts(1) [OF assms(1)] False by (simp add: defaultPVCName_def)
  qed (use assms(3) q in \<open>simp add: persistentVolumeClaim_def\<close>)
  have vols: "ps_volumes (pt_spec t) = pod_volumes c q" by (simp add: t pod_template_def)
  have all: "v_name ` set (ps_volumes (pt_spec t)) \<union> (om_name \<circ> pvc_meta) ` set claims
      = set (map v_name (pod_volumes c q)) \<union> set (map (om_name \<circ> pvc_meta) claims)"
    unfolding vols by simp
  define vs where "vs = {''plugins-conf'', ''rabbitmq-confd'', ''rabbitmq-erlang-cookie'', ''erlang-cookie-secret'',
       ''rabbitmq-plugins'', ''pod-info'', ''persistence''}
      \<union> (if rc_advancedConfig (sp_rabbitmq (cl_spec c)) \<noteq> [] \<or> rc_envConfig (sp_rabbitmq (cl_spec c)) \<noteq> []
          then {''server-conf''} else {})
      \<union> (if SecretTLSEnabled c then {''rabbitmq-tls''} else {})"
  have names: "v_name ` set (ps_volumes (pt_spec t)) \<union> (om_name \<circ> pvc_meta) ` set claims = vs"
    unfolding all volume_names claims vs_def by auto
  have setup_ok: "mount_names (setupContainer c) \<subseteq> vs"
    unfolding vs_def by (rule order_trans [OF setup_mounts]) (intro le_supI1, simp)
  have rabbitmq: "mount_names (rabbitmq_container c r g) \<subseteq> vs"
    unfolding vs_def by (rule order_trans [OF rabbitmq_mounts]) (intro Un_mono order_refl, simp)
  have updater: "mount_names k \<subseteq> vs" if "k \<in> set (updater_containers c)" for k
    unfolding vs_def by (rule order_trans [OF updater_mounts [OF that]]) (intro Un_mono order_refl le_supI1, simp)
  have "mount_names k \<subseteq> v_name ` set (ps_volumes (pt_spec t)) \<union> (om_name \<circ> pvc_meta) ` set claims"
    if "k \<in> set (ps_initContainers (pt_spec t)) \<union> set (ps_containers (pt_spec t))" for k
  proof -
    from that have "k = setupContainer c \<or> k = rabbitmq_container c r g \<or> k \<in> set (updater_containers c)"
      by (auto simp: t pod_template_def)
    then show ?thesis unfolding names using setup_ok rabbitmq updater by blast
  qed
  moreover have "distinct (map v_name (ps_volumes (pt_spec t)) @ map (om_name \<circ> pvc_meta) claims)"
    unfolding vols volume_names claims by simp
  ultimately show ?thesis by blast
qed

text \<open>A cluster with TLS, an environment file and a Vault updater, to evaluate the template on.\<close>

definition full_cluster :: RabbitmqCluster where
  "full_cluster = (new_cluster ''rabbit'' ''ns'' ''u1'')\<lparr>cl_spec := default_spec
     \<lparr>sp_tls := \<lparr>tls_secretName = ''tls'', tls_caSecretName = ''ca'', tls_disableNonTLSListeners = False\<rparr>,
      sp_rabbitmq := \<lparr>rc_additionalPlugins = [''rabbitmq_mqtt''], rc_additionalConfig = [],
        rc_advancedConfig = [], rc_envConfig = ''X=1''\<rparr>,
      sp_secretBackend := \<lparr>sb_vault = Some \<lparr>vs_role = ''r'', vs_annotations = Some [''team'' \<mapsto> ''red''],
        vs_defaultUserPath = ''p'', vs_defaultUserUpdaterImage = Some ''img'',
        vs_tls = \<lparr>vt_pkiIssuerPath = [], vt_commonName = [], vt_altNames = [], vt_ipSans = []\<rparr>\<rparr>\<rparr>\<rparr>\<rparr>"

lemma full_cluster_template:
  "podTemplateSpec full_cluster prev = Ok (pod_template full_cluster prev (mebi 10240) default_resources 604800)"
  by (simp add: podTemplateSpec_def full_cluster_def default_spec_def)

lemma sample_claims:
  "pe_storage (sp_persistence (cl_spec c)) = Some q \<Longrightarrow> \<exists>claims. persistentVolumeClaim sample_lib c = Ok claims"
  by (simp add: persistentVolumeClaim_def sample_set_owner)

theorem pod_mounts_resolve_witness:
  "mount_names (rabbitmq_container full_cluster default_resources 604800)
     \<subseteq> v_name ` set (pod_volumes full_cluster (mebi 10240)) \<union> {''persistence''}"
proof -
  obtain claims where claims: "persistentVolumeClaim sample_lib full_cluster = Ok claims"
    using sample_claims [of full_cluster] by (auto simp: full_cluster_def default_spec_def)
  note all = pod_mounts_resolve [OF sample_lib_ok full_cluster_template claims, of None]
  have "mebi 10240 \<noteq> 0" by (simp add: mebi_def units_def)
  then have "(om_name \<circ> pvc_meta) ` set claims = {''persistence''}"
    using claims by (auto simp: persistentVolumeClaim_def full_cluster_def default_spec_def sample_set_owner
        disableBlockOwnerDeletion_def defaultPVCName_def)
  with all show ?thesis by (simp add: pod_template_def)
qed

definition all_tls_ports :: "ContainerPort list" where
  "all_tls_ports = [container_port ''epmd'' 4369, container_port ''amqps'' 5671,
      container_port ''management-tls'' 15671, container_port ''prometheus-tls'' 15691]
     @ [container_port ''mqtts'' 8883] @ [container_port ''stomps'' 61614] @ [container_port ''streams'' 5551]
     @ ([container_port ''web-mqtt-tls'' 15676] @ [container_port ''web-stomp-tls'' 15673])"

definition all_ports :: "ContainerPort list" where
  "all_ports = [container_port ''epmd'' 4369, container_port ''amqp'' 5672,
      container_port ''management'' 15672, container_port ''prometheus'' 15692]
     @ [container_port ''mqtt'' 1883] @ [container_port ''web-mqtt'' 15675] @ [container_port ''stomp'' 61613]
     @ [container_port ''web-stomp'' 15674] @ [container_port ''stream'' 5552]
     @ ([container_port ''amqps'' 5671, container_port ''management-tls'' 15671, container_port ''prometheus-tls'' 15691]
        @ [container_port ''mqtts'' 8883] @ [container_port ''stomps'' 61614] @ [container_port ''streams'' 5551]
        @ ([container_port ''web-mqtt-tls'' 15676] @ [container_port ''web-stomp-tls'' 15673]))"

lemma container_ports_subseq:
  "subseq (updateContainerPorts c) (if DisableNonTLSListeners c then all_tls_ports else all_ports)"
proof (cases "DisableNonTLSListeners c")
  case True
  show ?thesis
    unfolding updateContainerPorts_def if_P [OF True] updateContainerPortsOnlyTLSListeners_def all_tls_ports_def
    by (intro list_emb_append_mono subseq_if subseq_order.refl)
next
  case False
  show ?thesis
    unfolding updateContainerPorts_def if_not_P [OF False] all_ports_def
    by (intro list_emb_append_mono subseq_if subseq_order.refl)
qed

lemma container_names_distinct:
  "distinct (map cp_name (updateContainerPorts c))" "distinct (map cp_containerPort (updateContainerPorts c))"
proof -
  have "distinct (map cp_name (if DisableNonTLSListeners c then all_tls_ports else all_ports))"
    "distinct (map cp_containerPort (if DisableNonTLSListeners c then all_tls_ports else all_ports))"
    by (simp_all add: all_ports_def all_tls_ports_def)
  then show "distinct (map cp_name (updateContainerPorts c))" "distinct (map cp_containerPort (updateContainerPorts c))"
    using subseq_distinct [OF subseq_map [OF container_ports_subseq]] by blast+
qed

text \<open>The entries of the port map, by settings.\<close>

lemma in_port_list:
  "(\<forall>e \<in> set (xs @ ys). P e) \<longleftrightarrow> (\<forall>e \<in> set xs. P e) \<and> (\<forall>e \<in> set ys. P e)"
  "(\<forall>e \<in> set (if b then xs else ys). P e) \<longleftrightarrow> (if b then \<forall>e \<in> set xs. P e else \<forall>e \<in> set ys. P e)"
  by auto

lemma container_port_in:
  "\<not> DisableNonTLSListeners c \<Longrightarrow> container_port ''amqp'' 5672 \<in> set (updateContainerPorts c)"
  "\<not> DisableNonTLSListeners c \<Longrightarrow> container_port ''management'' 15672 \<in> set (updateContainerPorts c)"
  "\<not> DisableNonTLSListeners c \<Longrightarrow> container_port ''prometheus'' 15692 \<in> set (updateContainerPorts c)"
  "\<not> DisableNonTLSListeners c \<Longrightarrow> AdditionalPluginEnabled c ''rabbitmq_mqtt'' \<Longrightarrow>
     container_port ''mqtt'' 1883 \<in> set (updateContainerPorts c)"
  "\<not> DisableNonTLSListeners c \<Longrightarrow> AdditionalPluginEnabled c ''rabbitmq_web_mqtt'' \<Longrightarrow>
     container_port ''web-mqtt'' 15675 \<in> set (updateContainerPorts c)"
  "\<not> DisableNonTLSListeners c \<Longrightarrow> AdditionalPluginEnabled c ''rabbitmq_stomp'' \<Longrightarrow>
     container_port ''stomp'' 61613 \<in> set (updateContainerPorts c)"
  "\<not> DisableNonTLSListeners c \<Longrightarrow> AdditionalPluginEnabled c ''rabbitmq_web_stomp'' \<Longrightarrow>
     container_port ''web-stomp'' 15674 \<in> set (updateContainerPorts c)"
  "\<not> DisableNonTLSListeners c \<Longrightarrow> StreamNeeded c \<Longrightarrow>
     container_port ''stream'' 5552 \<in> set (updateContainerPorts c)"
  unfolding container_ports_iff by simp_all

lemma container_tls_port_in:
  "TLSEnabled c \<Longrightarrow> container_port ''amqps'' 5671 \<in> set (updateContainerPorts c)"
  "TLSEnabled c \<Longrightarrow> container_port ''management-tls'' 15671 \<in> set (updateContainerPorts c)"
  "TLSEnabled c \<Longrightarrow> container_port ''prometheus-tls'' 15691 \<in> set (updateContainerPorts c)"
  "TLSEnabled c \<Longrightarrow> AdditionalPluginEnabled c ''rabbitmq_mqtt'' \<Longrightarrow>
     container_port ''mqtts'' 8883 \<in> set (updateContainerPorts c)"
  "TLSEnabled c \<Longrightarrow> AdditionalPluginEnabled c ''rabbitmq_stomp'' \<Longrightarrow>
     container_port ''stomps'' 61614 \<in> set (updateContainerPorts c)"
  "TLSEnabled c \<Longrightarrow> StreamNeeded c \<Longrightarrow> container_port ''streams'' 5551 \<in> set (updateContainerPorts c)"
  "TLSEnabled c \<Longrightarrow> MutualTLSEnabled c \<Longrightarrow> AdditionalPluginEnabled c ''rabbitmq_web_mqtt'' \<Longrightarrow>
     container_port ''web-mqtt-tls'' 15676 \<in> set (updateContainerPorts c)"
  "TLSEnabled c \<Longrightarrow> MutualTLSEnabled c \<Longrightarrow> AdditionalPluginEnabled c ''rabbitmq_web_stomp'' \<Longrightarrow>
     container_port ''web-stomp-tls'' 15673 \<in> set (updateContainerPorts c)"
  unfolding container_ports_iff by simp_all

lemma generated_in_container:
  assumes "TLSEnabled c \<or> \<not> DisableNonTLSListeners c"
  shows "\<forall>e \<in> set (generateServicePortsMap c). container_port (fst e) (sp_port (snd e)) \<in> set (updateContainerPorts c)"
proof (cases "TLSEnabled c")
  case True
  then show ?thesis
    unfolding generateServicePortsMap_def in_port_list list.set ball_simps svc_port_simps
    by (simp add: container_port_in container_tls_port_in)
next
  case False
  with assms MutualTLS_TLS [of c] have "\<not> DisableNonTLSListeners c" "\<not> MutualTLSEnabled c" by auto
  with False show ?thesis
    unfolding generateServicePortsMap_def in_port_list list.set ball_simps svc_port_simps
    by (simp add: container_port_in)
qed

text \<open>
  C27. The ports of the client service lead to ports that the RabbitMQ container declares, under
  the same names and numbers, and the readiness probe asks for one of them. The exception is
  a cluster that turns the plain listeners off without TLS, whose Prometheus port has no
  counterpart; \<open>reconcileTLS\<close> refuses it. No container port is declared twice.
\<close>

theorem service_ports_reach_container:
  assumes "TLSEnabled c \<or> \<not> DisableNonTLSListeners c"
  shows "(\<forall>(n, p) \<in> set (generateServicePortsMap c).
        container_port n (sp_port p) \<in> set (updateContainerPorts c) \<and> sp_targetPort p = IntPort (sp_port p))
    \<and> (\<exists>n. c_readinessProbe (rabbitmq_container c res grace) \<noteq> None
          \<and> pb_port (the (c_readinessProbe (rabbitmq_container c res grace))) = NamedPort n
          \<and> n \<in> cp_name ` set (updateContainerPorts c))
    \<and> distinct (map cp_name (updateContainerPorts c))
    \<and> distinct (map cp_containerPort (updateContainerPorts c))"
proof -
  have "\<forall>(n, p) \<in> set (generateServicePortsMap c).
        container_port n (sp_port p) \<in> set (updateContainerPorts c) \<and> sp_targetPort p = IntPort (sp_port p)"
    using generated_in_container [OF assms] generated_entries_ok by (auto simp: port_entry_ok_def)
  moreover have "container_port (if DisableNonTLSListeners c then ''amqps'' else ''amqp'')
      (if DisableNonTLSListeners c then 5671 else 5672) \<in> set (updateContainerPorts c)"
    by (simp add: container_ports_iff)
  then have "(if DisableNonTLSListeners c then ''amqps'' else ''amqp'') \<in> cp_name ` set (updateContainerPorts c)"
    by (rule image_eqI [rotated]) simp
  ultimately show ?thesis
    using container_names_distinct [of c] by (simp add: rabbitmq_container_def)
qed

theorem service_ports_reach_container_witness:
  "container_port ''mqtts'' 8883 \<in> set (updateContainerPorts full_cluster)
     \<and> (''mqtts'', snd (svc_port ''mqtts'' 8883 ''mqtts'')) \<in> set (generateServicePortsMap full_cluster)"
proof -
  have "TLSEnabled full_cluster" by (simp add: full_cluster_def TLSEnabled_def SecretTLSEnabled_def)
  then have "TLSEnabled full_cluster \<or> \<not> DisableNonTLSListeners full_cluster" ..
  note all = service_ports_reach_container [OF this, THEN conjunct1]
  have "svc_port ''mqtts'' 8883 ''mqtts'' \<in> set (generateServicePortsMap full_cluster)"
    using \<open>TLSEnabled full_cluster\<close>
    by (simp add: generateServicePortsMap_def full_cluster_def AdditionalPluginEnabled_def)
  with bspec [OF all this] show ?thesis by (simp add: svc_port_def)
qed

text \<open>
  C28. The mounts after an override: whatever list the merge leaves, sorting it only permutes it,
  and afterwards the mount of \<open>/var/lib/rabbitmq/\<close> is the first and that of the data below it
  the second, if the list has them. Only a list of one persistence mount makes it panic.
\<close>

theorem sortVolumeMounts_correct:
  "(\<forall>ms'. sortVolumeMounts ms = Ok ms' \<longrightarrow> mset ms' = mset ms
      \<and> (''rabbitmq-erlang-cookie'' \<in> vm_name ` set ms \<longrightarrow> vm_name (ms' ! 0) = ''rabbitmq-erlang-cookie'')
      \<and> (''persistence'' \<in> vm_name ` set ms \<longrightarrow> 1 < length ms' \<and> vm_name (ms' ! 1) = ''persistence''))
   \<and> ((\<exists>ms'. sortVolumeMounts ms = Ok ms') \<longleftrightarrow> \<not> (length ms = 1 \<and> vm_name (hd ms) = ''persistence''))"
proof (intro conjI allI impI)
  fix ms'
  assume sort: "sortVolumeMounts ms = Ok ms'"
  then have loop: "swap_loop mount_slot vm_name [0..<length ms] ms = Ok ms'" by (simp add: sortVolumeMounts_def)
  show same: "mset ms' = mset ms" by (rule swap_loop_mset [OF loop])
  have inv: "mounts_done (length ms) ms'"
    using loop
  proof (rule swap_loop_invariant)
    show "mounts_done 0 ms" by (simp add: mounts_done_def)
    show "mounts_done (Suc k) zs" if "k < length ms" "mounts_done k zs" "mount_slot (vm_name (zs ! k)) = None" for k zs
      using that by (auto simp: mounts_done_def mount_slot_None less_Suc_eq)
    show "mounts_done (Suc k) (zs[j := zs ! k, k := zs ! j])"
      if "k < length ms" "length zs = length ms" "mounts_done k zs" "mount_slot (vm_name (zs ! k)) = Some j" "j < length ms"
      for k zs j
      using that by (intro mounts_done_step) simp_all
  qed simp_all
  have len: "length ms = length ms'" using same by (metis mset_eq_length)
  have names: "vm_name ` set ms = vm_name ` set ms'" using same by (metis set_mset_mset)
  {
    assume "''rabbitmq-erlang-cookie'' \<in> vm_name ` set ms"
    then obtain i where "i < length ms'" "vm_name (ms' ! i) = ''rabbitmq-erlang-cookie''"
      unfolding names by (auto simp: in_set_conv_nth)
    with inv len show "vm_name (ms' ! 0) = ''rabbitmq-erlang-cookie''" by (auto simp: mounts_done_def)
  }
  {
    assume "''persistence'' \<in> vm_name ` set ms"
    then obtain i where "i < length ms'" "vm_name (ms' ! i) = ''persistence''"
      unfolding names by (auto simp: in_set_conv_nth)
    with inv len show "1 < length ms'" "vm_name (ms' ! 1) = ''persistence''"
      by (auto simp: mounts_done_def defaultPVCName_def)
  }
next
  show "(\<exists>ms'. sortVolumeMounts ms = Ok ms') \<longleftrightarrow> \<not> (length ms = 1 \<and> vm_name (hd ms) = ''persistence'')"
  proof (cases "length ms = 1 \<and> vm_name (hd ms) = ''persistence''")
    case True
    then obtain m where "ms = [m]" "vm_name m = ''persistence''" by (auto simp: length_Suc_conv)
    then show ?thesis by (simp add: sortVolumeMounts_def mount_slot_def defaultPVCName_def swap_at_def)
  next
    case False
    have "k < length ms" if "x \<in> set ms" "mount_slot (vm_name x) = Some k" for x k
      using False that by (cases ms; cases "tl ms") (auto simp: mount_slot_Some defaultPVCName_def)
    then have "\<exists>ms'. swap_loop mount_slot vm_name [0..<length ms] ms = Ok ms'"
      by (intro swap_loop_total) auto
    with False show ?thesis by (simp add: sortVolumeMounts_def)
  qed
qed

theorem sortVolumeMounts_correct_witness:
  "\<exists>ms'. sortVolumeMounts [mount ''persistence'' ''/a'', mount ''x'' ''/b'', mount ''rabbitmq-erlang-cookie'' ''/c''] = Ok ms'
     \<and> vm_name (ms' ! 0) = ''rabbitmq-erlang-cookie'' \<and> vm_name (ms' ! 1) = ''persistence''"
proof -
  let ?ms = "[mount ''persistence'' ''/a'', mount ''x'' ''/b'', mount ''rabbitmq-erlang-cookie'' ''/c'']"
  note all = sortVolumeMounts_correct [of ?ms]
  from all [THEN conjunct2] obtain ms' where "sortVolumeMounts ?ms = Ok ms'" by auto
  with all [THEN conjunct1, rule_format, OF this] show ?thesis by simp
qed

text \<open>
  C29. The variables after an override: sorting permutes the list, never panics when it has three
  entries, and puts the three variables first if they occur in their usual order. In another
  order it may fail to, as the comment in \<open>patchPodSpec\<close> does not say: the swap that moves one
  of them to its place can push another one behind the position of the loop.
\<close>

theorem sortEnvVar_correct:
  "(\<forall>env'. sortEnvVar env = Ok env' \<longrightarrow> mset env' = mset env)
   \<and> (3 \<le> length env \<longrightarrow> (\<exists>env'. sortEnvVar env = Ok env'))
   \<and> (\<forall>env' p n s. sortEnvVar env = Ok env' \<and> distinct (map ev_name env) \<and> p < n \<and> n < s \<and> s < length env
        \<and> ev_name (env ! p) = ''MY_POD_NAME'' \<and> ev_name (env ! n) = ''MY_POD_NAMESPACE''
        \<and> ev_name (env ! s) = ''K8S_SERVICE_NAME'' \<longrightarrow>
        map ev_name (take 3 env') = [''MY_POD_NAME'', ''MY_POD_NAMESPACE'', ''K8S_SERVICE_NAME''])
   \<and> (\<exists>k x n p. sortEnvVar [env_value ''K8S_SERVICE_NAME'' k, env_value ''X'' x, env_value ''MY_POD_NAMESPACE'' n,
          env_value ''MY_POD_NAME'' p] =
        Ok [env_value ''MY_POD_NAME'' p, env_value ''X'' x, env_value ''K8S_SERVICE_NAME'' k, env_value ''MY_POD_NAMESPACE'' n])"
proof (intro conjI allI impI)
  show "mset env' = mset env" if "sortEnvVar env = Ok env'" for env'
    using swap_loop_mset that by (auto simp: sortEnvVar_def)
  show "\<exists>env'. sortEnvVar env = Ok env'" if "3 \<le> length env"
    unfolding sortEnvVar_def using that by (intro swap_loop_total) (auto simp: env_slot_Some)
  show "map ev_name (take 3 env') = [''MY_POD_NAME'', ''MY_POD_NAMESPACE'', ''K8S_SERVICE_NAME'']"
    if prem: "sortEnvVar env = Ok env' \<and> distinct (map ev_name env) \<and> p < n \<and> n < s \<and> s < length env
        \<and> ev_name (env ! p) = ''MY_POD_NAME'' \<and> ev_name (env ! n) = ''MY_POD_NAMESPACE''
        \<and> ev_name (env ! s) = ''K8S_SERVICE_NAME''" for env' p n s
  proof -
    from prem have loop: "swap_loop env_slot ev_name [0..<length env] env = Ok env'" by (simp add: sortEnvVar_def)
    have dist: "distinct (map ev_name zs)" if "mset zs = mset env" for zs
      using prem that by (metis mset_map mset_eq_imp_distinct_iff)
    have "env_done p n s (length env) env'"
      using loop
    proof (rule swap_loop_invariant)
      show "env_done p n s 0 env" using prem by (simp add: env_done_def)
      show "env_done p n s (Suc k) zs" if "k < length env" "length zs = length env" "mset zs = mset env"
        "env_done p n s k zs" "env_slot (ev_name (zs ! k)) = None" for k zs
        using env_done_step(2) [OF that(4) _ _ _ _ dist [OF that(3)] that(5)] prem that by simp
      show "env_done p n s (Suc k) (zs[j := zs ! k, k := zs ! j])" if "k < length env" "length zs = length env"
        "mset zs = mset env" "env_done p n s k zs" "env_slot (ev_name (zs ! k)) = Some j" for k zs j
        using env_done_step(1) [OF that(4) _ _ _ _ dist [OF that(3)] that(5)] prem that by simp
    qed simp_all
    moreover have "length env' = length env" using swap_loop_mset [OF loop] by (metis mset_eq_length)
    moreover have "take 3 env' = [env' ! 0, env' ! 1, env' ! 2]" if "3 \<le> length env'"
      using that by (intro nth_equalityI) (auto simp: less_Suc_eq numeral_3_eq_3 numeral_2_eq_2 nth_Cons')
    ultimately show ?thesis using prem by (simp add: env_done_def)
  qed
  show "\<exists>k x n p. sortEnvVar [env_value ''K8S_SERVICE_NAME'' k, env_value ''X'' x, env_value ''MY_POD_NAMESPACE'' n,
          env_value ''MY_POD_NAME'' p] =
        Ok [env_value ''MY_POD_NAME'' p, env_value ''X'' x, env_value ''K8S_SERVICE_NAME'' k, env_value ''MY_POD_NAMESPACE'' n]"
    by (simp add: sortEnvVar_def env_slot_def env_value_def swap_at_def upt_rec)
qed

theorem sortEnvVar_correct_witness:
  "\<exists>env'. sortEnvVar (env_value ''A'' [] # envVarsK8sObjects full_cluster) = Ok env'
     \<and> map ev_name (take 3 env') = [''MY_POD_NAME'', ''MY_POD_NAMESPACE'', ''K8S_SERVICE_NAME'']"
proof -
  let ?env = "env_value ''A'' [] # envVarsK8sObjects full_cluster"
  note all = sortEnvVar_correct [of ?env]
  obtain env' where env': "sortEnvVar ?env = Ok env'" using all by (auto simp: envVarsK8sObjects_def)
  have names: "map ev_name ?env = [''A'', ''MY_POD_NAME'', ''MY_POD_NAMESPACE'', ''K8S_SERVICE_NAME'']"
    by (simp add: envVarsK8sObjects_def env_value_def env_field_def)
  have dist: "distinct (map ev_name ?env)" unfolding names by simp
  have at: "ev_name (?env ! 1) = ''MY_POD_NAME''" "ev_name (?env ! 2) = ''MY_POD_NAMESPACE''"
    "ev_name (?env ! 3) = ''K8S_SERVICE_NAME''"
    by (simp_all add: envVarsK8sObjects_def env_value_def env_field_def)
  have len: "3 < length ?env" by (simp add: envVarsK8sObjects_def)
  have order: "(1::nat) < 2" "(2::nat) < 3" by simp_all
  have "sortEnvVar ?env = Ok env' \<and> distinct (map ev_name ?env) \<and> (1::nat) < 2 \<and> (2::nat) < 3 \<and> 3 < length ?env
      \<and> ev_name (?env ! 1) = ''MY_POD_NAME'' \<and> ev_name (?env ! 2) = ''MY_POD_NAMESPACE''
      \<and> ev_name (?env ! 3) = ''K8S_SERVICE_NAME''"
    by (intro conjI; fact)
  from all [THEN conjunct2, THEN conjunct2, THEN conjunct1, THEN spec, THEN spec, THEN spec, THEN spec, THEN mp, OF this]
  have "map ev_name (take 3 env') = [''MY_POD_NAME'', ''MY_POD_NAMESPACE'', ''K8S_SERVICE_NAME'']" .
  with env' show ?thesis by (intro exI [of _ env'] conjI)
qed

text \<open>
  C25. A stateful set created and updated for a cluster without overrides: its selector and the
  selector of the headless service select the pods of its template, it is governed by the
  headless service, it has the wanted number of replicas, one claim that requests the wanted
  storage unless that is zero, and no owner reference of a claim blocks the deletion of the
  owner; a second update changes nothing.
\<close>

theorem statefulset_created:
  assumes "lib_ok L" and "statefulset_Build L rnd c = Ok x" and "statefulset_Update L c x = Ok y"
    and "ov_statefulSet (sp_override (cl_spec c)) = None"
  shows "om_name (sts_meta y) = ChildResourceName c stsSuffix
    \<and> statefulset_Update L c y = Ok y
    \<and> sts_replicas (sts_spec y) = sp_replicas (cl_spec c)
    \<and> (\<exists>sel. sts_selector (sts_spec y) = Some sel
          \<and> selects (ls_matchLabels sel) (om_labels (pt_meta (sts_template (sts_spec y)))))
    \<and> selects (ss_selector (headless_spec c)) (om_labels (pt_meta (sts_template (sts_spec y))))
    \<and> sts_serviceName (sts_spec y) = ChildResourceName c headlessServiceSuffix
    \<and> (\<exists>q. pe_storage (sp_persistence (cl_spec c)) = Some q
          \<and> map (\<lambda>p. quantity_entry (rr_requests (pvcs_resources (pvc_spec p))) ''storage'')
              (sts_volumeClaimTemplates (sts_spec y)) = (if q = 0 then [] else [q]))
    \<and> (\<forall>p \<in> set (sts_volumeClaimTemplates (sts_spec y)). \<forall>r \<in> set (om_ownerReferences (pvc_meta p)).
          or_blockOwnerDeletion r = Some False)"
proof -
  have settled: "sts_settled c" using assms(4) by (simp add: sts_settled_def)
  note created = statefulset.created_object [OF assms(1-3)]
  from assms(2) obtain claims where claims: "persistentVolumeClaim L c = Ok claims"
    and x: "sts_volumeClaimTemplates (sts_spec x) = claims"
      "sts_selector (sts_spec x) = Some \<lparr>ls_matchLabels = LabelSelector_of (cluster_name c), ls_matchExpressions = []\<rparr>"
      "sts_serviceName (sts_spec x) = ChildResourceName c headlessServiceSuffix"
    using assms(4) by (auto simp: statefulset_Build_def bind_ok_eq_Ok Let_def)
  from assms(3) obtain ts t where ts: "updatePersistenceStorageCapacity claims (pe_storage (sp_persistence (cl_spec c))) = Ok ts"
    and t: "podTemplateSpec c (om_annotations (pt_meta (sts_template (sts_spec x)))) = Ok t"
    and spec: "sts_spec y = settled_spec c ts t (sts_spec x)"
    using x by (auto simp: statefulset_Update_Ok [OF settled] settled_template_no_spec(2) [OF assms(4)])
  have labels: "om_labels (pt_meta (sts_template (sts_spec y))) = Label (cluster_name c)"
    using t by (auto simp: spec podTemplateSpec_def bind_ok_eq_Ok pod_template_def)
  obtain q where q: "pe_storage (sp_persistence (cl_spec c)) = Some q"
    using claims by (auto simp: persistentVolumeClaim_def bind_ok_eq_Ok)
  have ts_eq: "ts = claims \<and> map (\<lambda>p. quantity_entry (rr_requests (pvcs_resources (pvc_spec p))) ''storage'') claims
      = (if q = 0 then [] else [q])
      \<and> (\<forall>p \<in> set claims. \<forall>r \<in> set (om_ownerReferences (pvc_meta p)). or_blockOwnerDeletion r = Some False)"
  proof (cases "q = 0")
    case True
    then show ?thesis using ts claims q by (simp add: persistentVolumeClaim_def)
  next
    case False
    then obtain m where cl: "claims = [disableBlockOwnerDeletion \<lparr>pvc_meta = m,
              pvc_spec = \<lparr>pvcs_resources = \<lparr>rr_limits = None, rr_requests = Some [''storage'' \<mapsto> q]\<rparr>,
                pvcs_accessModes = [''ReadWriteOnce''],
                pvcs_storageClassName = pe_storageClassName (sp_persistence (cl_spec c))\<rparr>\<rparr>]"
      using claims q by (auto simp: persistentVolumeClaim_def bind_ok_eq_Ok)
    with False ts q show ?thesis by (auto simp: disableBlockOwnerDeletion_def split: if_splits)
  qed
  have fields: "sts_replicas (sts_spec y) = sp_replicas (cl_spec c)" "sts_selector (sts_spec y) = sts_selector (sts_spec x)"
    "sts_serviceName (sts_spec y) = sts_serviceName (sts_spec x)"
    by (simp_all add: spec settled_spec_def override_fields_def assms(4))
  show ?thesis
    using created settled fields x labels q ts_eq selector_selects_label [of "cluster_name c"]
    by (simp add: spec headless_spec_def)
qed

theorem statefulset_created_witness:
  "\<exists>x y. statefulset_Build sample_lib (\<lambda>i. Ok (\<lambda>n. 0)) full_cluster = Ok x
     \<and> statefulset_Update sample_lib full_cluster x = Ok y \<and> statefulset_Update sample_lib full_cluster y = Ok y"
proof -
  let ?rnd = "\<lambda>i::nat. Ok (\<lambda>n::nat. 0 :: 8 word)"
  have ov: "ov_statefulSet (sp_override (cl_spec full_cluster)) = None"
    by (simp add: full_cluster_def default_spec_def)
  obtain claims where claims: "persistentVolumeClaim sample_lib full_cluster = Ok claims"
    using sample_claims [of full_cluster] by (auto simp: full_cluster_def default_spec_def)
  obtain x where x: "statefulset_Build sample_lib ?rnd full_cluster = Ok x"
    by (simp add: statefulset_Build_def claims Let_def)
  then have meta: "om_ownerReferences (sts_meta x) = []" and templates: "sts_volumeClaimTemplates (sts_spec x) = claims"
    by (auto simp: statefulset_Build_def claims Let_def)
  obtain ts where ts: "updatePersistenceStorageCapacity claims (pe_storage (sp_persistence (cl_spec full_cluster))) = Ok ts"
    using claims by (auto simp: persistentVolumeClaim_def full_cluster_def default_spec_def sample_set_owner
        disableBlockOwnerDeletion_def defaultPVCName_def split: if_splits)
  have "sts_settled full_cluster" by (simp add: sts_settled_def ov)
  then obtain y where y: "statefulset_Update sample_lib full_cluster x = Ok y"
    unfolding statefulset_Update_Ok [OF \<open>sts_settled full_cluster\<close>]
    using ts full_cluster_template sample_set_owner [of "sts_new_meta full_cluster (sts_meta x)"] meta templates by auto
  from statefulset_created [OF sample_lib_ok x y ov] have "statefulset_Update sample_lib full_cluster y = Ok y" by blast
  with x y show ?thesis by (intro exI conjI)
qed

definition pod_host :: "RabbitmqCluster \<Rightarrow> nat \<Rightarrow> string" where
  "pod_host c i = ChildResourceName c stsSuffix @ ''-'' @ itoa (int i) @ ''.''
     @ ChildResourceName c headlessServiceSuffix @ ''.'' @ cluster_namespace c"

lemma itoa_chars: "CHR '','' \<notin> set (itoa (int i))"
proof
  assume "CHR '','' \<in> set (itoa (int i))"
  then have "CHR '','' \<in> set (nat_digits i)" by (simp add: itoa_def)
  with nat_digits_range obtain k :: nat where "k \<in> {48..<58}" "CHR '','' = char_of k" by blast
  then have "of_char (CHR '','') = k" by simp
  with \<open>k \<in> {48..<58}\<close> show False by simp
qed

lemma join_comma: "concat (map (\<lambda>x. '','' @ f x) xs) = (if xs = [] then [] else '','' @ join (map f xs) '','')"
  by (induction xs) (auto simp: neq_Nil_conv)

text \<open>
  C30. The alternative names of the certificate that Vault issues: split at the commas they are
  the DNS names of the pods of the stateful set under the headless service, in order, one for
  every replica, if the names of the cluster and of its namespace hold no comma.
\<close>

theorem pod_host_names_roundtrip:
  assumes "CHR '','' \<notin> set (cluster_name c)" and "CHR '','' \<notin> set (cluster_namespace c)"
    and "sp_replicas (cl_spec c) = Some n" and "0 < n"
  shows "split_on CHR '','' (podHostNames c) = map (pod_host c) [0..<nat n]
    \<and> length (split_on CHR '','' (podHostNames c)) = nat n"
proof -
  have "podHostNames c = trim_prefix (concat (map (\<lambda>i. '','' @ pod_host c i) [0..<nat n])) '',''"
    by (simp add: podHostNames_def pod_host_def assms(3) Let_def)
  also have "\<dots> = join (map (pod_host c) [0..<nat n]) '',''"
    using assms(4) unfolding join_comma by (simp add: trim_prefix_def has_prefix_def)
  finally have eq: "podHostNames c = join (map (pod_host c) [0..<nat n]) '',''" .
  have "CHR '','' \<notin> set (pod_host c i)" for i
    using assms(1,2) itoa_chars [of i] by (simp add: pod_host_def stsSuffix_def headlessServiceSuffix_def)
  then have "split_on CHR '','' (podHostNames c) = map (pod_host c) [0..<nat n]"
    unfolding eq using assms(4) by (intro split_on_join) auto
  then show ?thesis by simp
qed

theorem pod_host_names_roundtrip_witness:
  "split_on CHR '','' (podHostNames full_cluster) = [''rabbit-server-0.rabbit-nodes.ns'']"
proof -
  have "split_on CHR '','' (podHostNames full_cluster) = map (pod_host full_cluster) [0..<nat 1]"
    using pod_host_names_roundtrip [of full_cluster 1] by (simp add: full_cluster_def default_spec_def)
  moreover have "pod_host full_cluster 0 = ''rabbit-server-0.rabbit-nodes.ns''"
    by (simp add: pod_host_def stsSuffix_def headlessServiceSuffix_def full_cluster_def itoa_def nat_digits.simps bit_Suc_0_iff
        char_of_def)
  ultimately show ?thesis by simp
qed

end
