(* ===== verification/Op_Builders.thy ===== *)
theory Op_Builders
  imports Op_StatefulSet
begin

text \<open>
  \<open>internal/resource/rabbitmq_resource_builder.go\<close>: the list of builders that a
  reconciliation runs through, and the builders behind their common Go interface. The objects
  of all kinds are one type, \<open>api_object\<close>, as they are behind \<open>client.Object\<close>.
\<close>

section \<open>Objects\<close>

datatype kind = ServiceKind | SecretKind | ConfigMapKind | ServiceAccountKind | RoleKind | RoleBindingKind
  | StatefulSetKind | EndpointsKind | PodKind | PVCKind | ClusterKind

datatype api_object =
    ServiceObject Service
  | SecretObject Secret
  | ConfigMapObject ConfigMap
  | ServiceAccountObject ServiceAccount
  | RoleObject Role
  | RoleBindingObject RoleBinding
  | StatefulSetObject StatefulSet
  | EndpointsObject Endpoints
  | PodObject Pod
  | PVCObject PersistentVolumeClaim
  | ClusterObject RabbitmqCluster

fun kind_of :: "api_object \<Rightarrow> kind" where
  "kind_of (ServiceObject x) = ServiceKind"
| "kind_of (SecretObject x) = SecretKind"
| "kind_of (ConfigMapObject x) = ConfigMapKind"
| "kind_of (ServiceAccountObject x) = ServiceAccountKind"
| "kind_of (RoleObject x) = RoleKind"
| "kind_of (RoleBindingObject x) = RoleBindingKind"
| "kind_of (StatefulSetObject x) = StatefulSetKind"
| "kind_of (EndpointsObject x) = EndpointsKind"
| "kind_of (PodObject x) = PodKind"
| "kind_of (PVCObject x) = PVCKind"
| "kind_of (ClusterObject x) = ClusterKind"

fun object_meta :: "api_object \<Rightarrow> ObjectMeta" where
  "object_meta (ServiceObject x) = svc_meta x"
| "object_meta (SecretObject x) = sec_meta x"
| "object_meta (ConfigMapObject x) = cm_meta x"
| "object_meta (ServiceAccountObject x) = sa_meta x"
| "object_meta (RoleObject x) = role_meta x"
| "object_meta (RoleBindingObject x) = rb_meta x"
| "object_meta (StatefulSetObject x) = sts_meta x"
| "object_meta (EndpointsObject x) = ep_meta x"
| "object_meta (PodObject x) = pod_meta x"
| "object_meta (PVCObject x) = pvc_meta x"
| "object_meta (ClusterObject x) = cl_meta x"

fun with_object_meta :: "ObjectMeta \<Rightarrow> api_object \<Rightarrow> api_object" where
  "with_object_meta m (ServiceObject x) = ServiceObject (x\<lparr>svc_meta := m\<rparr>)"
| "with_object_meta m (SecretObject x) = SecretObject (x\<lparr>sec_meta := m\<rparr>)"
| "with_object_meta m (ConfigMapObject x) = ConfigMapObject (x\<lparr>cm_meta := m\<rparr>)"
| "with_object_meta m (ServiceAccountObject x) = ServiceAccountObject (x\<lparr>sa_meta := m\<rparr>)"
| "with_object_meta m (RoleObject x) = RoleObject (x\<lparr>role_meta := m\<rparr>)"
| "with_object_meta m (RoleBindingObject x) = RoleBindingObject (x\<lparr>rb_meta := m\<rparr>)"
| "with_object_meta m (StatefulSetObject x) = StatefulSetObject (x\<lparr>sts_meta := m\<rparr>)"
| "with_object_meta m (EndpointsObject x) = EndpointsObject (x\<lparr>ep_meta := m\<rparr>)"
| "with_object_meta m (PodObject x) = PodObject (x\<lparr>pod_meta := m\<rparr>)"
| "with_object_meta m (PVCObject x) = PVCObject (x\<lparr>pvc_meta := m\<rparr>)"
| "with_object_meta m (ClusterObject x) = ClusterObject (x\<lparr>cl_meta := m\<rparr>)"

definition conversion_panic :: "'a outcome" where
  "conversion_panic = Panic ''interface conversion''"

lemma conversion_panic_not_Ok [simp]: "conversion_panic \<noteq> Ok x"
  by (simp add: conversion_panic_def)

text \<open>The type assertions \<open>object.(*T)\<close>.\<close>

definition as_service :: "api_object \<Rightarrow> Service outcome" where
  "as_service x = (case x of ServiceObject y \<Rightarrow> Ok y | _ \<Rightarrow> conversion_panic)"

definition as_secret :: "api_object \<Rightarrow> Secret outcome" where
  "as_secret x = (case x of SecretObject y \<Rightarrow> Ok y | _ \<Rightarrow> conversion_panic)"

definition as_configmap :: "api_object \<Rightarrow> ConfigMap outcome" where
  "as_configmap x = (case x of ConfigMapObject y \<Rightarrow> Ok y | _ \<Rightarrow> conversion_panic)"

definition as_service_account :: "api_object \<Rightarrow> ServiceAccount outcome" where
  "as_service_account x = (case x of ServiceAccountObject y \<Rightarrow> Ok y | _ \<Rightarrow> conversion_panic)"

definition as_role :: "api_object \<Rightarrow> Role outcome" where
  "as_role x = (case x of RoleObject y \<Rightarrow> Ok y | _ \<Rightarrow> conversion_panic)"

definition as_role_binding :: "api_object \<Rightarrow> RoleBinding outcome" where
  "as_role_binding x = (case x of RoleBindingObject y \<Rightarrow> Ok y | _ \<Rightarrow> conversion_panic)"

definition as_statefulset :: "api_object \<Rightarrow> StatefulSet outcome" where
  "as_statefulset x = (case x of StatefulSetObject y \<Rightarrow> Ok y | _ \<Rightarrow> conversion_panic)"

definition as_endpoints :: "api_object \<Rightarrow> Endpoints outcome" where
  "as_endpoints x = (case x of EndpointsObject y \<Rightarrow> Ok y | _ \<Rightarrow> conversion_panic)"

definition as_pvc :: "api_object \<Rightarrow> PersistentVolumeClaim outcome" where
  "as_pvc x = (case x of PVCObject y \<Rightarrow> Ok y | _ \<Rightarrow> conversion_panic)"

lemma as_kind_Ok:
  "as_service x = Ok y1 \<longleftrightarrow> x = ServiceObject y1"
  "as_secret x = Ok y2 \<longleftrightarrow> x = SecretObject y2"
  "as_configmap x = Ok y3 \<longleftrightarrow> x = ConfigMapObject y3"
  "as_service_account x = Ok y4 \<longleftrightarrow> x = ServiceAccountObject y4"
  "as_role x = Ok y5 \<longleftrightarrow> x = RoleObject y5"
  "as_role_binding x = Ok y6 \<longleftrightarrow> x = RoleBindingObject y6"
  "as_statefulset x = Ok y7 \<longleftrightarrow> x = StatefulSetObject y7"
  "as_endpoints x = Ok y8 \<longleftrightarrow> x = EndpointsObject y8"
  "as_pvc x = Ok y9 \<longleftrightarrow> x = PVCObject y9"
  by (cases x; simp add: as_service_def as_secret_def as_configmap_def as_service_account_def as_role_def as_role_binding_def as_statefulset_def as_endpoints_def as_pvc_def)+

section \<open>The builders\<close>

datatype builder = HeadlessServiceBuilder | ServiceBuilder | ErlangCookieBuilder | DefaultUserSecretBuilder
  | PluginsConfigMapBuilder | ServerConfigMapBuilder | ServiceAccountBuilder | RoleBuilder
  | RoleBindingBuilder | StatefulSetBuilder

text \<open>
  The list of the source; \<open>append(builders[:3], builders[4:]...)\<close> drops the fourth.
\<close>

definition ResourceBuilders :: "RabbitmqCluster \<Rightarrow> builder list" where
  "ResourceBuilders c =
     (let builders = [HeadlessServiceBuilder, ServiceBuilder, ErlangCookieBuilder, DefaultUserSecretBuilder,
            PluginsConfigMapBuilder, ServerConfigMapBuilder, ServiceAccountBuilder, RoleBuilder,
            RoleBindingBuilder, StatefulSetBuilder]
      in if VaultDefaultUserSecretEnabled c then take 3 builders @ drop (3 + 1) builders else builders)"

definition UpdateMayRequireStsRecreate :: "builder \<Rightarrow> bool" where
  "UpdateMayRequireStsRecreate b = (b = StatefulSetBuilder)"

text \<open>The methods behind the interface: each builder's own, on objects of its own kind.\<close>

definition wrap_ok :: "('a \<Rightarrow> 'b) \<Rightarrow> 'a outcome \<Rightarrow> 'b outcome" where
  "wrap_ok f m = bind_ok m (\<lambda>x. Ok (f x))"

fun builder_Build :: "lib \<Rightarrow> rand_source \<Rightarrow> builder \<Rightarrow> RabbitmqCluster \<Rightarrow> api_object outcome" where
  "builder_Build L rnd HeadlessServiceBuilder c = wrap_ok ServiceObject (headless_Build L rnd c)"
| "builder_Build L rnd ServiceBuilder c = wrap_ok ServiceObject (service_Build L rnd c)"
| "builder_Build L rnd ErlangCookieBuilder c = wrap_ok SecretObject (cookie_Build L rnd c)"
| "builder_Build L rnd DefaultUserSecretBuilder c = wrap_ok SecretObject (default_user_Build L rnd c)"
| "builder_Build L rnd PluginsConfigMapBuilder c = wrap_ok ConfigMapObject (plugins_Build L rnd c)"
| "builder_Build L rnd ServerConfigMapBuilder c = wrap_ok ConfigMapObject (config_Build L rnd c)"
| "builder_Build L rnd ServiceAccountBuilder c = wrap_ok ServiceAccountObject (service_account_Build L rnd c)"
| "builder_Build L rnd RoleBuilder c = wrap_ok RoleObject (role_Build L rnd c)"
| "builder_Build L rnd RoleBindingBuilder c = wrap_ok RoleBindingObject (role_binding_Build L rnd c)"
| "builder_Build L rnd StatefulSetBuilder c = wrap_ok StatefulSetObject (statefulset_Build L rnd c)"

fun builder_Update :: "lib \<Rightarrow> builder \<Rightarrow> RabbitmqCluster \<Rightarrow> api_object \<Rightarrow> api_object outcome" where
  "builder_Update L HeadlessServiceBuilder c x =
     wrap_ok ServiceObject (bind_ok (as_service x) (headless_Update L c))"
| "builder_Update L ServiceBuilder c x =
     wrap_ok ServiceObject (bind_ok (as_service x) (service_Update L c))"
| "builder_Update L ErlangCookieBuilder c x =
     wrap_ok SecretObject (bind_ok (as_secret x) (cookie_Update L c))"
| "builder_Update L DefaultUserSecretBuilder c x =
     wrap_ok SecretObject (bind_ok (as_secret x) (default_user_Update L c))"
| "builder_Update L PluginsConfigMapBuilder c x =
     wrap_ok ConfigMapObject (bind_ok (as_configmap x) (plugins_Update L c))"
| "builder_Update L ServerConfigMapBuilder c x =
     wrap_ok ConfigMapObject (bind_ok (as_configmap x) (config_Update L c))"
| "builder_Update L ServiceAccountBuilder c x =
     wrap_ok ServiceAccountObject (bind_ok (as_service_account x) (service_account_Update L c))"
| "builder_Update L RoleBuilder c x =
     wrap_ok RoleObject (bind_ok (as_role x) (role_Update L c))"
| "builder_Update L RoleBindingBuilder c x =
     wrap_ok RoleBindingObject (bind_ok (as_role_binding x) (role_binding_Update L c))"
| "builder_Update L StatefulSetBuilder c x =
     wrap_ok StatefulSetObject (bind_ok (as_statefulset x) (statefulset_Update L c))"

text \<open>The kind and the name of the object a builder is responsible for.\<close>

fun builder_kind :: "builder \<Rightarrow> kind" where
  "builder_kind HeadlessServiceBuilder = ServiceKind"
| "builder_kind ServiceBuilder = ServiceKind"
| "builder_kind ErlangCookieBuilder = SecretKind"
| "builder_kind DefaultUserSecretBuilder = SecretKind"
| "builder_kind PluginsConfigMapBuilder = ConfigMapKind"
| "builder_kind ServerConfigMapBuilder = ConfigMapKind"
| "builder_kind ServiceAccountBuilder = ServiceAccountKind"
| "builder_kind RoleBuilder = RoleKind"
| "builder_kind RoleBindingBuilder = RoleBindingKind"
| "builder_kind StatefulSetBuilder = StatefulSetKind"

fun builder_suffix :: "builder \<Rightarrow> string" where
  "builder_suffix HeadlessServiceBuilder = headlessServiceSuffix"
| "builder_suffix ServiceBuilder = ServiceSuffix"
| "builder_suffix ErlangCookieBuilder = erlangCookieName"
| "builder_suffix DefaultUserSecretBuilder = DefaultUserSecretName"
| "builder_suffix PluginsConfigMapBuilder = PluginsConfigName"
| "builder_suffix ServerConfigMapBuilder = ServerConfigMapName"
| "builder_suffix ServiceAccountBuilder = serviceAccountName"
| "builder_suffix RoleBuilder = roleName"
| "builder_suffix RoleBindingBuilder = roleBindingName"
| "builder_suffix StatefulSetBuilder = stsSuffix"

fun builder_settled :: "builder \<Rightarrow> RabbitmqCluster \<Rightarrow> bool" where
  "builder_settled ServiceBuilder c = service_settled c"
| "builder_settled StatefulSetBuilder c = sts_settled c"
| "builder_settled b c = True"

lemma wrap_ok_Ok: "wrap_ok f m = Ok y \<longleftrightarrow> (\<exists>x. m = Ok x \<and> y = f x)"
  by (auto simp: wrap_ok_def bind_ok_eq_Ok)

section \<open>Lemmas\<close>

text \<open>Whatever a builder makes of an object, it keeps its contract.\<close>

definition builder_contract :: "lib \<Rightarrow> builder \<Rightarrow> RabbitmqCluster \<Rightarrow> api_object \<Rightarrow> bool" where
  "builder_contract L b c y =
     (kind_of y = builder_kind b \<and> om_name (object_meta y) = ChildResourceName c (builder_suffix b)
      \<and> om_namespace (object_meta y) = cluster_namespace c
      \<and> (\<exists>r. controller_of (object_meta y) = Some r \<and> or_uid r = om_uid (cl_meta c) \<and> or_name r = cluster_name c)
      \<and> (builder_settled b c \<longrightarrow> builder_Update L b c y = Ok y))"

lemmas created_objects = headless.created_object service.created_object cookie.created_object
  default_user.created_object plugins.created_object config.created_object service_account.created_object
  role.created_object role_binding.created_object statefulset.created_object

lemma builder_created:
  assumes "lib_ok L" and "builder_Build L rnd b c = Ok x" and "builder_Update L b c x = Ok y"
  shows "builder_contract L b c y"
  using assms(2,3) created_objects [OF assms(1)]
  by (cases b) (auto simp: wrap_ok_Ok bind_ok_eq_Ok as_kind_Ok builder_contract_def)

text \<open>An update of an existing object of the right name.\<close>

lemma builder_Build_name:
  assumes "builder_Build L rnd b c = Ok x"
  shows "kind_of x = builder_kind b \<and> om_name (object_meta x) = ChildResourceName c (builder_suffix b)
    \<and> om_namespace (object_meta x) = cluster_namespace c \<and> om_ownerReferences (object_meta x) = []"
  using assms headless.build_name service.build_name cookie.build_name default_user.build_name
    plugins.build_name config.build_name service_account.build_name role.build_name role_binding.build_name
    statefulset.build_name headless.build_unowned service.build_unowned cookie.build_unowned
    default_user.build_unowned plugins.build_unowned config.build_unowned service_account.build_unowned
    role.build_unowned role_binding.build_unowned statefulset.build_unowned
  by (cases b) (auto simp: wrap_ok_Ok)

lemma ResourceBuilders_set:
  "set (ResourceBuilders c) = UNIV - (if VaultDefaultUserSecretEnabled c then {DefaultUserSecretBuilder} else {})"
  by (auto simp: ResourceBuilders_def Let_def) (case_tac x; simp)+


lemma builder_names_distinct:
  "distinct (map (\<lambda>b. (builder_kind b, ChildResourceName c (builder_suffix b))) (ResourceBuilders c))"
  by (simp add: ResourceBuilders_def Let_def headlessServiceSuffix_def ServiceSuffix_def erlangCookieName_def
      DefaultUserSecretName_def PluginsConfigName_def ServerConfigMapName_def serviceAccountName_def
      roleName_def roleBindingName_def stsSuffix_def)

section \<open>Properties\<close>

text \<open>
  C24. The list of builders: no two of them are responsible for an object of the same kind and
  name, the stateful set comes last and is the only one whose update may require it to be
  created anew, and the secret of the default user is left out exactly if Vault holds its
  credentials.
\<close>

theorem resource_builders_disjoint:
  "distinct (map (\<lambda>b. (builder_kind b, ChildResourceName c (builder_suffix b))) (ResourceBuilders c))
   \<and> last (ResourceBuilders c) = StatefulSetBuilder
   \<and> filter UpdateMayRequireStsRecreate (ResourceBuilders c) = [StatefulSetBuilder]
   \<and> set (ResourceBuilders c) =
       UNIV - (if VaultDefaultUserSecretEnabled c then {DefaultUserSecretBuilder} else {})"
  using builder_names_distinct [of c] ResourceBuilders_set [of c]
  by (simp add: ResourceBuilders_def Let_def UpdateMayRequireStsRecreate_def)



end
