(* ===== verification/Go_Time.thy ===== *)
theory Go_Time
  imports K8s_Types
begin

text \<open>
  What the operator uses of the package \<open>time\<close>: \<open>Format(time.RFC3339)\<close> and
  \<open>time.Parse(time.RFC3339, s)\<close>, for a process in the UTC zone, and the order of strings.
  The operator stores times as annotations and compares two of them as strings; the lemmas
  show when that agrees with the order of the times.
\<close>

section \<open>The calendar\<close>

text \<open>Days of the Gregorian calendar before the first of January of a year, counted from year 0.\<close>

definition days_before_year :: "int \<Rightarrow> int" where
  "days_before_year y = 365 * y + (y + 3) div 4 - (y + 99) div 100 + (y + 399) div 400"

definition leap_year :: "int \<Rightarrow> bool" where
  "leap_year y = (y mod 4 = 0 \<and> (y mod 100 \<noteq> 0 \<or> y mod 400 = 0))"

text \<open>The year of a day: the mean length of a year gives it up to one.\<close>

definition year_of_day :: "int \<Rightarrow> int" where
  "year_of_day d =
     (let y = (400 * d) div 146097
      in if d < days_before_year y then y - 1
         else if days_before_year (y + 1) \<le> d then y + 1 else y)"

definition days_before_month :: "bool \<Rightarrow> int \<Rightarrow> int" where
  "days_before_month leap m =
     (let n = [0, 31, 59, 90, 120, 151, 181, 212, 243, 273, 304, 334, 365] ! nat (m - 1)
      in if leap \<and> 2 < m then n + 1 else n)"

definition month_of_day :: "bool \<Rightarrow> int \<Rightarrow> int" where
  "month_of_day leap yd = int (length (filter (\<lambda>m. days_before_month leap m \<le> yd) [1..12]))"

text \<open>The day of the first of January 1970 in this count.\<close>

definition epoch_day :: int where
  "epoch_day = 719528"

section \<open>Format\<close>

definition digit :: "int \<Rightarrow> char" where
  "digit n = char_of (48 + nat n)"

text \<open>\<open>appendInt\<close>: at least so many digits, padded with zeros.\<close>

definition pad :: "nat \<Rightarrow> int \<Rightarrow> string" where
  "pad w n =
     (let s = nat_digits (nat \<bar>n\<bar>)
      in (if n < 0 then ''-'' else []) @ replicate (w - length s) CHR ''0'' @ s)"

definition format_rfc3339 :: "gotime \<Rightarrow> string" where
  "format_rfc3339 t =
     (let s = t div second;
          d = s div 86400 + epoch_day;
          r = s mod 86400;
          y = year_of_day d;
          yd = d - days_before_year y;
          m = month_of_day (leap_year y) yd
      in pad 4 y @ ''-'' @ pad 2 m @ ''-'' @ pad 2 (yd - days_before_month (leap_year y) m + 1) @ ''T''
         @ pad 2 (r div 3600) @ '':'' @ pad 2 (r div 60 mod 60) @ '':'' @ pad 2 (r mod 60) @ ''Z'')"

section \<open>Parse\<close>

text \<open>
  The helpers \<open>isDigit\<close>, \<open>getnum\<close>, \<open>atoi\<close> and \<open>parseNanoseconds\<close> of the package. The
  hour may have one digit, a fraction may follow the seconds, and a sign may stand before the
  numbers of the zone.
\<close>

definition is_digit :: "char \<Rightarrow> bool" where
  "is_digit c = (48 \<le> (of_char c :: nat) \<and> (of_char c :: nat) \<le> 57)"

definition digit_value :: "char \<Rightarrow> int" where
  "digit_value c = int (of_char c) - 48"

definition number :: "string \<Rightarrow> int" where
  "number s = foldl (\<lambda>acc c. 10 * acc + digit_value c) 0 s"

fun getnum :: "bool \<Rightarrow> string \<Rightarrow> (int \<times> string) option" where
  "getnum fixed (a # b # s) =
     (if \<not> is_digit a then None
      else if \<not> is_digit b then (if fixed then None else Some (digit_value a, b # s))
      else Some (10 * digit_value a + digit_value b, s))"
| "getnum fixed [a] = (if is_digit a \<and> \<not> fixed then Some (digit_value a, []) else None)"
| "getnum fixed [] = None"

definition time_atoi :: "string \<Rightarrow> int option" where
  "time_atoi s =
     (case s of
        [] \<Rightarrow> Some 0
      | c # cs \<Rightarrow>
          if c = CHR ''-'' \<or> c = CHR ''+'' then
            (if list_all is_digit cs then Some ((if c = CHR ''-'' then -1 else 1) * number cs) else None)
          else if list_all is_digit s then Some (number s) else None)"

definition expect :: "char \<Rightarrow> string \<Rightarrow> string option" where
  "expect c s = (case s of [] \<Rightarrow> None | x # xs \<Rightarrow> if x = c then Some xs else None)"

definition in_range :: "int \<Rightarrow> int \<Rightarrow> (int \<times> string) option \<Rightarrow> (int \<times> string) option" where
  "in_range lo hi r = (case r of None \<Rightarrow> None | Some (n, s) \<Rightarrow> if lo \<le> n \<and> n < hi then r else None)"

definition parse_year :: "string \<Rightarrow> (int \<times> string) option" where
  "parse_year s =
     (if 4 \<le> length s \<and> list_all is_digit (take 4 s) then Some (number (take 4 s), drop 4 s) else None)"

definition parse_fraction :: "string \<Rightarrow> (int \<times> string) option" where
  "parse_fraction s =
     (case s of
        p # c # cs \<Rightarrow>
          if (p = CHR ''.'' \<or> p = CHR '','') \<and> is_digit c then
            let ds = takeWhile is_digit (c # cs)
            in if number ds < 1000000000
               then Some (number ds * 10 ^ (9 - length ds), dropWhile is_digit (c # cs)) else None
          else Some (0, s)
      | _ \<Rightarrow> Some (0, s))"

definition parse_zone :: "string \<Rightarrow> (int \<times> string) option" where
  "parse_zone s =
     (case s of
        CHR ''Z'' # cs \<Rightarrow> Some (0, cs)
      | sign # h1 # h2 # colon # m1 # m2 # cs \<Rightarrow>
          if colon \<noteq> CHR '':'' then None
          else (case (time_atoi [h1, h2], time_atoi [m1, m2]) of
                  (Some h, Some m) \<Rightarrow>
                    if sign = CHR ''+'' then Some ((h * 60 + m) * 60, cs)
                    else if sign = CHR ''-'' then Some (- ((h * 60 + m) * 60), cs) else None
                | _ \<Rightarrow> None)
      | _ \<Rightarrow> None)"

definition days_in_month :: "int \<Rightarrow> int \<Rightarrow> int" where
  "days_in_month y m = days_before_month (leap_year y) (m + 1) - days_before_month (leap_year y) m"

definition unix_time :: "int \<Rightarrow> int \<Rightarrow> int \<Rightarrow> int \<Rightarrow> int \<Rightarrow> int \<Rightarrow> int \<Rightarrow> int \<Rightarrow> gotime" where
  "unix_time y m d hh mm ss ns zone =
     ((days_before_year y + days_before_month (leap_year y) m + d - 1 - epoch_day) * 86400
        + hh * 3600 + mm * 60 + ss - zone) * second + ns"

definition parse_time_parts :: "string \<Rightarrow> gotime option" where
  "parse_time_parts s0 =
     Option.bind (parse_year s0) (\<lambda>(y, s1).
     Option.bind (expect CHR ''-'' s1) (\<lambda>s2.
     Option.bind (in_range 1 13 (getnum True s2)) (\<lambda>(m, s3).
     Option.bind (expect CHR ''-'' s3) (\<lambda>s4.
     Option.bind (getnum True s4) (\<lambda>(d, s5).
     Option.bind (expect CHR ''T'' s5) (\<lambda>s6.
     Option.bind (in_range 0 24 (getnum False s6)) (\<lambda>(hh, s7).
     Option.bind (expect CHR '':'' s7) (\<lambda>s8.
     Option.bind (in_range 0 60 (getnum True s8)) (\<lambda>(mm, s9).
     Option.bind (expect CHR '':'' s9) (\<lambda>s10.
     Option.bind (in_range 0 60 (getnum True s10)) (\<lambda>(ss, s11).
     Option.bind (parse_fraction s11) (\<lambda>(ns, s12).
     Option.bind (parse_zone s12) (\<lambda>(zone, s13).
     if s13 = [] \<and> 1 \<le> d \<and> d \<le> days_in_month y m then Some (unix_time y m d hh mm ss ns zone)
     else None)))))))))))))"

text \<open>The text of a \<open>ParseError\<close> is abridged.\<close>

definition parse_rfc3339 :: "string \<Rightarrow> gotime outcome" where
  "parse_rfc3339 s =
     (case parse_time_parts s of Some t \<Rightarrow> Ok t | None \<Rightarrow> Err (Errorf (''parsing time '' @ s)))"

section \<open>The order of strings\<close>

text \<open>\<open>a < b\<close> on strings compares them byte by byte.\<close>

fun str_less :: "string \<Rightarrow> string \<Rightarrow> bool" where
  "str_less s [] = False"
| "str_less [] (y # ys) = True"
| "str_less (x # xs) (y # ys) =
     ((of_char x :: nat) < of_char y \<or> (x = y \<and> str_less xs ys))"


section \<open>Lemmas on the calendar\<close>

lemma div_mult_bounds: "0 < k \<Longrightarrow> k * (n div k) \<le> n \<and> n < k * (n div k) + k" for n k :: int
proof -
  assume "0 < k"
  then have "n = k * (n div k) + n mod k" "0 \<le> n mod k" "n mod k < k" by simp_all
  then show ?thesis by linarith
qed

lemma days_before_year_bounds:
  "146097 * y - 396 \<le> 400 * days_before_year y \<and> 400 * days_before_year y \<le> 146097 * y + 699"
proof -
  have q: "4 * ((y + 3) div 4) \<le> y + 3" "y + 3 < 4 * ((y + 3) div 4) + 4"
    "100 * ((y + 99) div 100) \<le> y + 99" "y + 99 < 100 * ((y + 99) div 100) + 100"
    "400 * ((y + 399) div 400) \<le> y + 399" "y + 399 < 400 * ((y + 399) div 400) + 400"
    using div_mult_bounds by simp_all
  have "400 * days_before_year y =
      146000 * y + 400 * ((y + 3) div 4) - 400 * ((y + 99) div 100) + 400 * ((y + 399) div 400)"
    by (simp add: days_before_year_def algebra_simps)
  with q show ?thesis by linarith
qed

lemma div_step: "0 < k \<Longrightarrow> (n + 1) div k = n div k + (if k dvd n + 1 then 1 else 0)" for n k :: int
proof -
  assume k: "0 < k"
  show ?thesis
  proof (cases "k dvd n + 1")
    case True
    then obtain q where q: "n + 1 = k * q" by (auto simp: dvd_def)
    then have "n div k = q - 1" using k by (intro int_div_pos_eq [where r = "k - 1"]) (auto simp: algebra_simps)
    then show ?thesis using True q k by simp
  next
    case False
    let ?r = "n mod k"
    have "?r + 1 \<noteq> k"
    proof
      assume "?r + 1 = k"
      then have "n + 1 = k * (n div k) + k" using mult_div_mod_eq [of k n] by linarith
      then have "n + 1 = k * (n div k + 1)" by (simp add: algebra_simps)
      then show False using False by simp
    qed
    moreover have "?r < k" "0 \<le> ?r" using k by simp_all
    ultimately have "(n + 1) div k = n div k"
      by (intro int_div_pos_eq [where r = "?r + 1"]) (auto simp: algebra_simps)
    then show ?thesis using False by simp
  qed
qed

lemma days_of_year: "days_before_year (y + 1) = days_before_year y + (if leap_year y then 366 else 365)"
proof -
  have a: "(y + 4) div 4 = (y + 3) div 4 + (if 4 dvd y then 1 else 0)"
    using div_step [of 4 "y + 3"] by (simp add: add.assoc)
  have b: "(y + 100) div 100 = (y + 99) div 100 + (if 100 dvd y then 1 else 0)"
    using div_step [of 100 "y + 99"] by (simp add: add.assoc)
  have c: "(y + 400) div 400 = (y + 399) div 400 + (if 400 dvd y then 1 else 0)"
    using div_step [of 400 "y + 399"] by (simp add: add.assoc)
  have eq: "y + 1 + 3 = y + 4" "y + 1 + 99 = y + 100" "y + 1 + 399 = y + 400" by simp_all
  have "100 dvd y \<Longrightarrow> 4 dvd y" "400 dvd y \<Longrightarrow> 100 dvd y"
    by (rule dvd_trans [of 4 100 y], simp, assumption) (rule dvd_trans [of 100 400 y], simp, assumption)
  then show ?thesis
    unfolding days_before_year_def leap_year_def dvd_eq_mod_eq_0 [symmetric] eq a b c
    by (cases "4 dvd y"; cases "100 dvd y"; cases "400 dvd y") (simp_all del: div_add_self2)
qed

lemma days_before_year_less: "days_before_year y < days_before_year (y + 1)"
  using days_of_year [of y] by (auto split: if_splits)

lemma days_before_year_mono: "x \<le> y \<Longrightarrow> days_before_year x \<le> days_before_year y"
proof (induction "nat (y - x)" arbitrary: y)
  case (Suc n)
  then have "days_before_year x \<le> days_before_year (y - 1)" by simp
  also have "\<dots> < days_before_year (y - 1 + 1)" by (rule days_before_year_less)
  finally show ?case by simp
qed simp

lemma year_of_day_bounds:
  "days_before_year (year_of_day d) \<le> d \<and> d < days_before_year (year_of_day d + 1)"
proof -
  define y where "y = (400 * d) div 146097"
  have y: "146097 * y \<le> 400 * d" "400 * d < 146097 * y + 146097"
    using div_mult_bounds [of 146097 "400 * d"] by (simp_all add: y_def)
  have "days_before_year (y - 1) \<le> d"
    using conjunct2 [OF days_before_year_bounds [of "y - 1"]] y by (simp add: algebra_simps)
  moreover have "d < days_before_year (y + 2)"
    using conjunct1 [OF days_before_year_bounds [of "y + 2"]] y by (simp add: algebra_simps)
  ultimately show ?thesis unfolding year_of_day_def Let_def y_def [symmetric] by (auto simp: algebra_simps)
qed

lemma year_of_day_unique:
  assumes "days_before_year y \<le> d" and "d < days_before_year (y + 1)"
  shows "year_of_day d = y"
proof (rule ccontr)
  assume "year_of_day d \<noteq> y"
  then consider "year_of_day d + 1 \<le> y" | "y + 1 \<le> year_of_day d" by linarith
  then show False
    using year_of_day_bounds [of d] assms days_before_year_mono by cases force+
qed

lemma year_of_day_mono: "d \<le> e \<Longrightarrow> year_of_day d \<le> year_of_day e"
proof (rule ccontr)
  assume "d \<le> e" and "\<not> year_of_day d \<le> year_of_day e"
  then have "days_before_year (year_of_day e + 1) \<le> days_before_year (year_of_day d)"
    by (intro days_before_year_mono) simp
  then show False using year_of_day_bounds [of d] year_of_day_bounds [of e] \<open>d \<le> e\<close> by linarith
qed

text \<open>The months of a year: the table is increasing, so counting finds the month.\<close>

lemma days_before_month_table:
  "days_before_month l 1 = 0" "days_before_month l 2 = 31"
  "days_before_month l 3 = (if l then 60 else 59)" "days_before_month l 4 = (if l then 91 else 90)"
  "days_before_month l 5 = (if l then 121 else 120)" "days_before_month l 6 = (if l then 152 else 151)"
  "days_before_month l 7 = (if l then 182 else 181)" "days_before_month l 8 = (if l then 213 else 212)"
  "days_before_month l 9 = (if l then 244 else 243)" "days_before_month l 10 = (if l then 274 else 273)"
  "days_before_month l 11 = (if l then 305 else 304)" "days_before_month l 12 = (if l then 335 else 334)"
  "days_before_month l 13 = (if l then 366 else 365)"
  by (simp_all add: days_before_month_def Let_def)

lemma months: "[1..12] = [1, 2, 3, 4, 5, 6, 7, 8, 9, 10, 11, 12 :: int]"
  by (simp add: upto.simps)

lemma month_of_day_bounds:
  assumes "0 \<le> yd" and "yd < (if l then 366 else 365)"
  shows "1 \<le> month_of_day l yd \<and> month_of_day l yd \<le> 12
    \<and> days_before_month l (month_of_day l yd) \<le> yd \<and> yd < days_before_month l (month_of_day l yd + 1)"
  using assms unfolding month_of_day_def months
  by (cases l) (simp_all add: days_before_month_table)

lemma month_of_day_mono: "yd \<le> ye \<Longrightarrow> month_of_day l yd \<le> month_of_day l ye"
proof -
  assume "yd \<le> ye"
  then have "length (filter (\<lambda>m. days_before_month l m \<le> yd) ms) \<le> length (filter (\<lambda>m. days_before_month l m \<le> ye) ms)" for ms
    by (induction ms) auto
  then show ?thesis by (simp add: month_of_day_def)
qed


section \<open>Lemmas on padded numbers\<close>

lemma of_char_digit: "0 \<le> n \<Longrightarrow> n \<le> 9 \<Longrightarrow> (of_char (digit n) :: nat) = 48 + nat n"
  by (simp add: digit_def)

lemma digit_facts [simp]:
  "0 \<le> n \<Longrightarrow> n \<le> 9 \<Longrightarrow> is_digit (digit n)"
  "0 \<le> n \<Longrightarrow> n \<le> 9 \<Longrightarrow> digit_value (digit n) = n"
  by (simp_all add: is_digit_def digit_value_def of_char_digit)

lemma nat_digits_short:
  "m < 10 \<Longrightarrow> nat_digits m = [char_of (48 + m)]"
  "10 \<le> m \<Longrightarrow> nat_digits m = nat_digits (m div 10) @ [char_of (48 + m mod 10)]"
  by (simp_all add: nat_digits.simps [of m])

lemma pad_two:
  assumes "0 \<le> n" and "n < 100"
  shows "pad 2 n = [digit (n div 10), digit (n mod 10)]"
proof -
  obtain m where n: "n = int m" and m: "m < 100" using assms by (metis nat_less_iff nat_0_le zero_le_numeral nat_numeral)
  have "nat (int m div 10) = m div 10" "nat (int m mod 10) = m mod 10" by (simp_all add: nat_div_distrib nat_mod_distrib)
  moreover have "char_of (48::nat) = CHR ''0''" by (simp add: char_of_def bit_Suc_0_iff)
  ultimately show ?thesis
    using m n by (cases "m < 10") (simp_all add: pad_def nat_digits_short digit_def)
qed

lemma pad_four:
  assumes "0 \<le> n" and "n < 10000"
  shows "pad 4 n = [digit (n div 1000), digit (n div 100 mod 10), digit (n div 10 mod 10), digit (n mod 10)]"
proof -
  obtain m where n: "n = int m" and m: "m < 10000" using assms by (metis nat_less_iff nat_0_le zero_le_numeral nat_numeral)
  have nats: "nat (int m div 1000) = m div 1000" "nat (int m div 100 mod 10) = m div 100 mod 10"
    "nat (int m div 10 mod 10) = m div 10 mod 10" "nat (int m mod 10) = m mod 10"
    by (simp_all add: nat_div_distrib nat_mod_distrib)
  have zero: "char_of (48::nat) = CHR ''0''" by (simp add: char_of_def bit_Suc_0_iff)
  have reps: "replicate 3 c = [c, c, c]" "replicate 2 c = [c, c]" for c :: char by (simp_all add: numeral_eq_Suc)
  consider "m < 10" | "10 \<le> m" "m < 100" | "100 \<le> m" "m < 1000" | "1000 \<le> m" by linarith
  then show ?thesis
  proof cases
    case 1
    then show ?thesis unfolding n pad_def Let_def digit_def nats using zero reps by (simp add: nat_digits_short)
  next
    case 2
    then have "m div 10 < 10" "m div 100 = 0" "m div 1000 = 0" by simp_all
    then show ?thesis unfolding n pad_def Let_def digit_def nats using 2 zero reps by (simp add: nat_digits_short)
  next
    case 3
    then have "10 \<le> m div 10" "m div 10 div 10 < 10" "m div 1000 = 0" "m div 10 div 10 = m div 100" by simp_all
    then show ?thesis unfolding n pad_def Let_def digit_def nats using 3 zero by (simp add: nat_digits_short)
  next
    case 4
    then have "10 \<le> m div 10" "10 \<le> m div 10 div 10" "m div 10 div 10 div 10 < 10" using m by simp_all
    with 4 have "nat_digits m = [char_of (48 + m div 10 div 10 div 10), char_of (48 + m div 10 div 10 mod 10),
        char_of (48 + m div 10 mod 10), char_of (48 + m mod 10)]"
      by (simp only: nat_digits_short append.simps)
    moreover have "m div 10 div 10 = m div 100" "m div 100 div 10 = m div 1000" by simp_all
    ultimately show ?thesis unfolding n pad_def Let_def digit_def nats by simp
  qed
qed


section \<open>Lemmas on formatted times\<close>

text \<open>The times that fit the format: those of the years 0 to 9999.\<close>

definition rfc3339_range :: "gotime \<Rightarrow> bool" where
  "rfc3339_range t = (0 \<le> year_of_day (t div second div 86400 + epoch_day)
     \<and> year_of_day (t div second div 86400 + epoch_day) \<le> 9999)"

record civil =
  cv_year :: int
  cv_month :: int
  cv_day :: int
  cv_hour :: int
  cv_minute :: int
  cv_second :: int

definition valid_civil :: "civil \<Rightarrow> bool" where
  "valid_civil c =
     (0 \<le> cv_year c \<and> cv_year c \<le> 9999 \<and> 1 \<le> cv_month c \<and> cv_month c \<le> 12
      \<and> 1 \<le> cv_day c \<and> cv_day c \<le> days_in_month (cv_year c) (cv_month c)
      \<and> 0 \<le> cv_hour c \<and> cv_hour c < 24 \<and> 0 \<le> cv_minute c \<and> cv_minute c < 60
      \<and> 0 \<le> cv_second c \<and> cv_second c < 60)"

definition civil_time :: "civil \<Rightarrow> gotime" where
  "civil_time c = unix_time (cv_year c) (cv_month c) (cv_day c) (cv_hour c) (cv_minute c) (cv_second c) 0 0"

definition civil_string :: "civil \<Rightarrow> string" where
  "civil_string c = pad 4 (cv_year c) @ ''-'' @ pad 2 (cv_month c) @ ''-'' @ pad 2 (cv_day c) @ ''T''
     @ pad 2 (cv_hour c) @ '':'' @ pad 2 (cv_minute c) @ '':'' @ pad 2 (cv_second c) @ ''Z''"

definition civil_less :: "civil \<Rightarrow> civil \<Rightarrow> bool" where
  "civil_less a b =
     (cv_year a < cv_year b \<or> cv_year a = cv_year b \<and>
     (cv_month a < cv_month b \<or> cv_month a = cv_month b \<and>
     (cv_day a < cv_day b \<or> cv_day a = cv_day b \<and>
     (cv_hour a < cv_hour b \<or> cv_hour a = cv_hour b \<and>
     (cv_minute a < cv_minute b \<or> cv_minute a = cv_minute b \<and> cv_second a < cv_second b)))))"

lemma month_days: "1 \<le> m \<Longrightarrow> m \<le> 12 \<Longrightarrow> 28 \<le> days_in_month y m \<and> days_in_month y m \<le> 31"
proof -
  assume "1 \<le> m" and "m \<le> 12"
  then have "m \<in> set [1..12]" by simp
  then show ?thesis unfolding months by (auto simp: days_in_month_def days_before_month_table)
qed

lemma days_before_month_mono:
  "1 \<le> m \<Longrightarrow> m \<le> k \<Longrightarrow> k \<le> 13 \<Longrightarrow> days_before_month l m \<le> days_before_month l k"
proof (induction "nat (k - m)" arbitrary: k)
  case (Suc n)
  then have "days_before_month l m \<le> days_before_month l (k - 1)" by simp
  also have "k - 1 \<in> set [1..12]" using Suc by simp
  then have "days_before_month l (k - 1) \<le> days_before_month l (k - 1 + 1)"
    unfolding months by (auto simp: days_before_month_table)
  finally show ?case by simp
qed simp

lemma civil_of_time:
  assumes "rfc3339_range t"
  obtains c where "valid_civil c" and "civil_time c = t div second * second" and "format_rfc3339 t = civil_string c"
proof -
  define s d r y yd m where "s = t div second" and "d = s div 86400 + epoch_day" and "r = s mod 86400"
    and "y = year_of_day d" and "yd = d - days_before_year y" and "m = month_of_day (leap_year y) yd"
  define c where "c = \<lparr>cv_year = y, cv_month = m, cv_day = yd - days_before_month (leap_year y) m + 1,
    cv_hour = r div 3600, cv_minute = r div 60 mod 60, cv_second = r mod 60\<rparr>"
  have r: "0 \<le> r" "r < 86400" by (simp_all add: r_def)
  have s: "s = s div 86400 * 86400 + r" by (simp add: r_def)
  have "r div 60 div 60 = r div 3600" by (simp add: zdiv_zmult2_eq [symmetric])
  then have hms: "r div 3600 * 3600 + r div 60 mod 60 * 60 + r mod 60 = r"
    using div_mult_mod_eq [of r 60] div_mult_mod_eq [of "r div 60" 60] by linarith
  have hour: "0 \<le> r div 3600" "r div 3600 < 24" using r div_mult_bounds [of 3600 r] by simp_all
  have yd: "0 \<le> yd" "yd < (if leap_year y then 366 else 365)"
    using year_of_day_bounds [of d] days_of_year [of y] by (simp_all add: yd_def y_def)
  note m = month_of_day_bounds [OF yd, folded m_def]
  have "valid_civil c"
    using m hour assms by (simp add: valid_civil_def c_def days_in_month_def rfc3339_range_def y_def d_def s_def)
  moreover have "s div 86400 * 86400 + r div 3600 * 3600 + r div 60 mod 60 * 60 + r mod 60 = s"
    using hms s by linarith
  then have "civil_time c = s * second"
    by (simp add: civil_time_def c_def unix_time_def yd_def d_def)
  moreover have "format_rfc3339 t = civil_string c"
    by (simp add: format_rfc3339_def civil_string_def c_def Let_def s_def d_def r_def y_def yd_def m_def)
  ultimately show thesis using that by (simp add: s_def)
qed

lemma day_second_less:
  "d < e \<or> d = e \<and> s < u \<Longrightarrow> 0 \<le> s \<and> s < 86400 \<Longrightarrow> 0 \<le> u \<and> u < 86400 \<Longrightarrow> d * 86400 + s < e * 86400 + u"
  for d e s u :: int
  by auto

lemma civil_less_time:
  assumes "valid_civil a" and "valid_civil b" and "civil_less a b"
  shows "civil_time a < civil_time b"
proof -
  let ?day = "\<lambda>c. days_before_year (cv_year c) + days_before_month (leap_year (cv_year c)) (cv_month c) + cv_day c"
  let ?sod = "\<lambda>c. cv_hour c * 3600 + cv_minute c * 60 + cv_second c"
  have sod: "0 \<le> ?sod c \<and> ?sod c < 86400" if "valid_civil c" for c using that by (simp add: valid_civil_def)
  have month_end: "days_before_month (leap_year (cv_year c)) (cv_month c) + cv_day c
      \<le> days_before_month (leap_year (cv_year c)) (cv_month c + 1)" if "valid_civil c" for c
    using that by (simp add: valid_civil_def days_in_month_def)
  have year_end: "?day c \<le> days_before_year (cv_year c + 1)" if "valid_civil c" for c
    using month_end [OF that] days_before_month_mono [of "cv_month c + 1" 13 "leap_year (cv_year c)"] that
      days_of_year [of "cv_year c"] by (auto simp: valid_civil_def days_before_month_table split: if_splits)
  have year_start: "days_before_year (cv_year c) < ?day c" if "valid_civil c" for c
    using days_before_month_mono [of 1 "cv_month c" "leap_year (cv_year c)"] that
    by (simp add: valid_civil_def days_before_month_table)
  have "?day a < ?day b \<or> ?day a = ?day b \<and> ?sod a < ?sod b"
  proof -
    consider "cv_year a < cv_year b" | "cv_year a = cv_year b" "cv_month a < cv_month b"
      | "cv_year a = cv_year b" "cv_month a = cv_month b" "cv_day a < cv_day b"
      | "cv_year a = cv_year b" "cv_month a = cv_month b" "cv_day a = cv_day b"
        "cv_hour a < cv_hour b \<or> cv_hour a = cv_hour b \<and>
          (cv_minute a < cv_minute b \<or> cv_minute a = cv_minute b \<and> cv_second a < cv_second b)"
      using assms(3) unfolding civil_less_def by blast
    then show ?thesis
    proof cases
      case 1
      then have "days_before_year (cv_year a + 1) \<le> days_before_year (cv_year b)"
        by (intro days_before_year_mono) simp
      then show ?thesis using year_end [OF assms(1)] year_start [OF assms(2)] by linarith
    next
      case 2
      then have "days_before_month (leap_year (cv_year a)) (cv_month a + 1)
          \<le> days_before_month (leap_year (cv_year b)) (cv_month b)"
        using assms(1,2) days_before_month_mono [of "cv_month a + 1" "cv_month b"] by (simp add: valid_civil_def)
      then show ?thesis using month_end [OF assms(1)] 2 assms(2) by (simp add: valid_civil_def)
    next
      case 3
      then show ?thesis by simp
    next
      case 4
      then show ?thesis using assms(1,2) by (auto simp: valid_civil_def)
    qed
  qed
  then have "?day a * 86400 + ?sod a < ?day b * 86400 + ?sod b"
    using sod [OF assms(1)] sod [OF assms(2)] by (intro day_second_less) blast+
  then show ?thesis
    by (simp add: civil_time_def unix_time_def second_def)
qed


lemma str_less_digit:
  "0 \<le> a \<Longrightarrow> a \<le> 9 \<Longrightarrow> 0 \<le> b \<Longrightarrow> b \<le> 9 \<Longrightarrow>
     str_less (digit a # x) (digit b # y) = (a < b \<or> a = b \<and> str_less x y)"
proof -
  assume r: "0 \<le> a" "a \<le> 9" "0 \<le> b" "b \<le> 9"
  then have "digit a = digit b \<longleftrightarrow> a = b" by (metis digit_facts(2))
  then show ?thesis using r by (auto simp: of_char_digit)
qed

lemma str_less_pad_two:
  assumes "0 \<le> a" "a < 100" "0 \<le> b" "b < 100"
  shows "str_less (pad 2 a @ x) (pad 2 b @ y) = (a < b \<or> a = b \<and> str_less x y)"
proof -
  have dm: "a = 10 * (a div 10) + a mod 10" "b = 10 * (b div 10) + b mod 10" by simp_all
  have r: "0 \<le> a div 10" "a div 10 \<le> 9" "0 \<le> b div 10" "b div 10 \<le> 9" "0 \<le> a mod 10" "a mod 10 \<le> 9"
    "0 \<le> b mod 10" "b mod 10 \<le> 9" using assms by simp_all
  have "a < b \<longleftrightarrow> a div 10 < b div 10 \<or> a div 10 = b div 10 \<and> a mod 10 < b mod 10" using dm r by linarith
  moreover have "a = b \<longleftrightarrow> a div 10 = b div 10 \<and> a mod 10 = b mod 10" using dm by metis
  ultimately show ?thesis
    by (simp only: pad_two assms append.simps str_less_digit r) blast
qed

lemma str_less_pad_four:
  assumes "0 \<le> a" "a < 10000" "0 \<le> b" "b < 10000"
  shows "str_less (pad 4 a @ x) (pad 4 b @ y) = (a < b \<or> a = b \<and> str_less x y)"
proof -
  have split: "pad 4 n = pad 2 (n div 100) @ pad 2 (n mod 100)" if "0 \<le> n" "n < 10000" for n
  proof -
    have a: "n div 100 div 10 = n div 1000" by (simp add: zdiv_zmult2_eq [symmetric])
    have m: "n mod (10 * 10) = 10 * (n div 10 mod 10) + n mod 10" by (rule zmod_zmult2_eq) simp
    then have b: "n mod 100 div 10 = n div 10 mod 10" by simp
    have c: "n mod 100 mod 10 = n mod 10" by (simp add: mod_mod_cancel)
    have r: "0 \<le> n div 100" "n div 100 < 100" "0 \<le> n mod 100" "n mod 100 < 100" using that by simp_all
    show ?thesis
      unfolding pad_four [OF that] pad_two [OF r(1,2)] pad_two [OF r(3,4)] a b c by simp
  qed
  have dm: "a = 100 * (a div 100) + a mod 100" "b = 100 * (b div 100) + b mod 100" by simp_all
  have r: "0 \<le> a div 100" "a div 100 < 100" "0 \<le> b div 100" "b div 100 < 100" "0 \<le> a mod 100" "a mod 100 < 100"
    "0 \<le> b mod 100" "b mod 100 < 100" using assms by simp_all
  have "a < b \<longleftrightarrow> a div 100 < b div 100 \<or> a div 100 = b div 100 \<and> a mod 100 < b mod 100" using dm r by linarith
  moreover have "a = b \<longleftrightarrow> a div 100 = b div 100 \<and> a mod 100 = b mod 100" using dm by metis
  ultimately show ?thesis
    by (simp only: split assms append_assoc str_less_pad_two r) blast
qed

lemma str_less_same: "str_less (c # x) (c # y) = str_less x y"
  by simp

lemma civil_string_less:
  assumes "valid_civil a" and "valid_civil b"
  shows "str_less (civil_string a) (civil_string b) = civil_less a b"
proof -
  have "\<not> str_less ''Z'' ''Z''" by simp
  moreover have "0 \<le> cv_year c" "cv_year c < 10000" "0 \<le> cv_month c" "cv_month c < 100"
    "0 \<le> cv_day c" "cv_day c < 100" "0 \<le> cv_hour c" "cv_hour c < 100" "0 \<le> cv_minute c" "cv_minute c < 100"
    "0 \<le> cv_second c" "cv_second c < 100" if "valid_civil c" for c
    using that month_days [of "cv_month c" "cv_year c"] by (auto simp: valid_civil_def)
  ultimately show ?thesis
    using assms unfolding civil_string_def civil_less_def
    by (simp only: append_assoc append.simps str_less_same str_less_pad_two str_less_pad_four simp_thms)
qed

text \<open>Formatted times compare, as strings, like the seconds they stand for.\<close>

lemma format_less:
  assumes "rfc3339_range t" and "rfc3339_range u"
  shows "str_less (format_rfc3339 t) (format_rfc3339 u) \<longleftrightarrow> t div second < u div second"
proof -
  obtain a where a: "valid_civil a" "civil_time a = t div second * second" "format_rfc3339 t = civil_string a"
    using civil_of_time [OF assms(1)] .
  obtain b where b: "valid_civil b" "civil_time b = u div second * second" "format_rfc3339 u = civil_string b"
    using civil_of_time [OF assms(2)] .
  have times: "civil_time a < civil_time b \<longleftrightarrow> t div second < u div second"
    "civil_time b < civil_time a \<longleftrightarrow> u div second < t div second" by (simp_all add: a b second_def)
  have "civil_less a b \<or> civil_less b a \<or> civil_time a = civil_time b"
    unfolding civil_less_def civil_time_def by (metis linorder_neqE_linordered_idom)
  then have "civil_less a b \<longleftrightarrow> civil_time a < civil_time b"
    using civil_less_time [OF a(1) b(1)] civil_less_time [OF b(1) a(1)] by auto
  with civil_string_less [OF a(1) b(1)] times a(3) b(3) show ?thesis by simp
qed

lemma getnum_pad: "0 \<le> n \<Longrightarrow> n < 100 \<Longrightarrow> getnum b (pad 2 n @ s) = Some (n, s)"
  by (simp add: pad_two)

lemma parse_year_digits:
  "0 \<le> a \<Longrightarrow> a \<le> 9 \<Longrightarrow> 0 \<le> b \<Longrightarrow> b \<le> 9 \<Longrightarrow> 0 \<le> c \<Longrightarrow> c \<le> 9 \<Longrightarrow> 0 \<le> d \<Longrightarrow> d \<le> 9 \<Longrightarrow>
     parse_year ([digit a, digit b, digit c, digit d] @ s) = Some (10 * (10 * (10 * a + b) + c) + d, s)"
  by (simp add: parse_year_def number_def)

lemma parse_year_pad: "0 \<le> n \<Longrightarrow> n < 10000 \<Longrightarrow> parse_year (pad 4 n @ s) = Some (n, s)"
proof -
  assume n: "0 \<le> n" "n < 10000"
  have r: "0 \<le> n div 1000" "n div 1000 \<le> 9" "0 \<le> n div 100 mod 10" "n div 100 mod 10 \<le> 9"
    "0 \<le> n div 10 mod 10" "n div 10 mod 10 \<le> 9" "0 \<le> n mod 10" "n mod 10 \<le> 9" using n by simp_all
  have q: "n div 10 div 10 = n div 100" "n div 100 div 10 = n div 1000" by (simp_all add: zdiv_zmult2_eq [symmetric])
  have "10 * (n div 10) + n mod 10 = n" "10 * (n div 100) + n div 10 mod 10 = n div 10"
    "10 * (n div 1000) + n div 100 mod 10 = n div 100"
    using mult_div_mod_eq [of 10 n] mult_div_mod_eq [of 10 "n div 10"] mult_div_mod_eq [of 10 "n div 100"]
    by (simp_all only: q)
  then have "Some (10 * (10 * (10 * (n div 1000) + n div 100 mod 10) + n div 10 mod 10) + n mod 10, s) = Some (n, s)"
    by (simp only:)
  with parse_year_digits [OF r, of s] show ?thesis unfolding pad_four [OF n] by (rule trans)
qed

text \<open>Parsing a formatted time gives the time back, cut to the second.\<close>

lemma parse_format:
  assumes "rfc3339_range t"
  shows "parse_rfc3339 (format_rfc3339 t) = Ok (t div second * second)"
proof -
  obtain c where c: "valid_civil c" "civil_time c = t div second * second" "format_rfc3339 t = civil_string c"
    using civil_of_time [OF assms] .
  have r: "0 \<le> cv_year c" "cv_year c < 10000" "0 \<le> cv_month c" "cv_month c < 100" "1 \<le> cv_month c" "cv_month c < 13"
    "0 \<le> cv_day c" "cv_day c < 100" "1 \<le> cv_day c" "cv_day c \<le> days_in_month (cv_year c) (cv_month c)"
    "0 \<le> cv_hour c" "cv_hour c < 100" "cv_hour c < 24" "0 \<le> cv_minute c" "cv_minute c < 100" "cv_minute c < 60"
    "0 \<le> cv_second c" "cv_second c < 100" "cv_second c < 60"
    using c(1) month_days [of "cv_month c" "cv_year c"] by (auto simp: valid_civil_def)
  have "parse_time_parts (civil_string c) = Some (civil_time c)"
    unfolding parse_time_parts_def civil_string_def
    by (simp add: parse_year_pad getnum_pad in_range_def expect_def parse_fraction_def parse_zone_def r civil_time_def)
  with c show ?thesis by (simp add: parse_rfc3339_def)
qed

end
