(* ===== verification/Op_Effects.thy ===== *)
theory Op_Effects
  imports Op_Builders Go_Time
begin

text \<open>
  The effects of the controllers: calls of the Kubernetes API and of the pods' command lines,
  events, the clock and randomness. The world behind them is a type variable; what a call does
  to it and answers is a parameter (\<open>env\<close>). An action records the requests it makes and the
  answers it gets in a trace, so that the properties can speak of them. A small Hoare logic
  over the trace and the variables of a reconciliation carries the proofs.
\<close>

declare child_names [simp del]

section \<open>Requests, answers and the state of a reconciliation\<close>

text \<open>
  The operator has two clients: the manager's, which reads from a cache, and a \<open>Clientset\<close> that
  talks to the API server directly (the persistence scaler uses it).
\<close>

datatype client = Cached | Direct

datatype request =
    GetObject client kind string string
  | UpdateObject client api_object
  | UpdateStatus RabbitmqCluster
  | ListPods "(string \<times> string) list"
  | DeleteObject client kind string string "string option" "string option"
  | CreateOrUpdateObject api_object
  | ExecInPod string string string "string list"
  | RecordEvent string string string
  | Sleep int

datatype OperationResult = OperationResultNone | OperationResultCreated | OperationResultUpdated

datatype answer =
    GotObject api_object
  | GotPods "Pod list"
  | GotOutput string string
  | Applied OperationResult api_object
  | Acknowledged
  | Refused go_error
  | Crashed string

type_synonym event = "request \<times> answer"

text \<open>
  The variables that outlive a single call: what the \<open>rabbitmqCluster\<close> pointer points to, and
  the two variables that the closure around \<open>CreateOrUpdate\<close> captures (\<open>resource\<close> and
  \<open>operationResult\<close>).
\<close>

record vars =
  v_cluster :: RabbitmqCluster
  v_resource :: api_object
  v_operation :: OperationResult

record 'w sys =
  sys_world :: 'w
  sys_trace :: "event list"
  sys_vars :: vars

type_synonym ('w, 'a) act = "'w sys \<Rightarrow> 'a outcome \<times> 'w sys"

section \<open>Parameters\<close>

text \<open>
  The fields of the reconciler that are plain values (default images and pull secrets), the
  libraries, and the calls: \<open>parse_selector\<close> for \<open>labels.Parse\<close>, which gives a list of label
  requirements, \<open>add_finalizer\<close> and \<open>remove_finalizer\<close> for the functions of \<open>controllerutil\<close>, on the
  list of finalizers, \<open>api_\<close> for the Kubernetes API, \<open>retry_on\<close> for \<open>retry.OnError\<close>
  with its error predicate. \<open>api_create_or_update\<close> is \<open>controllerutil.CreateOrUpdate\<close>; it
  returns the operation it made, what the object points to afterwards, and its error.
\<close>

record 'w env =
  lib_of :: lib
  default_image :: string
  default_updater_image :: string
  default_pull_secrets :: string
  clock :: "'w \<Rightarrow> gotime \<times> 'w"
  random :: "'w \<Rightarrow> rand_source \<times> 'w"
  add_finalizer :: "string \<Rightarrow> string list \<Rightarrow> string list"
  remove_finalizer :: "string \<Rightarrow> string list \<Rightarrow> string list"
  parse_selector :: "string \<Rightarrow> (string \<times> string) list outcome"
  api_get :: "client \<Rightarrow> kind \<Rightarrow> string \<Rightarrow> string \<Rightarrow> 'w \<Rightarrow> api_object outcome \<times> 'w"
  api_update :: "client \<Rightarrow> api_object \<Rightarrow> 'w \<Rightarrow> api_object outcome \<times> 'w"
  api_update_status :: "RabbitmqCluster \<Rightarrow> 'w \<Rightarrow> RabbitmqCluster outcome \<times> 'w"
  api_list_pods :: "(string \<times> string) list \<Rightarrow> 'w \<Rightarrow> Pod list outcome \<times> 'w"
  api_delete :: "client \<Rightarrow> kind \<Rightarrow> string \<Rightarrow> string \<Rightarrow> string option \<Rightarrow> string option \<Rightarrow> 'w \<Rightarrow> unit outcome \<times> 'w"
  api_create_or_update :: "(api_object \<Rightarrow> api_object outcome) \<Rightarrow> api_object \<Rightarrow> 'w
    \<Rightarrow> (OperationResult \<times> api_object \<times> go_error option) outcome \<times> 'w"
  pod_exec :: "string \<Rightarrow> string \<Rightarrow> string \<Rightarrow> string list \<Rightarrow> 'w \<Rightarrow> (string \<times> string) outcome \<times> 'w"
  sleep :: "int \<Rightarrow> 'w \<Rightarrow> 'w"
  retry_on :: "(go_error \<Rightarrow> bool) \<Rightarrow> ('w, unit) act \<Rightarrow> ('w, unit) act"

section \<open>Combinators\<close>

definition act_ret :: "'a \<Rightarrow> ('w, 'a) act" where
  "act_ret x s = (Ok x, s)"

definition act_lift :: "'a outcome \<Rightarrow> ('w, 'a) act" where
  "act_lift r s = (r, s)"

abbreviation act_err :: "go_error \<Rightarrow> ('w, 'a) act" where
  "act_err e \<equiv> act_lift (Err e)"

definition act_bind :: "('w, 'a) act \<Rightarrow> ('a \<Rightarrow> ('w, 'b) act) \<Rightarrow> ('w, 'b) act" where
  "act_bind m f s =
     (case m s of (Ok x, s') \<Rightarrow> f x s' | (Err e, s') \<Rightarrow> (Err e, s') | (Panic p, s') \<Rightarrow> (Panic p, s'))"

abbreviation act_then :: "('w, 'a) act \<Rightarrow> ('w, 'b) act \<Rightarrow> ('w, 'b) act" where
  "act_then m n \<equiv> act_bind m (\<lambda>_. n)"

text \<open>\<open>if err != nil { ... }\<close>: the handler sees an error, never a panic.\<close>

definition act_catch :: "('w, 'a) act \<Rightarrow> (go_error \<Rightarrow> ('w, 'a) act) \<Rightarrow> ('w, 'a) act" where
  "act_catch m h s = (case m s of (Err e, s') \<Rightarrow> h e s' | r \<Rightarrow> r)"

definition act_wrap :: "string \<Rightarrow> ('w, 'a) act \<Rightarrow> ('w, 'a) act" where
  "act_wrap msg m = act_catch m (\<lambda>e. act_err (WrapError msg e))"

definition act_ignore :: "('w, unit) act \<Rightarrow> ('w, unit) act" where
  "act_ignore m = act_catch m (\<lambda>_. act_ret ())"

text \<open>\<open>client.IgnoreNotFound(err) != nil\<close>: a missing object is no error, and there is no value.\<close>

definition unless_missing :: "('w, 'a) act \<Rightarrow> ('w, 'a option) act" where
  "unless_missing m = act_catch (act_bind m (\<lambda>x. act_ret (Some x)))
     (\<lambda>e. if is_not_found e then act_ret None else act_err e)"

text \<open>\<open>if requeueAfter, err := m(); err != nil || requeueAfter > 0 { return }\<close>\<close>

definition unless_requeued :: "('w, int) act \<Rightarrow> ('w, int) act \<Rightarrow> ('w, int) act" where
  "unless_requeued m k = act_bind m (\<lambda>d. if 0 < d then act_ret d else k)"

definition with_cluster :: "(RabbitmqCluster \<Rightarrow> ('w, 'a) act) \<Rightarrow> ('w, 'a) act" where
  "with_cluster f s = f (v_cluster (sys_vars s)) s"

definition put_cluster :: "RabbitmqCluster \<Rightarrow> ('w, unit) act" where
  "put_cluster c s = (Ok (), s\<lparr>sys_vars := (sys_vars s)\<lparr>v_cluster := c\<rparr>\<rparr>)"

definition put_resource :: "api_object \<Rightarrow> ('w, unit) act" where
  "put_resource x s =
     (Ok (), s\<lparr>sys_vars := (sys_vars s)\<lparr>v_resource := x, v_operation := OperationResultNone\<rparr>\<rparr>)"

definition get_resource :: "('w, api_object) act" where
  "get_resource s = (Ok (v_resource (sys_vars s)), s)"

definition get_operation :: "('w, OperationResult) act" where
  "get_operation s = (Ok (v_operation (sys_vars s)), s)"

text \<open>A request: the world answers, and both go on the trace.\<close>

definition answer_of :: "('a \<Rightarrow> answer) \<Rightarrow> 'a outcome \<Rightarrow> answer" where
  "answer_of enc r = (case r of Ok x \<Rightarrow> enc x | Err e \<Rightarrow> Refused e | Panic p \<Rightarrow> Crashed p)"

definition act_call :: "request \<Rightarrow> ('a \<Rightarrow> answer) \<Rightarrow> ('w \<Rightarrow> 'a outcome \<times> 'w) \<Rightarrow> ('w, 'a) act" where
  "act_call req enc f s =
     (let (r, w) = f (sys_world s)
      in (r, s\<lparr>sys_world := w, sys_trace := sys_trace s @ [(req, answer_of enc r)]\<rparr>))"

section \<open>The calls\<close>

definition get_object :: "'w env \<Rightarrow> client \<Rightarrow> kind \<Rightarrow> string \<Rightarrow> string \<Rightarrow> ('w, api_object) act" where
  "get_object E cl k ns n = act_call (GetObject cl k ns n) GotObject (api_get E cl k ns n)"

definition update_object :: "'w env \<Rightarrow> client \<Rightarrow> api_object \<Rightarrow> ('w, api_object) act" where
  "update_object E cl x = act_call (UpdateObject cl x) GotObject (api_update E cl x)"

definition list_pods :: "'w env \<Rightarrow> (string \<times> string) list \<Rightarrow> ('w, Pod list) act" where
  "list_pods E sel = act_call (ListPods sel) GotPods (api_list_pods E sel)"

definition delete_object ::
  "'w env \<Rightarrow> client \<Rightarrow> kind \<Rightarrow> string \<Rightarrow> string \<Rightarrow> string option \<Rightarrow> string option \<Rightarrow> ('w, unit) act" where
  "delete_object E cl k ns n uid propagation =
     act_call (DeleteObject cl k ns n uid propagation) (\<lambda>_. Acknowledged) (api_delete E cl k ns n uid propagation)"

definition exec_in_pod :: "'w env \<Rightarrow> string \<Rightarrow> string \<Rightarrow> string \<Rightarrow> string list \<Rightarrow> ('w, string \<times> string) act" where
  "exec_in_pod E ns pod ctr cmd =
     act_call (ExecInPod ns pod ctr cmd) (\<lambda>(out, err). GotOutput out err) (pod_exec E ns pod ctr cmd)"

definition record_event :: "string \<Rightarrow> string \<Rightarrow> string \<Rightarrow> ('w, unit) act" where
  "record_event typ reason msg = act_call (RecordEvent typ reason msg) (\<lambda>_. Acknowledged) (\<lambda>w. (Ok (), w))"

definition sleep_for :: "'w env \<Rightarrow> int \<Rightarrow> ('w, unit) act" where
  "sleep_for E d = act_call (Sleep d) (\<lambda>_. Acknowledged) (\<lambda>w. (Ok (), sleep E d w))"

definition now :: "'w env \<Rightarrow> ('w, gotime) act" where
  "now E s = (let (t, w) = clock E (sys_world s) in (Ok t, s\<lparr>sys_world := w\<rparr>))"

definition fresh_random :: "'w env \<Rightarrow> ('w, rand_source) act" where
  "fresh_random E s = (let (r, w) = random E (sys_world s) in (Ok r, s\<lparr>sys_world := w\<rparr>))"

text \<open>
  Updates of the custom resource and of its status decode the server's answer into the
  object that the pointer points to.
\<close>

definition as_cluster :: "api_object \<Rightarrow> RabbitmqCluster outcome" where
  "as_cluster x = (case x of ClusterObject c \<Rightarrow> Ok c | _ \<Rightarrow> conversion_panic)"

definition update_cluster :: "'w env \<Rightarrow> ('w, unit) act" where
  "update_cluster E = with_cluster (\<lambda>c.
     act_bind (update_object E Cached (ClusterObject c)) (\<lambda>x.
     act_bind (act_lift (as_cluster x)) put_cluster))"

definition update_status :: "'w env \<Rightarrow> ('w, unit) act" where
  "update_status E = with_cluster (\<lambda>c.
     act_bind (act_call (UpdateStatus c) (\<lambda>c'. GotObject (ClusterObject c')) (api_update_status E c)) put_cluster)"

definition create_or_update :: "'w env \<Rightarrow> (api_object \<Rightarrow> api_object outcome) \<Rightarrow> ('w, unit) act" where
  "create_or_update E mutate s =
     (let x = v_resource (sys_vars s);
          (r, w) = api_create_or_update E mutate x (sys_world s);
          a = (case r of Ok (op, y, None) \<Rightarrow> Applied op y | Ok (op, y, Some e) \<Rightarrow> Refused e
               | Err e \<Rightarrow> Refused e | Panic p \<Rightarrow> Crashed p);
          s' = s\<lparr>sys_world := w, sys_trace := sys_trace s @ [(CreateOrUpdateObject x, a)]\<rparr>
      in case r of
           Ok (op, y, e) \<Rightarrow>
             (case e of None \<Rightarrow> Ok () | Some e' \<Rightarrow> Err e',
              s'\<lparr>sys_vars := (sys_vars s)\<lparr>v_resource := y, v_operation := op\<rparr>\<rparr>)
         | Err e \<Rightarrow> (Err e, s')
         | Panic p \<Rightarrow> (Panic p, s'))"

definition retry_on_conflict :: "'w env \<Rightarrow> ('w, unit) act \<Rightarrow> ('w, unit) act" where
  "retry_on_conflict E = retry_on E is_conflict"

text \<open>A \<open>for\<close> loop that returns at the first error.\<close>

fun for_each :: "('a \<Rightarrow> ('w, unit) act) \<Rightarrow> 'a list \<Rightarrow> ('w, unit) act" where
  "for_each f [] = act_ret ()"
| "for_each f (x # xs) = act_then (f x) (for_each f xs)"


section \<open>Documented behaviour of the clients\<close>

text \<open>
  \<open>retry.OnError(backoff, retriable, f)\<close> calls \<open>f\<close> until it succeeds, fails with an error
  that is not retriable, or the attempts are used up; it returns what the last attempt
  returned. It waits between attempts, so the world may have moved on.
\<close>

inductive attempts :: "(go_error \<Rightarrow> bool) \<Rightarrow> ('w, unit) act \<Rightarrow> 'w sys \<Rightarrow> unit outcome \<times> 'w sys \<Rightarrow> bool"
  for p :: "go_error \<Rightarrow> bool" and m :: "('w, unit) act" where
  last_attempt: "attempts p m s (m s)"
| next_attempt: "m s = (Err e, s') \<Longrightarrow> p e \<Longrightarrow> attempts p m (s'\<lparr>sys_world := w\<rparr>) r \<Longrightarrow> attempts p m s r"

definition retries :: "((go_error \<Rightarrow> bool) \<Rightarrow> ('w, unit) act \<Rightarrow> ('w, unit) act) \<Rightarrow> bool" where
  "retries f \<longleftrightarrow> (\<forall>p m s. attempts p m s (f p m s))"

text \<open>The identity of an object never changes, and a request is answered by an object of its kind.\<close>

definition same_identity :: "api_object \<Rightarrow> api_object \<Rightarrow> bool" where
  "same_identity x y = (kind_of x = kind_of y \<and> om_name (object_meta x) = om_name (object_meta y)
     \<and> om_namespace (object_meta x) = om_namespace (object_meta y))"

definition keeps_identity :: "'w env \<Rightarrow> bool" where
  "keeps_identity E \<longleftrightarrow>
     (\<forall>cl k ns n w x w'. api_get E cl k ns n w = (Ok x, w') \<longrightarrow>
        kind_of x = k \<and> om_namespace (object_meta x) = ns \<and> om_name (object_meta x) = n)
     \<and> (\<forall>cl x w y w'. api_update E cl x w = (Ok y, w') \<longrightarrow>
          same_identity x y \<and> om_uid (object_meta y) = om_uid (object_meta x))
     \<and> (\<forall>c w c' w'. api_update_status E c w = (Ok c', w') \<longrightarrow>
          same_identity (ClusterObject c) (ClusterObject c') \<and> om_uid (cl_meta c') = om_uid (cl_meta c))
     \<and> (\<forall>f x w op y e w'. api_create_or_update E f x w = (Ok (op, y, e), w') \<longrightarrow>
          (\<forall>z z'. f z = Ok z' \<longrightarrow> same_identity z z') \<longrightarrow> same_identity x y)"

text \<open>A finalizer is added or removed, and no other.\<close>

definition edits_finalizers :: "'w env \<Rightarrow> bool" where
  "edits_finalizers E \<longleftrightarrow>
     (\<forall>f fs. set (add_finalizer E f fs) = insert f (set fs) \<and> set (remove_finalizer E f fs) = set fs - {f})"

definition env_ok :: "'w env \<Rightarrow> bool" where
  "env_ok E \<longleftrightarrow> lib_ok (lib_of E) \<and> retries (retry_on E) \<and> keeps_identity E \<and> edits_finalizers E"

lemma env_okD:
  assumes "env_ok E"
  shows "lib_ok (lib_of E)" "retries (retry_on E)" "keeps_identity E" "edits_finalizers E"
  using assms by (simp_all add: env_ok_def)

lemma keeps_identityD:
  assumes "keeps_identity E"
  shows "api_get E cl k ns n w = (Ok x, w') \<Longrightarrow>
      kind_of x = k \<and> om_namespace (object_meta x) = ns \<and> om_name (object_meta x) = n"
    and "api_update E cl x w = (Ok y, w') \<Longrightarrow> same_identity x y \<and> om_uid (object_meta y) = om_uid (object_meta x)"
    and "api_update_status E c w = (Ok c', w') \<Longrightarrow>
      same_identity (ClusterObject c) (ClusterObject c') \<and> om_uid (cl_meta c') = om_uid (cl_meta c)"
    and "api_create_or_update E f x w = (Ok (op, y, e), w') \<Longrightarrow>
      (\<And>z z'. f z = Ok z' \<Longrightarrow> same_identity z z') \<Longrightarrow> same_identity x y"
proof -
  note laws = assms [unfolded keeps_identity_def]
  show "kind_of x = k \<and> om_namespace (object_meta x) = ns \<and> om_name (object_meta x) = n"
    if "api_get E cl k ns n w = (Ok x, w')"
    using conjunct1 [OF laws] that by blast
  show "same_identity x y \<and> om_uid (object_meta y) = om_uid (object_meta x)"
    if "api_update E cl x w = (Ok y, w')"
    using conjunct1 [OF conjunct2 [OF laws]] that by blast
  show "same_identity (ClusterObject c) (ClusterObject c') \<and> om_uid (cl_meta c') = om_uid (cl_meta c)"
    if "api_update_status E c w = (Ok c', w')"
    using conjunct1 [OF conjunct2 [OF conjunct2 [OF laws]]] that by blast
  show "same_identity x y"
    if "api_create_or_update E f x w = (Ok (op, y, e), w')" "\<And>z z'. f z = Ok z' \<Longrightarrow> same_identity z z'"
    using conjunct2 [OF conjunct2 [OF conjunct2 [OF laws]]] that by blast
qed

section \<open>Triples\<close>

text \<open>
  \<open>triple P m Q\<close>: from variables that satisfy \<open>P\<close> the action adds events to the trace, and
  its outcome, these events and the new variables satisfy \<open>Q\<close>, whatever the world does.
\<close>

definition triple ::
  "(vars \<Rightarrow> bool) \<Rightarrow> ('w, 'a) act \<Rightarrow> ('a outcome \<Rightarrow> event list \<Rightarrow> vars \<Rightarrow> bool) \<Rightarrow> bool" where
  "triple P m Q \<longleftrightarrow>
     (\<forall>s. P (sys_vars s) \<longrightarrow>
        (\<exists>es. sys_trace (snd (m s)) = sys_trace s @ es \<and> Q (fst (m s)) es (sys_vars (snd (m s)))))"

named_theorems triple_rules \<open>rules of the trace logic, one for every combinator\<close>

lemma tripleI:
  "(\<And>s. P (sys_vars s) \<Longrightarrow>
      \<exists>es. sys_trace (snd (m s)) = sys_trace s @ es \<and> Q (fst (m s)) es (sys_vars (snd (m s)))) \<Longrightarrow> triple P m Q"
  by (simp add: triple_def)

lemma tripleD:
  assumes "triple P m Q" and "P (sys_vars s)" and "m s = (r, s')"
  obtains es where "sys_trace s' = sys_trace s @ es" and "Q r es (sys_vars s')"
  using assms unfolding triple_def by fastforce

lemma triple_conseq:
  assumes "triple P' m Q'" and "\<And>v. P v \<Longrightarrow> P' v" and "\<And>r es v. Q' r es v \<Longrightarrow> Q r es v"
  shows "triple P m Q"
  using assms unfolding triple_def by meson

lemma triple_post: "triple P m Q' \<Longrightarrow> (\<And>r es v. Q' r es v \<Longrightarrow> Q r es v) \<Longrightarrow> triple P m Q"
  by (rule triple_conseq)

lemma triple_pre: "triple P' m Q \<Longrightarrow> (\<And>v. P v \<Longrightarrow> P' v) \<Longrightarrow> triple P m Q"
  by (rule triple_conseq)

lemma triple_conj: "triple P m Q \<Longrightarrow> triple P m R \<Longrightarrow> triple P m (\<lambda>r es v. Q r es v \<and> R r es v)"
  unfolding triple_def by (metis same_append_eq)

lemma triple_ret: "(\<And>v. P v \<Longrightarrow> Q (Ok x) [] v) \<Longrightarrow> triple P (act_ret x) Q"
  by (auto simp: triple_def act_ret_def)

lemma triple_lift: "(\<And>v. P v \<Longrightarrow> Q r [] v) \<Longrightarrow> triple P (act_lift r) Q"
  by (auto simp: triple_def act_lift_def)

lemma triple_bind:
  fixes m :: "('w, 'a) act"
  assumes "triple P m R"
    and "\<And>x es. triple (R (Ok x) es) (f x) (\<lambda>r es'. Q r (es @ es'))"
    and "\<And>e es v. R (Err e) es v \<Longrightarrow> Q (Err e) es v"
    and "\<And>p es v. R (Panic p) es v \<Longrightarrow> Q (Panic p) es v"
  shows "triple P (act_bind m f) Q"
proof (rule tripleI)
  fix s :: "'w sys" assume "P (sys_vars s)"
  then obtain es where es: "sys_trace (snd (m s)) = sys_trace s @ es" "R (fst (m s)) es (sys_vars (snd (m s)))"
    using assms(1) unfolding triple_def by blast
  show "\<exists>es. sys_trace (snd (act_bind m f s)) = sys_trace s @ es
      \<and> Q (fst (act_bind m f s)) es (sys_vars (snd (act_bind m f s)))"
  proof (cases "fst (m s)")
    case (Ok x)
    then have eq: "act_bind m f s = f x (snd (m s))" by (cases "m s") (simp add: act_bind_def)
    have "R (Ok x) es (sys_vars (snd (m s)))" using es(2) Ok by simp
    then obtain es' where "sys_trace (snd (f x (snd (m s)))) = sys_trace (snd (m s)) @ es'"
      "Q (fst (f x (snd (m s)))) (es @ es') (sys_vars (snd (f x (snd (m s)))))"
      using assms(2) [of x es] unfolding triple_def by blast
    then show ?thesis unfolding eq using es(1) by (intro exI [of _ "es @ es'"]) simp
  next
    case (Err e)
    then have "act_bind m f s = (Err e, snd (m s))" by (cases "m s") (simp add: act_bind_def)
    then show ?thesis using es Err assms(3) by auto
  next
    case (Panic p)
    then have "act_bind m f s = (Panic p, snd (m s))" by (cases "m s") (simp add: act_bind_def)
    then show ?thesis using es Panic assms(4) by auto
  qed
qed

lemma triple_catch:
  fixes m :: "('w, 'a) act"
  assumes "triple P m R"
    and "\<And>e es. triple (R (Err e) es) (h e) (\<lambda>r es'. Q r (es @ es'))"
    and "\<And>x es v. R (Ok x) es v \<Longrightarrow> Q (Ok x) es v"
    and "\<And>p es v. R (Panic p) es v \<Longrightarrow> Q (Panic p) es v"
  shows "triple P (act_catch m h) Q"
proof (rule tripleI)
  fix s :: "'w sys" assume "P (sys_vars s)"
  then obtain es where es: "sys_trace (snd (m s)) = sys_trace s @ es" "R (fst (m s)) es (sys_vars (snd (m s)))"
    using assms(1) unfolding triple_def by blast
  show "\<exists>es. sys_trace (snd (act_catch m h s)) = sys_trace s @ es
      \<and> Q (fst (act_catch m h s)) es (sys_vars (snd (act_catch m h s)))"
  proof (cases "fst (m s)")
    case (Err e)
    then have eq: "act_catch m h s = h e (snd (m s))" by (cases "m s") (simp add: act_catch_def)
    have "R (Err e) es (sys_vars (snd (m s)))" using es(2) Err by simp
    then obtain es' where "sys_trace (snd (h e (snd (m s)))) = sys_trace (snd (m s)) @ es'"
      "Q (fst (h e (snd (m s)))) (es @ es') (sys_vars (snd (h e (snd (m s)))))"
      using assms(2) [of e es] unfolding triple_def by blast
    then show ?thesis unfolding eq using es(1) by (intro exI [of _ "es @ es'"]) simp
  next
    case (Ok x)
    then have "act_catch m h s = (Ok x, snd (m s))" by (cases "m s") (simp add: act_catch_def)
    then show ?thesis using es Ok assms(3) by auto
  next
    case (Panic p)
    then have "act_catch m h s = (Panic p, snd (m s))" by (cases "m s") (simp add: act_catch_def)
    then show ?thesis using es Panic assms(4) by auto
  qed
qed

lemma triple_call:
  assumes "\<And>v w r w'. P v \<Longrightarrow> f w = (r, w') \<Longrightarrow> Q r [(req, answer_of enc r)] v"
  shows "triple P (act_call req enc f) Q"
  using assms by (auto simp: triple_def act_call_def split: prod.splits)

lemma triple_with_cluster:
  assumes "\<And>c. triple (\<lambda>v. P v \<and> v_cluster v = c) (f c) Q"
  shows "triple P (with_cluster f) Q"
  using assms unfolding triple_def with_cluster_def by blast

lemma triple_put_cluster:
  "(\<And>v. P v \<Longrightarrow> Q (Ok ()) [] (v\<lparr>v_cluster := c\<rparr>)) \<Longrightarrow> triple P (put_cluster c) Q"
  by (simp add: triple_def put_cluster_def)

lemma triple_put_resource:
  "(\<And>v. P v \<Longrightarrow> Q (Ok ()) [] (v\<lparr>v_resource := x, v_operation := OperationResultNone\<rparr>)) \<Longrightarrow>
     triple P (put_resource x) Q"
  by (simp add: triple_def put_resource_def)

lemma triple_get_resource:
  "(\<And>v. P v \<Longrightarrow> Q (Ok (v_resource v)) [] v) \<Longrightarrow> triple P get_resource Q"
  by (simp add: triple_def get_resource_def)

lemma triple_get_operation:
  "(\<And>v. P v \<Longrightarrow> Q (Ok (v_operation v)) [] v) \<Longrightarrow> triple P get_operation Q"
  by (simp add: triple_def get_operation_def)

lemma triple_now: "(\<And>v t. P v \<Longrightarrow> Q (Ok t) [] v) \<Longrightarrow> triple P (now E) Q"
  by (auto simp: triple_def now_def split: prod.splits)

lemma triple_fresh_random: "(\<And>v r. P v \<Longrightarrow> Q (Ok r) [] v) \<Longrightarrow> triple P (fresh_random E) Q"
  by (auto simp: triple_def fresh_random_def split: prod.splits)

lemma triple_if:
  "(b \<Longrightarrow> triple P m Q) \<Longrightarrow> (\<not> b \<Longrightarrow> triple P n Q) \<Longrightarrow> triple P (if b then m else n) Q"
  by simp

lemma triple_option:
  "(x = None \<Longrightarrow> triple P m Q) \<Longrightarrow> (\<And>y. x = Some y \<Longrightarrow> triple P (f y) Q) \<Longrightarrow>
     triple P (case x of None \<Rightarrow> m | Some y \<Rightarrow> f y) Q"
  by (cases x) simp_all

text \<open>A repeated action: one attempt must re-establish the precondition when it may be repeated.\<close>

lemma triple_attempts:
  assumes "attempts p m s r" and "triple P m R" and "P (sys_vars s)"
    and "\<And>e es v. R (Err e) es v \<Longrightarrow> p e \<Longrightarrow> P v"
    and "\<And>r es v. R r es v \<Longrightarrow> Q r es v"
    and "\<And>e es v r es' v'. R (Err e) es v \<Longrightarrow> p e \<Longrightarrow> Q r es' v' \<Longrightarrow> Q r (es @ es') v'"
  shows "\<exists>es. sys_trace (snd r) = sys_trace s @ es \<and> Q (fst r) es (sys_vars (snd r))"
  using assms(1,3)
proof (induction rule: attempts.induct)
  case (last_attempt s)
  then show ?case using assms(2,5) unfolding triple_def by blast
next
  case (next_attempt s e s' w r)
  obtain es where es: "sys_trace s' = sys_trace s @ es" "R (Err e) es (sys_vars s')"
    using tripleD [OF assms(2) next_attempt.prems next_attempt.hyps(1)] .
  then have "P (sys_vars (s'\<lparr>sys_world := w\<rparr>))" using assms(4) next_attempt.hyps(2) by simp
  from next_attempt.IH [OF this] obtain es' where
    es': "sys_trace (snd r) = sys_trace s' @ es'" "Q (fst r) es' (sys_vars (snd r))" by auto
  have "Q (fst r) (es @ es') (sys_vars (snd r))"
    using assms(6) es(2) next_attempt.hyps(2) es'(2) by blast
  then show ?case using es(1) es'(1) by (intro exI [of _ "es @ es'"]) simp
qed

lemma triple_retry:
  fixes m :: "('w, unit) act"
  assumes "retries f" and "triple P m R"
    and "\<And>e es v. R (Err e) es v \<Longrightarrow> p e \<Longrightarrow> P v"
    and "\<And>r es v. R r es v \<Longrightarrow> Q r es v"
    and "\<And>e es v r es' v'. R (Err e) es v \<Longrightarrow> p e \<Longrightarrow> Q r es' v' \<Longrightarrow> Q r (es @ es') v'"
  shows "triple P (f p m) Q"
proof (rule tripleI)
  fix s :: "'w sys" assume pre: "P (sys_vars s)"
  have runs: "attempts p m s (f p m s)" using assms(1) unfolding retries_def by blast
  show "\<exists>es. sys_trace (snd (f p m s)) = sys_trace s @ es
      \<and> Q (fst (f p m s)) es (sys_vars (snd (f p m s)))"
    by (rule triple_attempts [where P = P and Q = Q, OF runs assms(2) pre]) (fact assms(3), fact assms(4), fact assms(5))
qed

text \<open>Forward rules: the strongest postconditions of the basic actions.\<close>

lemma triple_call_sp: "triple P (act_call req enc f) (\<lambda>r es v. P v \<and> es = [(req, answer_of enc r)])"
  by (rule triple_call) simp

lemma triple_lift_sp: "triple P (act_lift x) (\<lambda>r es v. P v \<and> es = [] \<and> r = x)"
  by (rule triple_lift) simp

lemma triple_bind_lift:
  assumes "\<And>x. m = Ok x \<Longrightarrow> triple P (f x) Q"
    and "\<And>e v. m = Err e \<Longrightarrow> P v \<Longrightarrow> Q (Err e) [] v"
    and "\<And>p v. m = Panic p \<Longrightarrow> P v \<Longrightarrow> Q (Panic p) [] v"
  shows "triple P (act_bind (act_lift m) f) Q"
  using assms by (cases m) (auto simp: triple_def act_bind_def act_lift_def)

lemma act_bind_ret [simp]: "act_bind (act_ret x) f = f x"
  by (rule ext) (simp add: act_bind_def act_ret_def)

lemma triple_discard:
  assumes "triple P m R" and "\<And>x es v. R (Ok x) es v \<Longrightarrow> Q (Ok ()) es v"
    and "\<And>e es v. R (Err e) es v \<Longrightarrow> Q (Err e) es v"
    and "\<And>p es v. R (Panic p) es v \<Longrightarrow> Q (Panic p) es v"
  shows "triple P (act_bind m (\<lambda>_. act_ret ())) Q"
  by (rule triple_bind [OF assms(1)]) (auto intro!: triple_ret assms(2-4))

lemma triple_sleep:
  "triple P (sleep_for E d) (\<lambda>r es v. P v \<and> r = Ok () \<and> es = [(Sleep d, Acknowledged)])"
  by (auto simp: triple_def sleep_for_def act_call_def answer_of_def)

lemma triple_record_event:
  "triple P (record_event t reason msg) (\<lambda>r es v. P v \<and> r = Ok () \<and> es = [(RecordEvent t reason msg, Acknowledged)])"
  by (auto simp: triple_def record_event_def act_call_def answer_of_def)

lemma triple_pure: "(\<phi> \<Longrightarrow> triple P m Q) \<Longrightarrow> triple (\<lambda>v. P v \<and> \<phi>) m Q"
  by (cases \<phi>) (simp_all add: triple_def)

lemma triple_carry: "triple P m Q \<Longrightarrow> triple (\<lambda>v. P v \<and> \<phi>) m (\<lambda>r es v. Q r es v \<and> \<phi>)"
  by (cases \<phi>) (simp_all add: triple_def)

text \<open>
  A sequence whose first part tells of the variables \<open>R\<close> and of its result and events \<open>F\<close>: the
  second part starts from \<open>R\<close>, and what the two tell is combined.
\<close>

lemma triple_bind_carry:
  assumes "triple P m (\<lambda>r es v. R v \<and> F r es)"
    and "\<And>x es. F (Ok x) es \<Longrightarrow> triple R (f x) (S x)"
    and "\<And>x es r es' v. F (Ok x) es \<Longrightarrow> S x r es' v \<Longrightarrow> Q r (es @ es') v"
    and "\<And>e es v. R v \<Longrightarrow> F (Err e) es \<Longrightarrow> Q (Err e) es v"
    and "\<And>p es v. R v \<Longrightarrow> F (Panic p) es \<Longrightarrow> Q (Panic p) es v"
  shows "triple P (act_bind m f) Q"
proof (rule triple_bind [OF assms(1)])
  show "triple (\<lambda>v. R v \<and> F (Ok x) es) (f x) (\<lambda>r es'. Q r (es @ es'))" for x es
    by (rule triple_pure, rule triple_post [OF assms(2)]) (auto intro: assms(3))
qed (auto intro: assms(4,5))

lemma triple_frame: "triple P m Q \<Longrightarrow> (\<phi> \<Longrightarrow> triple P m (\<lambda>r es v. Q r es v \<and> \<phi>))"
  by simp

lemma triple_wrap:
  assumes "triple P m R"
    and "\<And>x es v. R (Ok x) es v \<Longrightarrow> Q (Ok x) es v"
    and "\<And>e es v. R (Err e) es v \<Longrightarrow> Q (Err (WrapError msg e)) es v"
    and "\<And>p es v. R (Panic p) es v \<Longrightarrow> Q (Panic p) es v"
  shows "triple P (act_wrap msg m) Q"
  unfolding act_wrap_def
  by (rule triple_catch [OF assms(1)]) (auto intro!: triple_lift assms(2-4))

lemma triple_unless_missing:
  fixes m :: "('w, 'a) act"
  assumes "triple P m R"
    and "\<And>x es v. R (Ok x) es v \<Longrightarrow> Q (Ok (Some x)) es v"
    and "\<And>e es v. R (Err e) es v \<Longrightarrow> is_not_found e \<Longrightarrow> Q (Ok None) es v"
    and "\<And>e es v. R (Err e) es v \<Longrightarrow> \<not> is_not_found e \<Longrightarrow> Q (Err e) es v"
    and "\<And>p es v. R (Panic p) es v \<Longrightarrow> Q (Panic p) es v"
  shows "triple P (unless_missing m) Q"
proof (rule tripleI)
  fix s :: "'w sys" assume "P (sys_vars s)"
  then obtain es where es: "sys_trace (snd (m s)) = sys_trace s @ es" "R (fst (m s)) es (sys_vars (snd (m s)))"
    using assms(1) unfolding triple_def by blast
  have "Q (fst (unless_missing m s)) es (sys_vars (snd (unless_missing m s)))
      \<and> sys_trace (snd (unless_missing m s)) = sys_trace (snd (m s))"
  proof (cases "m s")
    case (Pair r s')
    with es(2) assms(2-5) show ?thesis
      by (cases r) (auto simp: unless_missing_def act_catch_def act_bind_def act_ret_def act_lift_def)
  qed
  with es(1) show "\<exists>es. sys_trace (snd (unless_missing m s)) = sys_trace s @ es
      \<and> Q (fst (unless_missing m s)) es (sys_vars (snd (unless_missing m s)))" by auto
qed

text \<open>Events that the events before them must justify.\<close>

fun guarded :: "(event list \<Rightarrow> event \<Rightarrow> bool) \<Rightarrow> event list \<Rightarrow> event list \<Rightarrow> bool" where
  "guarded G h [] = True"
| "guarded G h (e # es) = (G h e \<and> guarded G (h @ [e]) es)"

lemma guarded_append [simp]: "guarded G h (xs @ ys) = (guarded G h xs \<and> guarded G (h @ xs) ys)"
  by (induction xs arbitrary: h) auto

lemma guarded_iff: "guarded G h es \<longleftrightarrow> (\<forall>pre e post. es = pre @ e # post \<longrightarrow> G (h @ pre) e)"
proof (induction es arbitrary: h)
  case (Cons x xs)
  show ?case
  proof
    assume "guarded G h (x # xs)"
    with Cons.IH show "\<forall>pre e post. x # xs = pre @ e # post \<longrightarrow> G (h @ pre) e"
      by (auto simp: Cons_eq_append_conv)
  next
    assume all: "\<forall>pre e post. x # xs = pre @ e # post \<longrightarrow> G (h @ pre) e"
    then have "G (h @ []) x" by blast
    moreover have "G ((h @ [x]) @ pre) e" if "xs = pre @ e # post" for pre e post
      using all that by (metis append_Cons append_assoc append_Nil)
    ultimately show "guarded G h (x # xs)" using Cons.IH by auto
  qed
qed simp

lemma guarded_mono:
  assumes "\<And>h e. G h e \<Longrightarrow> G (h' @ h) e" and "guarded G h es"
  shows "guarded G (h' @ h) es"
  using assms(2)
proof (induction es arbitrary: h)
  case (Cons e es)
  then show ?case using assms(1) by (metis append_assoc guarded.simps(2))
qed simp

lemma guarded_all: "(\<And>h e. e \<in> set es \<Longrightarrow> G h e) \<Longrightarrow> guarded G h es"
  by (induction es arbitrary: h) auto

section \<open>Safe actions\<close>

text \<open>
  The special case that most operations need: an invariant \<open>J\<close> of the variables is kept, and
  every event is one of \<open>A\<close>.
\<close>

definition safe :: "(vars \<Rightarrow> bool) \<Rightarrow> (event \<Rightarrow> bool) \<Rightarrow> ('w, 'a) act \<Rightarrow> bool" where
  "safe J A m = triple J m (\<lambda>r es v. J v \<and> (\<forall>e \<in> set es. A e))"

named_theorems safe_intros \<open>rules that show an action safe\<close>

lemma safe_ret [safe_intros]: "safe J A (act_ret x)"
  unfolding safe_def by (rule triple_ret) simp

lemma safe_lift [safe_intros]: "safe J A (act_lift r)"
  unfolding safe_def by (rule triple_lift) simp

lemma safe_after:
  assumes "safe J A m"
  shows "triple (\<lambda>v. J v \<and> (\<forall>e \<in> set es. A e)) m (\<lambda>r es' v. J v \<and> (\<forall>e \<in> set (es @ es'). A e))"
proof (cases "\<forall>e \<in> set es. A e")
  case True
  then show ?thesis using assms by (simp add: safe_def ball_Un)
next
  case False
  then show ?thesis by (auto simp: triple_def)
qed

lemma safe_bind [safe_intros]:
  assumes "safe J A m" and "\<And>x. safe J A (f x)"
  shows "safe J A (act_bind m f)"
  unfolding safe_def
proof (rule triple_bind [OF assms(1) [unfolded safe_def]])
  show "triple (\<lambda>v. J v \<and> Ball (set es) A) (f x) (\<lambda>r es' v. J v \<and> Ball (set (es @ es')) A)" for x es
    by (rule safe_after [OF assms(2)])
qed auto

lemma safe_catch [safe_intros]:
  assumes "safe J A m" and "\<And>e. safe J A (h e)"
  shows "safe J A (act_catch m h)"
  unfolding safe_def
proof (rule triple_catch [OF assms(1) [unfolded safe_def]])
  show "triple (\<lambda>v. J v \<and> Ball (set es) A) (h e) (\<lambda>r es' v. J v \<and> Ball (set (es @ es')) A)" for e es
    by (rule safe_after [OF assms(2)])
qed auto

lemma safe_if [safe_intros]:
  "(b \<Longrightarrow> safe J A m) \<Longrightarrow> (\<not> b \<Longrightarrow> safe J A n) \<Longrightarrow> safe J A (if b then m else n)"
  by simp

lemma safe_option [safe_intros]:
  "(x = None \<Longrightarrow> safe J A m) \<Longrightarrow> (\<And>y. x = Some y \<Longrightarrow> safe J A (f y)) \<Longrightarrow>
     safe J A (case x of None \<Rightarrow> m | Some y \<Rightarrow> f y)"
  by (cases x) simp_all

lemma safe_prod [safe_intros]:
  "(\<And>x y. p = (x, y) \<Longrightarrow> safe J A (f x y)) \<Longrightarrow> safe J A (case p of (x, y) \<Rightarrow> f x y)"
  by (cases p) simp

lemma safe_let [safe_intros]: "(\<And>y. y = x \<Longrightarrow> safe J A (f y)) \<Longrightarrow> safe J A (Let x f)"
  by simp

lemma safe_wrap [safe_intros]: "safe J A m \<Longrightarrow> safe J A (act_wrap msg m)"
  unfolding act_wrap_def by (intro safe_intros)

lemma safe_ignore [safe_intros]: "safe J A m \<Longrightarrow> safe J A (act_ignore m)"
  unfolding act_ignore_def by (intro safe_intros)

lemma safe_unless_missing [safe_intros]: "safe J A m \<Longrightarrow> safe J A (unless_missing m)"
  unfolding unless_missing_def by (intro safe_intros)

lemma safe_unless_requeued [safe_intros]: "safe J A m \<Longrightarrow> safe J A k \<Longrightarrow> safe J A (unless_requeued m k)"
  unfolding unless_requeued_def by (intro safe_intros)

lemma safe_call:
  assumes "\<And>a. A (req, a)"
  shows "safe J A (act_call req enc f)"
  unfolding safe_def by (rule triple_call) (simp add: assms)

lemma safe_get_object [safe_intros]: "(\<And>a. A (GetObject cl k ns n, a)) \<Longrightarrow> safe J A (get_object E cl k ns n)"
  unfolding get_object_def by (rule safe_call)

lemma safe_update_object [safe_intros]: "(\<And>a. A (UpdateObject cl x, a)) \<Longrightarrow> safe J A (update_object E cl x)"
  unfolding update_object_def by (rule safe_call)

lemma safe_list_pods [safe_intros]: "(\<And>a. A (ListPods sel, a)) \<Longrightarrow> safe J A (list_pods E sel)"
  unfolding list_pods_def by (rule safe_call)

lemma safe_delete_object [safe_intros]:
  "(\<And>a. A (DeleteObject cl k ns n u pr, a)) \<Longrightarrow> safe J A (delete_object E cl k ns n u pr)"
  unfolding delete_object_def by (rule safe_call)

lemma safe_exec [safe_intros]: "(\<And>a. A (ExecInPod ns pod ctr cmd, a)) \<Longrightarrow> safe J A (exec_in_pod E ns pod ctr cmd)"
  unfolding exec_in_pod_def by (rule safe_call)

lemma safe_record_event [safe_intros]: "(\<And>a. A (RecordEvent t r msg, a)) \<Longrightarrow> safe J A (record_event t r msg)"
  unfolding record_event_def by (rule safe_call)

lemma safe_sleep [safe_intros]: "(\<And>a. A (Sleep d, a)) \<Longrightarrow> safe J A (sleep_for E d)"
  unfolding sleep_for_def by (rule safe_call)

lemma safe_now [safe_intros]: "safe J A (now E)"
  unfolding safe_def by (rule triple_now) simp

lemma safe_fresh_random [safe_intros]: "safe J A (fresh_random E)"
  unfolding safe_def by (rule triple_fresh_random) simp

lemma safe_get_resource [safe_intros]: "safe J A get_resource"
  unfolding safe_def by (rule triple_get_resource) simp

lemma safe_get_operation [safe_intros]: "safe J A get_operation"
  unfolding safe_def by (rule triple_get_operation) simp

lemma safe_for_each [safe_intros]: "(\<And>x. x \<in> set xs \<Longrightarrow> safe J A (f x)) \<Longrightarrow> safe J A (for_each f xs)"
  by (induction xs) (auto intro!: safe_intros)

lemma safe_retry: "retries f \<Longrightarrow> safe J A m \<Longrightarrow> safe J A (f p m)"
  unfolding safe_def
  by (rule triple_retry [where R = "\<lambda>r es v. J v \<and> (\<forall>e \<in> set es. A e)"]) auto

lemma safe_retry_on_conflict: "retries (retry_on E) \<Longrightarrow> safe J A m \<Longrightarrow> safe J A (retry_on_conflict E m)"
  unfolding retry_on_conflict_def by (rule safe_retry)


text \<open>Safe actions whose value, if they return one, satisfies \<open>V\<close>.\<close>

definition yields :: "(vars \<Rightarrow> bool) \<Rightarrow> (event \<Rightarrow> bool) \<Rightarrow> ('a \<Rightarrow> bool) \<Rightarrow> ('w, 'a) act \<Rightarrow> bool" where
  "yields J A V m = triple J m (\<lambda>r es v. J v \<and> (\<forall>e \<in> set es. A e) \<and> (\<forall>x. r = Ok x \<longrightarrow> V x))"

lemma yields_safe: "yields J A V m \<Longrightarrow> safe J A m"
  unfolding yields_def safe_def by (erule triple_post) blast

lemma safe_yields: "safe J A m \<Longrightarrow> (\<And>x. V x) \<Longrightarrow> yields J A V m"
  unfolding yields_def safe_def by (erule triple_post) blast

lemma yields_after:
  assumes "yields J A V m"
  shows "triple (\<lambda>v. J v \<and> (\<forall>e \<in> set es. A e)) m
    (\<lambda>r es' v. J v \<and> (\<forall>e \<in> set (es @ es'). A e) \<and> (\<forall>x. r = Ok x \<longrightarrow> V x))"
proof (cases "\<forall>e \<in> set es. A e")
  case True
  then show ?thesis using assms by (simp add: yields_def ball_Un)
next
  case False
  then show ?thesis by (auto simp: triple_def)
qed

lemma yields_bind:
  assumes "yields J A U m" and "\<And>x. U x \<Longrightarrow> yields J A V (f x)"
  shows "yields J A V (act_bind m f)"
  unfolding yields_def
proof (rule triple_bind [OF assms(1) [unfolded yields_def]])
  fix x es
  show "triple (\<lambda>v. J v \<and> Ball (set es) A \<and> (\<forall>y. Ok x = Ok y \<longrightarrow> U y)) (f x)
      (\<lambda>r es' v. J v \<and> Ball (set (es @ es')) A \<and> (\<forall>y. r = Ok y \<longrightarrow> V y))"
  proof (cases "U x")
    case True
    show ?thesis by (rule triple_pre [OF yields_after [OF assms(2) [OF True]]]) simp
  next
    case False
    then show ?thesis by (auto simp: triple_def)
  qed
qed auto

lemma yields_catch:
  assumes "yields J A V m" and "\<And>e. yields J A V (h e)"
  shows "yields J A V (act_catch m h)"
  unfolding yields_def
proof (rule triple_catch [OF assms(1) [unfolded yields_def]])
  show "triple (\<lambda>v. J v \<and> Ball (set es) A \<and> (\<forall>y. Err e = Ok y \<longrightarrow> V y)) (h e)
      (\<lambda>r es' v. J v \<and> Ball (set (es @ es')) A \<and> (\<forall>y. r = Ok y \<longrightarrow> V y))" for e es
    by (rule triple_pre [OF yields_after [OF assms(2)]]) simp
qed auto

lemma yields_ret: "V x \<Longrightarrow> yields J A V (act_ret x)"
  unfolding yields_def by (rule triple_ret) simp

lemma yields_lift: "(\<And>x. r = Ok x \<Longrightarrow> V x) \<Longrightarrow> yields J A V (act_lift r)"
  unfolding yields_def by (rule triple_lift) simp

lemma yields_wrap: "yields J A V m \<Longrightarrow> yields J A V (act_wrap msg m)"
  unfolding act_wrap_def by (intro yields_catch yields_lift) simp_all

lemma yields_unless_missing:
  "yields J A V m \<Longrightarrow> yields J A (\<lambda>r. \<forall>x. r = Some x \<longrightarrow> V x) (unless_missing m)"
  unfolding unless_missing_def
  by (intro yields_catch yields_bind [where U = V]) (auto intro: yields_ret yields_lift)

lemma safe_bind_yields:
  assumes "yields J A V m" and "\<And>x. V x \<Longrightarrow> safe J A (f x)"
  shows "safe J A (act_bind m f)"
  by (rule yields_safe, rule yields_bind [OF assms(1)], rule safe_yields [OF assms(2)]) simp_all

text \<open>An action that needs more than the invariant, followed by safe ones.\<close>

lemma triple_then_safe:
  assumes "triple P m (\<lambda>r es v. J v \<and> (\<forall>e \<in> set es. A e))" and "\<And>x. safe J A (f x)"
  shows "triple P (act_bind m f) (\<lambda>r es v. J v \<and> (\<forall>e \<in> set es. A e))"
proof (rule triple_bind [OF assms(1)])
  show "triple (\<lambda>v. J v \<and> Ball (set es) A) (f x) (\<lambda>r es' v. J v \<and> Ball (set (es @ es')) A)" for x es
    by (rule safe_after [OF assms(2)])
qed auto

lemma yields_get_object:
  assumes "keeps_identity E" and "\<And>a. A (GetObject cl k ns n, a)"
  shows "yields J A (\<lambda>x. kind_of x = k \<and> om_namespace (object_meta x) = ns \<and> om_name (object_meta x) = n)
    (get_object E cl k ns n)"
  unfolding yields_def get_object_def
  by (rule triple_call) (auto simp: assms(2) dest: keeps_identityD(1) [OF assms(1)])

section \<open>The identity of the custom resource\<close>

text \<open>
  The invariant of a reconciliation: whatever the API server answers, the variable keeps
  pointing to the custom resource that the reconciliation began with.
\<close>

definition cluster_id :: "RabbitmqCluster \<Rightarrow> string \<times> string \<times> string" where
  "cluster_id c = (cluster_name c, cluster_namespace c, om_uid (cl_meta c))"

definition reconciles :: "string \<times> string \<times> string \<Rightarrow> vars \<Rightarrow> bool" where
  "reconciles rid v = (cluster_id (v_cluster v) = rid)"

lemma cluster_id_simps [simp]:
  "cluster_id (c\<lparr>cl_status := st\<rparr>) = cluster_id c"
  "cluster_id (c\<lparr>cl_spec := sp\<rparr>) = cluster_id c"
  "om_name m = cluster_name c \<and> om_namespace m = cluster_namespace c \<and> om_uid m = om_uid (cl_meta c) \<Longrightarrow>
     cluster_id (c\<lparr>cl_meta := m\<rparr>) = cluster_id c"
  by (simp_all add: cluster_id_def)

lemma safe_with_cluster [safe_intros]:
  assumes "\<And>c. cluster_id c = rid \<Longrightarrow> safe (reconciles rid) A (f c)"
  shows "safe (reconciles rid) A (with_cluster f)"
  unfolding safe_def
proof (rule triple_with_cluster)
  fix c
  show "triple (\<lambda>v. reconciles rid v \<and> v_cluster v = c) (f c) (\<lambda>r es v. reconciles rid v \<and> Ball (set es) A)"
  proof (cases "cluster_id c = rid")
    case True
    then show ?thesis using assms [OF True] by (auto simp: safe_def intro: triple_pre)
  next
    case False
    then show ?thesis by (auto simp: triple_def reconciles_def)
  qed
qed

lemma yields_with_cluster:
  assumes "yields (reconciles rid) A V m" and "\<And>c. cluster_id c = rid \<Longrightarrow> f c = m"
  shows "yields (reconciles rid) A V (with_cluster f)"
proof -
  have "with_cluster f s = m s" if "reconciles rid (sys_vars s)" for s
    using assms(2) that by (simp add: with_cluster_def reconciles_def)
  then show ?thesis using assms(1) by (simp add: yields_def triple_def)
qed

lemma yields_on_cluster:
  assumes "\<And>c. cluster_id c = rid \<Longrightarrow> yields (reconciles rid) A V (f c)"
  shows "yields (reconciles rid) A V (with_cluster f)"
  unfolding yields_def
proof (rule triple_with_cluster)
  fix c
  show "triple (\<lambda>v. reconciles rid v \<and> v_cluster v = c) (f c)
      (\<lambda>r es v. reconciles rid v \<and> Ball (set es) A \<and> (\<forall>x. r = Ok x \<longrightarrow> V x))"
  proof (cases "cluster_id c = rid")
    case True
    then show ?thesis using assms [OF True] by (auto simp: yields_def intro: triple_pre)
  next
    case False
    then show ?thesis by (auto simp: triple_def reconciles_def)
  qed
qed

lemma safe_put_cluster [safe_intros]:
  "cluster_id c = rid \<Longrightarrow> safe (reconciles rid) A (put_cluster c)"
  unfolding safe_def by (rule triple_put_cluster) (simp add: reconciles_def)

lemma safe_put_resource [safe_intros]: "safe (reconciles rid) A (put_resource x)"
  unfolding safe_def by (rule triple_put_resource) (simp add: reconciles_def)

lemma safe_update_status:
  assumes "keeps_identity E" and "\<And>c a. cluster_id c = rid \<Longrightarrow> A (UpdateStatus c, a)"
  shows "safe (reconciles rid) A (update_status E)"
  unfolding update_status_def
proof (rule safe_with_cluster)
  fix c assume c: "cluster_id c = rid"
  have "yields (reconciles rid) A (\<lambda>c'. cluster_id c' = rid)
      (act_call (UpdateStatus c) (\<lambda>c'. GotObject (ClusterObject c')) (api_update_status E c))"
    unfolding yields_def
    by (rule triple_call)
      (auto simp: assms(2) c, auto simp: c [symmetric] cluster_id_def same_identity_def dest!: keeps_identityD(3) [OF assms(1)])
  then show "safe (reconciles rid) A (act_bind (act_call (UpdateStatus c) (\<lambda>c'. GotObject (ClusterObject c'))
      (api_update_status E c)) put_cluster)"
    by (rule safe_bind_yields) (rule safe_put_cluster)
qed

lemma safe_update_cluster:
  assumes "keeps_identity E" and "\<And>c a. cluster_id c = rid \<Longrightarrow> A (UpdateObject Cached (ClusterObject c), a)"
  shows "safe (reconciles rid) A (update_cluster E)"
  unfolding update_cluster_def
proof (rule safe_with_cluster)
  fix c assume c: "cluster_id c = rid"
  have "yields (reconciles rid) A (\<lambda>x. same_identity (ClusterObject c) x \<and> om_uid (object_meta x) = om_uid (cl_meta c))
      (update_object E Cached (ClusterObject c))"
    unfolding yields_def update_object_def
    by (rule triple_call) (auto simp: assms(2) c dest!: keeps_identityD(2) [OF assms(1)])
  then show "safe (reconciles rid) A (act_bind (update_object E Cached (ClusterObject c))
      (\<lambda>x. act_bind (act_lift (as_cluster x)) put_cluster))"
  proof (rule safe_bind_yields)
    fix x assume "same_identity (ClusterObject c) x \<and> om_uid (object_meta x) = om_uid (cl_meta c)"
    then have "yields (reconciles rid) A (\<lambda>c'. cluster_id c' = rid) (act_lift (as_cluster x))"
      by (intro yields_lift) (auto simp: c [symmetric] as_cluster_def same_identity_def cluster_id_def
          split: api_object.splits)
    then show "safe (reconciles rid) A (act_bind (act_lift (as_cluster x)) put_cluster)"
      by (rule safe_bind_yields) (rule safe_put_cluster)
  qed
qed

text \<open>
  \<open>CreateOrUpdate\<close> on an object that the callback leaves its name: the variable \<open>resource\<close>
  keeps it as well.
\<close>

lemma triple_create_or_update:
  assumes "keeps_identity E" and "\<And>z z'. f z = Ok z' \<Longrightarrow> same_identity z z'"
  shows "triple (\<lambda>v. reconciles rid v \<and> same_identity x (v_resource v)) (create_or_update E f)
    (\<lambda>r es v. reconciles rid v \<and> same_identity x (v_resource v)
       \<and> (\<exists>y a. es = [(CreateOrUpdateObject y, a)] \<and> same_identity x y))"
proof (rule tripleI)
  fix s :: "'a sys" assume pre: "reconciles rid (sys_vars s) \<and> same_identity x (v_resource (sys_vars s))"
  obtain r w where run: "api_create_or_update E f (v_resource (sys_vars s)) (sys_world s) = (r, w)" by fastforce
  have "same_identity (v_resource (sys_vars s)) y" if "r = Ok (op, y, e)" for op y e
    using keeps_identityD(4) [OF assms(1)] run that assms(2) by blast
  then have "same_identity x y" if "r = Ok (op, y, e)" for op y e
    using pre that by (auto simp: same_identity_def)
  with pre run show "\<exists>es. sys_trace (snd (create_or_update E f s)) = sys_trace s @ es
      \<and> reconciles rid (sys_vars (snd (create_or_update E f s)))
      \<and> same_identity x (v_resource (sys_vars (snd (create_or_update E f s))))
      \<and> (\<exists>y a. es = [(CreateOrUpdateObject y, a)] \<and> same_identity x y)"
    by (cases r) (auto simp: create_or_update_def Let_def reconciles_def split: prod.splits)
qed

end
