(* ===== verification/Ctl_Utils.thy ===== *)
theory Ctl_Utils
  imports Op_Effects
begin

text \<open>
  The parts of the package \<open>controllers\<close> that several steps of a reconciliation share
  (\<open>utils.go\<close>), and those that write the custom resource and its status: operator defaults,
  status conditions, the references of the status, and the check of the TLS secrets.
\<close>

section \<open>utils.go\<close>

definition get_statefulset :: "'w env \<Rightarrow> RabbitmqCluster \<Rightarrow> ('w, StatefulSet) act" where
  "get_statefulset E rmq =
     act_bind (get_object E Cached StatefulSetKind (cluster_namespace rmq) (ChildResourceName rmq ''server''))
       (\<lambda>x. act_lift (as_statefulset x))"

definition statefulSet :: "'w env \<Rightarrow> ('w, StatefulSet) act" where
  "statefulSet E = with_cluster (get_statefulset E)"

definition configMap :: "'w env \<Rightarrow> string \<Rightarrow> ('w, ConfigMap) act" where
  "configMap E name = with_cluster (\<lambda>rmq.
     act_bind (get_object E Cached ConfigMapKind (cluster_namespace rmq) name) (\<lambda>x. act_lift (as_configmap x)))"

definition get_secret :: "'w env \<Rightarrow> string \<Rightarrow> string \<Rightarrow> ('w, Secret) act" where
  "get_secret E ns name = act_bind (get_object E Cached SecretKind ns name) (\<lambda>x. act_lift (as_secret x))"

definition statefulSetUID :: "'w env \<Rightarrow> ('w, string) act" where
  "statefulSetUID E = with_cluster (\<lambda>rmq.
     act_bind (act_wrap ''failed to get statefulSet'' (get_statefulset E rmq)) (\<lambda>sts.
     case controller_of (sts_meta sts) of
       None \<Rightarrow> act_err (Errorf (''failed to get controller reference for statefulSet '' @ om_name (sts_meta sts)))
     | Some ref \<Rightarrow>
         if om_uid (cl_meta rmq) \<noteq> or_uid ref
         then act_err (Errorf (''statefulSet '' @ om_name (sts_meta sts)
                @ '' not owned by current RabbitmqCluster '' @ cluster_name rmq))
         else act_ret (om_uid (sts_meta sts))))"

definition errorIsConflictOrNotFound :: "go_error \<Rightarrow> bool" where
  "errorIsConflictOrNotFound e = (is_conflict e \<or> is_not_found e)"

definition without_annotation :: "string \<Rightarrow> ObjectMeta \<Rightarrow> ObjectMeta" where
  "without_annotation key m = m\<lparr>om_annotations := map_delete (om_annotations m) key\<rparr>"

definition with_annotation :: "string \<Rightarrow> string \<Rightarrow> ObjectMeta \<Rightarrow> ObjectMeta" where
  "with_annotation key value m = m\<lparr>om_annotations := Some ((entries (om_annotations m))(key \<mapsto> value))\<rparr>"

text \<open>
  \<open>deleteAnnotation\<close>: on an object that is not used afterwards, and on the custom resource, whose
  annotation is gone from the variable even if the update fails.
\<close>

definition deleteAnnotation :: "'w env \<Rightarrow> api_object \<Rightarrow> string \<Rightarrow> ('w, unit) act" where
  "deleteAnnotation E obj key =
     (if om_annotations (object_meta obj) = None then act_ret ()
      else act_bind (update_object E Cached (with_object_meta (without_annotation key (object_meta obj)) obj))
             (\<lambda>_. act_ret ()))"

definition deleteClusterAnnotation :: "'w env \<Rightarrow> string \<Rightarrow> ('w, unit) act" where
  "deleteClusterAnnotation E key = with_cluster (\<lambda>rmq.
     if om_annotations (cl_meta rmq) = None then act_ret ()
     else act_then (put_cluster (rmq\<lparr>cl_meta := without_annotation key (cl_meta rmq)\<rparr>)) (update_cluster E))"

definition updateAnnotation :: "'w env \<Rightarrow> kind \<Rightarrow> string \<Rightarrow> string \<Rightarrow> string \<Rightarrow> string \<Rightarrow> ('w, unit) act" where
  "updateAnnotation E k ns objName key value =
     retry_on E errorIsConflictOrNotFound
       (act_bind (get_object E Cached k ns objName) (\<lambda>obj.
        act_bind (update_object E Cached (with_object_meta (with_annotation key value (object_meta obj)) obj))
          (\<lambda>_. act_ret ())))"

definition exec :: "'w env \<Rightarrow> string \<Rightarrow> string \<Rightarrow> string \<Rightarrow> string list \<Rightarrow> ('w, string \<times> string) act" where
  "exec E ns podName containerName command = exec_in_pod E ns podName containerName command"

section \<open>Operator defaults\<close>

definition updateRabbitmqCluster :: "'w env \<Rightarrow> ('w, int) act" where
  "updateRabbitmqCluster E =
     act_catch (act_then (update_cluster E) (act_ret 0))
       (\<lambda>e. if is_conflict e then act_ret (2 * second) else act_err e)"

text \<open>The comma separated list of default pull secrets without its empty strings; appending nothing to nil gives nil.\<close>

definition default_pull_secret_list :: "string \<Rightarrow> string list option" where
  "default_pull_secret_list s =
     (case filter (\<lambda>r. r \<noteq> []) (split_on CHR '','' s) of [] \<Rightarrow> None | rs \<Rightarrow> Some rs)"

definition default_image_step :: "'w env \<Rightarrow> ('w, unit) act" where
  "default_image_step E = with_cluster (\<lambda>rmq.
     if sp_image (cl_spec rmq) = []
     then act_then (put_cluster (rmq\<lparr>cl_spec := (cl_spec rmq)\<lparr>sp_image := default_image E\<rparr>\<rparr>))
            (act_then (updateRabbitmqCluster E) (act_ret ()))
     else act_ret ())"

definition default_pull_secrets_step :: "'w env \<Rightarrow> ('w, unit) act" where
  "default_pull_secrets_step E = with_cluster (\<lambda>rmq.
     if sp_imagePullSecrets (cl_spec rmq) = None
     then act_then (put_cluster (rmq\<lparr>cl_spec := (cl_spec rmq)
                     \<lparr>sp_imagePullSecrets := default_pull_secret_list (default_pull_secrets E)\<rparr>\<rparr>))
            (act_then (updateRabbitmqCluster E) (act_ret ()))
     else act_ret ())"

definition default_updater_step :: "'w env \<Rightarrow> ('w, unit) act" where
  "default_updater_step E = with_cluster (\<lambda>rmq.
     case sb_vault (sp_secretBackend (cl_spec rmq)) of
       None \<Rightarrow> act_ret ()
     | Some v \<Rightarrow>
         if UsesDefaultUserUpdaterImage rmq
         then act_then (put_cluster (rmq\<lparr>cl_spec := (cl_spec rmq)\<lparr>sp_secretBackend :=
                  \<lparr>sb_vault = Some (v\<lparr>vs_defaultUserUpdaterImage := Some (default_updater_image E)\<rparr>)\<rparr>\<rparr>\<rparr>))
                (act_then (updateRabbitmqCluster E) (act_ret ()))
         else act_ret ())"

text \<open>
  A conflict makes \<open>updateRabbitmqCluster\<close> return two seconds and no error; each step returns
  early on an error only, so these two seconds are dropped.
\<close>

definition reconcileOperatorDefaults :: "'w env \<Rightarrow> ('w, int) act" where
  "reconcileOperatorDefaults E =
     act_then (default_image_step E)
       (act_then (default_pull_secrets_step E) (act_then (default_updater_step E) (act_ret 0)))"

section \<open>Status\<close>

definition set_status_condition ::
  "'w env \<Rightarrow> RabbitmqClusterConditionType \<Rightarrow> ConditionStatus \<Rightarrow> string \<Rightarrow> string list \<Rightarrow> ('w, unit) act" where
  "set_status_condition E t st reason msgs =
     act_bind (now E) (\<lambda>time. with_cluster (\<lambda>rmq.
       put_cluster (rmq\<lparr>cl_status := SetCondition time t st reason msgs (cl_status rmq)\<rparr>)))"

definition setReconcileSuccess :: "'w env \<Rightarrow> ConditionStatus \<Rightarrow> string \<Rightarrow> string \<Rightarrow> ('w, unit) act" where
  "setReconcileSuccess E condition reason msg =
     act_then (set_status_condition E ReconcileSuccess condition reason [msg]) (act_ignore (update_status E))"

definition get_endpoints :: "'w env \<Rightarrow> RabbitmqCluster \<Rightarrow> ('w, Endpoints) act" where
  "get_endpoints E rmq =
     act_bind (get_object E Cached EndpointsKind (cluster_namespace rmq) (ChildResourceName rmq ServiceSuffix))
       (\<lambda>x. act_lift (as_endpoints x))"

definition getChildResources :: "'w env \<Rightarrow> RabbitmqCluster \<Rightarrow> ('w, child_resource list) act" where
  "getChildResources E rmq =
     act_bind (unless_missing (get_statefulset E rmq)) (\<lambda>sts.
     act_bind (unless_missing (get_endpoints E rmq)) (\<lambda>endPoints.
     act_ret [StatefulSetResource sts, EndpointsResource endPoints]))"

definition updateStatusConditions :: "'w env \<Rightarrow> ('w, int) act" where
  "updateStatusConditions E = with_cluster (\<lambda>rmq.
     act_bind (getChildResources E rmq) (\<lambda>childResources.
     act_bind (now E) (\<lambda>t1. act_bind (now E) (\<lambda>t2. act_bind (now E) (\<lambda>t3. act_bind (now E) (\<lambda>t4.
     act_bind (act_lift (SetConditions t1 t2 t3 t4 childResources (cl_status rmq))) (\<lambda>st.
     act_then (put_cluster (rmq\<lparr>cl_status := st\<rparr>))
       (if st_conditions st \<noteq> st_conditions (cl_status rmq)
        then act_catch (act_then (update_status E) (act_ret 0))
               (\<lambda>e. if is_conflict e then act_ret (2 * second) else act_err e)
        else act_ret 0))))))))"

definition default_user_status :: "RabbitmqCluster \<Rightarrow> RabbitmqClusterDefaultUser" where
  "default_user_status rmq =
     \<lparr>du_secretReference =
        (if VaultDefaultUserSecretEnabled rmq then None
         else Some \<lparr>sr_name = ChildResourceName rmq DefaultUserSecretName, sr_namespace = cluster_namespace rmq,
                sr_keys = Some [''username'' \<mapsto> ''username'', ''password'' \<mapsto> ''password'']\<rparr>),
      du_serviceReference = Some \<lparr>vr_name = ChildResourceName rmq '''', vr_namespace = cluster_namespace rmq\<rparr>\<rparr>"

definition binding_status :: "RabbitmqCluster \<Rightarrow> string option" where
  "binding_status rmq =
     (if VaultDefaultUserSecretEnabled rmq then None else Some (ChildResourceName rmq DefaultUserSecretName))"

definition reconcileStatus :: "'w env \<Rightarrow> ('w, unit) act" where
  "reconcileStatus E = with_cluster (\<lambda>rmq.
     if st_defaultUser (cl_status rmq) \<noteq> Some (default_user_status rmq)
        \<or> st_binding (cl_status rmq) \<noteq> binding_status rmq
     then act_then (put_cluster (rmq\<lparr>cl_status := (cl_status rmq)
              \<lparr>st_defaultUser := Some (default_user_status rmq), st_binding := binding_status rmq\<rparr>\<rparr>))
            (update_status E)
     else act_ret ())"

section \<open>TLS\<close>

definition disableNonTLSConfigErr :: string where
  "disableNonTLSConfigErr = ''TLS must be enabled if disableNonTLSListeners is set to true''"

definition has_entry :: "Secret \<Rightarrow> string \<Rightarrow> bool" where
  "has_entry s k = (entries (sec_data s) k \<noteq> None)"

definition tls_event :: "string \<Rightarrow> ('w, unit) act" where
  "tls_event msg = record_event ''Warning'' ''TLSError'' msg"

definition get_tls_secret :: "'w env \<Rightarrow> string \<Rightarrow> string \<Rightarrow> string \<Rightarrow> ('w, Secret) act" where
  "get_tls_secret E what ns name =
     act_catch (get_secret E ns name) (\<lambda>e.
       act_then (tls_event (''Failed to get '' @ what @ '' secret '' @ name @ '' in namespace '' @ ns @ '': '' @ error_string e))
         (act_err e))"

definition bad_secret :: "string \<Rightarrow> ('w, unit) act" where
  "bad_secret msg = act_then (tls_event msg) (act_err (StatusError BadRequest msg))"

definition checkTLSSecrets :: "'w env \<Rightarrow> RabbitmqCluster \<Rightarrow> ('w, unit) act" where
  "checkTLSSecrets E rmq =
     (let ns = cluster_namespace rmq; secretName = tls_secretName (sp_tls (cl_spec rmq));
          caName = tls_caSecretName (sp_tls (cl_spec rmq))
      in act_bind (get_tls_secret E ''TLS'' ns secretName) (\<lambda>secret.
         if \<not> has_entry secret ''tls.crt'' \<or> \<not> has_entry secret ''tls.key''
         then bad_secret (''TLS secret '' @ secretName @ '' in namespace '' @ ns
                @ '' does not have the fields tls.crt and tls.key'')
         else if MutualTLSEnabled rmq
         then act_bind (if SingleTLSSecret rmq then act_ret secret
                        else get_tls_secret E ''CA certificate'' ns caName) (\<lambda>secret'.
                if \<not> has_entry secret' ''ca.crt''
                then bad_secret (''TLS secret '' @ caName @ '' in namespace '' @ ns @ '' does not have the field ca.crt'')
                else act_ret ())
         else act_ret ()))"

text \<open>
  The result says whether the error is \<open>disableNonTLSConfigErr\<close>, which the caller recognises by
  identity (\<open>errors.Is\<close>); every other error is an error.
\<close>

definition reconcileTLS :: "'w env \<Rightarrow> ('w, bool) act" where
  "reconcileTLS E = with_cluster (\<lambda>rmq.
     if DisableNonTLSListeners rmq \<and> \<not> TLSEnabled rmq
     then act_then (tls_event disableNonTLSConfigErr)
            (act_then (setReconcileSuccess E ConditionFalse ''TLSError'' disableNonTLSConfigErr) (act_ret True))
     else if SecretTLSEnabled rmq
     then act_catch (act_then (checkTLSSecrets E rmq) (act_ret False)) (\<lambda>e.
            act_then (setReconcileSuccess E ConditionFalse ''TLSError'' (error_string e)) (act_err e))
     else act_ret False)"

end
