(* ===== verification/Ctl_Deletion.thy ===== *)
theory Ctl_Deletion
  imports Ctl_Utils
begin

text \<open>
  \<open>reconcile_finalizer.go\<close>: the finalizer of the custom resource and what happens when it is
  deleted. The pods are labelled, so that their pre-stop hook does not wait for the cluster,
  then the stateful set is deleted, then the finalizer is removed.
\<close>

definition deletionFinalizer :: string where
  "deletionFinalizer = ''deletion.finalizers.rabbitmqclusters.rabbitmq.com''"

text \<open>\<open>!DeletionTimestamp.IsZero()\<close>\<close>

definition being_deleted :: "ObjectMeta \<Rightarrow> bool" where
  "being_deleted m = (case om_deletionTimestamp m of None \<Rightarrow> False | Some t \<Rightarrow> t \<noteq> zero_time)"

definition addFinalizerIfNeeded :: "'w env \<Rightarrow> ('w, unit) act" where
  "addFinalizerIfNeeded E = with_cluster (\<lambda>rmq.
     if \<not> being_deleted (cl_meta rmq) \<and> deletionFinalizer \<notin> set (om_finalizers (cl_meta rmq))
     then act_then (put_cluster (rmq\<lparr>cl_meta := (cl_meta rmq)
              \<lparr>om_finalizers := add_finalizer E deletionFinalizer (om_finalizers (cl_meta rmq))\<rparr>\<rparr>))
            (update_cluster E)
     else act_ret ())"

definition removeFinalizer :: "'w env \<Rightarrow> ('w, unit) act" where
  "removeFinalizer E = with_cluster (\<lambda>rmq.
     act_then (put_cluster (rmq\<lparr>cl_meta := (cl_meta rmq)
         \<lparr>om_finalizers := remove_finalizer E deletionFinalizer (om_finalizers (cl_meta rmq))\<rparr>\<rparr>))
       (update_cluster E))"

text \<open>The write to the labels of a pod panics if it has none.\<close>

definition label_pod :: "'w env \<Rightarrow> Pod \<Rightarrow> ('w, unit) act" where
  "label_pod E pod =
     act_bind (act_lift (map_store (om_labels (pod_meta pod)) DeletionMarker ''true'')) (\<lambda>labels.
     act_wrap (''cannot Update Pod '' @ om_name (pod_meta pod) @ '' in Namespace '' @ om_namespace (pod_meta pod))
       (act_bind (unless_missing (update_object E Cached
            (PodObject (pod\<lparr>pod_meta := (pod_meta pod)\<lparr>om_labels := labels\<rparr>\<rparr>)))) (\<lambda>_. act_ret ())))"

text \<open>The list options hold a label selector and nothing else: no namespace.\<close>

definition addRabbitmqDeletionLabel :: "'w env \<Rightarrow> ('w, unit) act" where
  "addRabbitmqDeletionLabel E = with_cluster (\<lambda>rmq.
     act_bind (act_lift (parse_selector E (''app.kubernetes.io/name='' @ cluster_name rmq))) (\<lambda>selector.
     act_bind (list_pods E selector) (for_each (label_pod E))))"

definition delete_workload :: "'w env \<Rightarrow> ('w, unit) act" where
  "delete_workload E =
     act_bind (statefulSetUID E) (\<lambda>uid.
     act_then (act_wrap ''failed to add deletion markers to RabbitmqCluster Pods'' (addRabbitmqDeletionLabel E))
     (with_cluster (\<lambda>rmq.
       act_wrap ''cannot delete StatefulSet''
         (act_bind (unless_missing (delete_object E Cached StatefulSetKind (cluster_namespace rmq)
              (ChildResourceName rmq ''server'') (Some uid) None)) (\<lambda>_. act_ret ())))))"

text \<open>An error of the first part is logged, and the finalizer goes all the same.\<close>

definition prepareForDeletion :: "'w env \<Rightarrow> ('w, unit) act" where
  "prepareForDeletion E = with_cluster (\<lambda>rmq.
     if deletionFinalizer \<in> set (om_finalizers (cl_meta rmq))
     then act_then (act_ignore (retry_on_conflict E (delete_workload E))) (removeFinalizer E)
     else act_ret ())"

end
