(* ===== verification/Sample_Server.thy ===== *)
theory Sample_Server
  imports Op_Effects
begin

text \<open>
  A small API server, to evaluate the controllers on: a list of objects, a clock that stands
  still and pods whose commands succeed; it writes an object whether it has changed or not. It shows that the documented behaviour assumed of
  the clients can be met; no property depends on it.
\<close>

record server =
  sv_objects :: "api_object list"
  sv_time :: gotime

definition is_at :: "kind \<Rightarrow> string \<Rightarrow> string \<Rightarrow> api_object \<Rightarrow> bool" where
  "is_at k ns n x = (kind_of x = k \<and> om_namespace (object_meta x) = ns \<and> om_name (object_meta x) = n)"

definition at_object :: "api_object \<Rightarrow> api_object \<Rightarrow> bool" where
  "at_object x = is_at (kind_of x) (om_namespace (object_meta x)) (om_name (object_meta x))"

definition missing :: "'a outcome" where
  "missing = Err (StatusError NotFound ''not found'')"

definition server_get :: "client \<Rightarrow> kind \<Rightarrow> string \<Rightarrow> string \<Rightarrow> server \<Rightarrow> api_object outcome \<times> server" where
  "server_get cl k ns n w =
     (case List.find (is_at k ns n) (sv_objects w) of None \<Rightarrow> missing | Some x \<Rightarrow> Ok x, w)"

definition put_object :: "api_object \<Rightarrow> server \<Rightarrow> server" where
  "put_object x w = w\<lparr>sv_objects := x # filter (\<lambda>y. \<not> at_object x y) (sv_objects w)\<rparr>"

definition server_update :: "client \<Rightarrow> api_object \<Rightarrow> server \<Rightarrow> api_object outcome \<times> server" where
  "server_update cl x w =
     (case List.find (at_object x) (sv_objects w) of None \<Rightarrow> (missing, w) | Some y \<Rightarrow> (Ok x, put_object x w))"

definition server_update_status :: "RabbitmqCluster \<Rightarrow> server \<Rightarrow> RabbitmqCluster outcome \<times> server" where
  "server_update_status c w =
     (case List.find (at_object (ClusterObject c)) (sv_objects w) of
        None \<Rightarrow> (missing, w) | Some y \<Rightarrow> (Ok c, put_object (ClusterObject c) w))"

definition server_list_pods :: "(string \<times> string) list \<Rightarrow> server \<Rightarrow> Pod list outcome \<times> server" where
  "server_list_pods sel w =
     (Ok (List.map_filter (\<lambda>x. case x of PodObject p \<Rightarrow> if list_all (\<lambda>(k, v). entries (om_labels (pod_meta p)) k = Some v) sel then Some p else None
        | _ \<Rightarrow> None) (sv_objects w)), w)"

definition server_delete ::
  "client \<Rightarrow> kind \<Rightarrow> string \<Rightarrow> string \<Rightarrow> string option \<Rightarrow> string option \<Rightarrow> server \<Rightarrow> unit outcome \<times> server" where
  "server_delete cl k ns n uid propagation w =
     (case List.find (is_at k ns n) (sv_objects w) of
        None \<Rightarrow> (missing, w)
      | Some x \<Rightarrow>
          if uid \<noteq> None \<and> uid \<noteq> Some (om_uid (object_meta x)) then (Err (StatusError Conflict ''uid''), w)
          else (Ok (), w\<lparr>sv_objects := filter (\<lambda>y. \<not> is_at k ns n y) (sv_objects w)\<rparr>))"

definition server_create_or_update ::
  "(api_object \<Rightarrow> api_object outcome) \<Rightarrow> api_object \<Rightarrow> server
     \<Rightarrow> (OperationResult \<times> api_object \<times> go_error option) outcome \<times> server" where
  "server_create_or_update f x w =
     (case List.find (at_object x) (sv_objects w) of
        None \<Rightarrow>
          (case f x of
             Ok y \<Rightarrow> (Ok (OperationResultCreated, y, None), put_object y w)
           | Err e \<Rightarrow> (Ok (OperationResultNone, x, Some e), w)
           | Panic p \<Rightarrow> (Panic p, w))
      | Some z \<Rightarrow>
          (case f z of
             Ok y \<Rightarrow> (Ok (OperationResultUpdated, y, None), put_object y w)
           | Err e \<Rightarrow> (Ok (OperationResultNone, z, Some e), w)
           | Panic p \<Rightarrow> (Panic p, w)))"

fun retry_times :: "nat \<Rightarrow> (go_error \<Rightarrow> bool) \<Rightarrow> ('w, unit) act \<Rightarrow> ('w, unit) act" where
  "retry_times 0 p m s = m s"
| "retry_times (Suc n) p m s = (case m s of (Err e, s') \<Rightarrow> if p e then retry_times n p m s' else (Err e, s') | r \<Rightarrow> r)"

definition sample_env :: "server env" where
  "sample_env = \<lparr>lib_of = sample_lib, default_image = ''rabbitmq:3'', default_updater_image = ''updater:1'',
     default_pull_secrets = [], clock = (\<lambda>w. (sv_time w, w)), random = (\<lambda>w. (\<lambda>i. Ok (\<lambda>n. 0), w)),
     add_finalizer = (\<lambda>f fs. if f \<in> set fs then fs else fs @ [f]), remove_finalizer = (\<lambda>f fs. filter (\<lambda>g. g \<noteq> f) fs),
     parse_selector = (\<lambda>s. Ok [(''app.kubernetes.io/name'', drop 23 s)]),
     api_get = server_get, api_update = server_update, api_update_status = server_update_status,
     api_list_pods = server_list_pods, api_delete = server_delete,
     api_create_or_update = server_create_or_update, pod_exec = (\<lambda>ns pod ctr cmd w. (Ok ([], []), w)),
     sleep = (\<lambda>d w. w), retry_on = retry_times 4\<rparr>"

lemma find_at: "List.find (is_at k ns n) xs = Some x \<Longrightarrow> is_at k ns n x"
  by (induction xs) (auto split: if_splits)

lemma retry_times_attempts: "attempts p m s (retry_times n p m s)"
proof (induction n arbitrary: s)
  case (Suc n)
  show ?case
  proof (cases "\<exists>e s'. m s = (Err e, s') \<and> p e")
    case True
    then obtain e s' where m: "m s = (Err e, s')" "p e" by blast
    have "attempts p m (s'\<lparr>sys_world := sys_world s'\<rparr>) (retry_times n p m s')" using Suc by simp
    from attempts.next_attempt [OF m this] show ?thesis using m by simp
  next
    case False
    then have "retry_times (Suc n) p m s = m s" by (auto split: prod.splits outcome.splits)
    then show ?thesis by (metis attempts.last_attempt)
  qed
qed (simp add: attempts.last_attempt)

lemma same_identity_refl [simp]: "same_identity x x"
  by (simp add: same_identity_def)

lemma sample_env_ok: "env_ok sample_env"
  unfolding env_ok_def
proof (intro conjI)
  show "lib_ok (lib_of sample_env)" by (simp add: sample_env_def sample_lib_ok)
  show "retries (retry_on sample_env)" by (simp add: sample_env_def retries_def retry_times_attempts)
  show "edits_finalizers sample_env" by (auto simp: sample_env_def edits_finalizers_def)
  have "server_get cl k ns n w = (Ok x, w') \<Longrightarrow>
      kind_of x = k \<and> om_namespace (object_meta x) = ns \<and> om_name (object_meta x) = n" for cl k ns n w x w'
    by (auto simp: server_get_def missing_def is_at_def dest!: find_at split: option.splits)
  moreover have "server_update cl x w = (Ok y, w') \<Longrightarrow>
      same_identity x y \<and> om_uid (object_meta y) = om_uid (object_meta x)" for cl x w y w'
    by (auto simp: server_update_def missing_def split: option.splits)
  moreover have "server_update_status c w = (Ok c', w') \<Longrightarrow>
      same_identity (ClusterObject c) (ClusterObject c') \<and> om_uid (cl_meta c') = om_uid (cl_meta c)" for c w c' w'
    by (auto simp: server_update_status_def missing_def split: option.splits)
  moreover have "same_identity x y"
    if "server_create_or_update f x w = (Ok (op, y, e), w')" and "\<forall>z z'. f z = Ok z' \<longrightarrow> same_identity z z'" for f x w op y e w'
  proof (cases "List.find (at_object x) (sv_objects w)")
    case None
    then show ?thesis using that by (auto simp: server_create_or_update_def split: outcome.splits)
  next
    case (Some z)
    then have "same_identity x z" by (auto simp: at_object_def is_at_def same_identity_def dest!: find_at)
    moreover have "z = y \<or> same_identity z y"
      using that Some by (auto simp: server_create_or_update_def split: outcome.splits if_splits)
    ultimately show ?thesis by (auto simp: same_identity_def)
  qed
  ultimately show "keeps_identity sample_env"
    unfolding keeps_identity_def sample_env_def by (simp add: same_identity_def)
qed

end
