(* ===== verification/Op_Scaling.thy ===== *)
theory Op_Scaling
  imports Sample_Server
begin

text \<open>
  Package \<open>internal/scaling\<close>: expanding the persistent volume claims of a cluster. The claims
  of a stateful set cannot be changed, so the scaler deletes the stateful set without its pods
  and lets the reconciler create it anew.
\<close>

section \<open>Reading\<close>

definition getSts :: "'w env \<Rightarrow> RabbitmqCluster \<Rightarrow> ('w, StatefulSet) act" where
  "getSts E rmq =
     act_bind (get_object E Direct StatefulSetKind (cluster_namespace rmq) (ChildResourceName rmq ''server''))
       (\<lambda>x. act_lift (as_statefulset x))"

text \<open>The loop over the claim templates: the first one called \<open>persistence\<close>, otherwise zero.\<close>

fun template_capacity :: "PersistentVolumeClaim list \<Rightarrow> quantity" where
  "template_capacity [] = 0"
| "template_capacity (t # ts) =
     (if om_name (pvc_meta t) = ''persistence''
      then quantity_entry (rr_requests (pvcs_resources (pvc_spec t))) ''storage''
      else template_capacity ts)"

definition existingCapacity :: "'w env \<Rightarrow> RabbitmqCluster \<Rightarrow> ('w, quantity) act" where
  "existingCapacity E rmq =
     act_bind (getSts E rmq) (\<lambda>sts. act_ret (template_capacity (sts_volumeClaimTemplates (sts_spec sts))))"

definition get_pvc :: "'w env \<Rightarrow> string \<Rightarrow> string \<Rightarrow> ('w, PersistentVolumeClaim) act" where
  "get_pvc E ns n = act_bind (get_object E Direct PVCKind ns n) (\<lambda>x. act_lift (as_pvc x))"

fun get_pvcs :: "'w env \<Rightarrow> RabbitmqCluster \<Rightarrow> int list \<Rightarrow> ('w, PersistentVolumeClaim list) act" where
  "get_pvcs E rmq [] = act_ret []"
| "get_pvcs E rmq (i # is) =
     act_bind (act_wrap ''failed to get PVC from Kubernetes API''
         (unless_missing (get_pvc E (cluster_namespace rmq) (PVCName rmq i)))) (\<lambda>p.
     act_bind (get_pvcs E rmq is) (\<lambda>ps.
     act_ret (case p of None \<Rightarrow> ps | Some pvc \<Rightarrow> pvc # ps)))"

definition getClusterPVCs :: "'w env \<Rightarrow> RabbitmqCluster \<Rightarrow> ('w, PersistentVolumeClaim list) act" where
  "getClusterPVCs E rmq =
     get_pvcs E rmq [0..(case sp_replicas (cl_spec rmq) of None \<Rightarrow> 1 | Some n \<Rightarrow> n) - 1]"

definition pvc_capacity :: "PersistentVolumeClaim \<Rightarrow> quantity" where
  "pvc_capacity pvc = quantity_entry (rr_requests (pvcs_resources (pvc_spec pvc))) ''storage''"

definition pvcsNeedingScaling :: "PersistentVolumeClaim list \<Rightarrow> quantity \<Rightarrow> PersistentVolumeClaim list" where
  "pvcsNeedingScaling existingPVCs desiredCapacity = filter (\<lambda>pvc. pvc_capacity pvc < desiredCapacity) existingPVCs"

section \<open>Deleting the stateful set\<close>

fun retry_loop :: "'w env \<Rightarrow> nat \<Rightarrow> int \<Rightarrow> ('w, bool) act \<Rightarrow> ('w, bool) act" where
  "retry_loop E 0 interval f = act_ret False"
| "retry_loop E (Suc n) interval f =
     act_bind f (\<lambda>ok. if ok then act_ret True else act_then (sleep_for E interval) (retry_loop E n interval f))"

definition retryWithInterval :: "'w env \<Rightarrow> string \<Rightarrow> int \<Rightarrow> int \<Rightarrow> ('w, bool) act \<Rightarrow> ('w, unit) act" where
  "retryWithInterval E msg retry interval f =
     act_bind (retry_loop E (nat retry) interval f) (\<lambda>ok.
       if ok then act_ret ()
       else act_err (Errorf (''failed to '' @ msg @ '' after '' @ itoa retry @ '' retries'')))"

definition sts_is_gone :: "'w env \<Rightarrow> RabbitmqCluster \<Rightarrow> ('w, bool) act" where
  "sts_is_gone E rmq = act_catch (act_bind (getSts E rmq) (\<lambda>_. act_ret False)) (\<lambda>e. act_ret (is_not_found e))"

definition deleteSts :: "'w env \<Rightarrow> RabbitmqCluster \<Rightarrow> ('w, unit) act" where
  "deleteSts E rmq =
     act_bind (act_wrap ''failed to get statefulset from Kubernetes API'' (unless_missing (getSts E rmq))) (\<lambda>r.
     case r of
       None \<Rightarrow> act_ret ()
     | Some sts \<Rightarrow>
         act_then (act_wrap (''failed to delete statefulSet '' @ om_name (sts_meta sts))
           (delete_object E Direct StatefulSetKind (om_namespace (sts_meta sts)) (om_name (sts_meta sts))
              None (Some ''Orphan'')))
         (act_wrap (''statefulSet not deleting after 30 seconds '' @ om_name (sts_meta sts))
           (retryWithInterval E ''delete statefulSet'' 10 (3 * second) (sts_is_gone E rmq))))"

section \<open>Expanding the claims\<close>

text \<open>The assignment to the entry of the map of requests, which panics if that map is nil.\<close>

definition with_capacity :: "quantity \<Rightarrow> PersistentVolumeClaim \<Rightarrow> PersistentVolumeClaim outcome" where
  "with_capacity q pvc =
     bind_ok (map_store (rr_requests (pvcs_resources (pvc_spec pvc))) ''storage'' q) (\<lambda>m.
       Ok (pvc\<lparr>pvc_spec := (pvc_spec pvc)\<lparr>pvcs_resources :=
             (pvcs_resources (pvc_spec pvc))\<lparr>rr_requests := m\<rparr>\<rparr>\<rparr>))"

definition scale_up_pvc :: "'w env \<Rightarrow> quantity \<Rightarrow> PersistentVolumeClaim \<Rightarrow> ('w, unit) act" where
  "scale_up_pvc E desiredCapacity pvc0 =
     act_bind (act_wrap ''failed to get PVC from Kubernetes API''
         (get_pvc E (om_namespace (pvc_meta pvc0)) (om_name (pvc_meta pvc0)))) (\<lambda>pvc.
     act_bind (act_lift (with_capacity desiredCapacity pvc)) (\<lambda>pvc'.
     act_bind (act_wrap (''failed to update PersistentVolumeClaim '' @ om_name (pvc_meta pvc'))
         (update_object E Direct (PVCObject pvc'))) (\<lambda>_.
     act_ret ())))"

definition scaleUpPVCs :: "'w env \<Rightarrow> PersistentVolumeClaim list \<Rightarrow> quantity \<Rightarrow> ('w, unit) act" where
  "scaleUpPVCs E pvcs desiredCapacity = for_each (scale_up_pvc E desiredCapacity) pvcs"

definition Scale :: "'w env \<Rightarrow> RabbitmqCluster \<Rightarrow> quantity \<Rightarrow> ('w, unit) act" where
  "Scale E rmq desiredCapacity =
     act_bind (act_wrap ''failed to determine existing STS capactiy'' (unless_missing (existingCapacity E rmq)))
       (\<lambda>existing.
     if existing = Some 0 \<and> desiredCapacity \<noteq> 0
     then act_err (Errorf ''changing from ephemeral to persistent storage is not supported'')
     else if (case existing of None \<Rightarrow> False | Some q \<Rightarrow> desiredCapacity < q)
     then act_err (Errorf ''shrinking persistent volumes is not supported'')
     else
     act_bind (getClusterPVCs E rmq) (\<lambda>existingPVCs.
     let pvcsToBeScaled = pvcsNeedingScaling existingPVCs desiredCapacity
     in if pvcsToBeScaled = [] then act_ret ()
        else act_then (act_wrap ''failed to delete Statefulset from Kubernetes API'' (deleteSts E rmq))
               (scaleUpPVCs E pvcsToBeScaled desiredCapacity)))"


section \<open>Lemmas\<close>

abbreviation sts_key :: "RabbitmqCluster \<Rightarrow> request" where
  "sts_key rmq \<equiv> GetObject Direct StatefulSetKind (cluster_namespace rmq) (ChildResourceName rmq ''server'')"

text \<open>An answer from the API server that the stateful set does not exist.\<close>

definition absent :: "RabbitmqCluster \<Rightarrow> event \<Rightarrow> bool" where
  "absent rmq ev = (\<exists>e. ev = (sts_key rmq, Refused e) \<and> is_not_found e)"

lemma triple_getSts:
  "triple P (getSts E rmq) (\<lambda>r es v. P v \<and> (\<exists>a. es = [(sts_key rmq, a)] \<and>
     (\<forall>t. r = Ok t \<longrightarrow> a = GotObject (StatefulSetObject t)) \<and> (\<forall>e. r = Err e \<longrightarrow> a = Refused e)))"
  by (auto simp: triple_def getSts_def get_object_def act_bind_def act_call_def act_lift_def answer_of_def
      as_statefulset_def conversion_panic_def split: prod.splits outcome.splits api_object.splits)

lemma triple_get_pvc:
  "triple P (get_pvc E ns n) (\<lambda>r es v. P v \<and> (\<exists>a. es = [(GetObject Direct PVCKind ns n, a)] \<and>
     (\<forall>t. r = Ok t \<longrightarrow> a = GotObject (PVCObject t)) \<and> (\<forall>e. r = Err e \<longrightarrow> a = Refused e)))"
  by (auto simp: triple_def get_pvc_def get_object_def act_bind_def act_call_def act_lift_def answer_of_def
      as_pvc_def conversion_panic_def split: prod.splits outcome.splits api_object.splits)

lemma triple_sts_is_gone:
  "triple P (sts_is_gone E rmq) (\<lambda>r es v. P v \<and> (\<exists>a. es = [(sts_key rmq, a)] \<and>
     (r = Ok True \<longrightarrow> absent rmq (sts_key rmq, a)) \<and> (r = Ok False \<longrightarrow> \<not> absent rmq (sts_key rmq, a))
     \<and> (\<forall>e. r \<noteq> Err e)))"
  by (auto simp: triple_def sts_is_gone_def getSts_def get_object_def act_catch_def act_bind_def act_call_def
      act_lift_def act_ret_def answer_of_def absent_def as_statefulset_def conversion_panic_def
      split: prod.splits outcome.splits api_object.splits)

definition count_requests :: "(request \<Rightarrow> bool) \<Rightarrow> event list \<Rightarrow> nat" where
  "count_requests p es = length (filter (p \<circ> fst) es)"

lemma count_requests_simps [simp]:
  "count_requests p [] = 0"
  "count_requests p (e # es) = (if p (fst e) then 1 else 0) + count_requests p es"
  "count_requests p (xs @ ys) = count_requests p xs + count_requests p ys"
  by (simp_all add: count_requests_def)

text \<open>
  Waiting for the deletion: every round asks once and, if the answer is no, sleeps once.
\<close>

definition waits :: "RabbitmqCluster \<Rightarrow> int \<Rightarrow> nat \<Rightarrow> bool outcome \<Rightarrow> event list \<Rightarrow> bool" where
  "waits rmq d n r es \<longleftrightarrow>
     (\<forall>e \<in> set es. fst e = sts_key rmq \<or> e = (Sleep d, Acknowledged))
     \<and> count_requests (\<lambda>q. q = Sleep d) es \<le> n \<and> count_requests (\<lambda>q. q = sts_key rmq) es \<le> n
     \<and> (r = Ok True \<longrightarrow> es \<noteq> [] \<and> absent rmq (last es))
     \<and> (r = Ok False \<longrightarrow> count_requests (\<lambda>q. q = Sleep d) es = n \<and> count_requests (\<lambda>q. q = sts_key rmq) es = n
          \<and> (\<forall>e \<in> set es. \<not> absent rmq e))
     \<and> (\<forall>e. r \<noteq> Err e)"

lemma triple_retry_loop:
  "triple P (retry_loop E n d (sts_is_gone E rmq)) (\<lambda>r es v. P v \<and> waits rmq d n r es)"
proof (induction n arbitrary: P)
  case 0
  show ?case by (simp add: triple_ret waits_def)
next
  case (Suc n)
  have round: "triple (\<lambda>v. P v \<and> (\<exists>a. es = [(sts_key rmq, a)] \<and> \<not> absent rmq (sts_key rmq, a)))
      (act_then (sleep_for E d) (retry_loop E n d (sts_is_gone E rmq)))
      (\<lambda>r es' v. P v \<and> waits rmq d (Suc n) r (es @ es'))" for es
    by (rule triple_bind [OF triple_sleep], rule triple_post [OF Suc.IH]) (auto simp: waits_def absent_def)
  show ?case
    unfolding retry_loop.simps
  proof (rule triple_bind [OF triple_sts_is_gone])
    show "triple (\<lambda>v. P v \<and> (\<exists>a. es = [(sts_key rmq, a)] \<and>
          (Ok ok = Ok True \<longrightarrow> absent rmq (sts_key rmq, a)) \<and> (Ok ok = Ok False \<longrightarrow> \<not> absent rmq (sts_key rmq, a))
          \<and> (\<forall>e. Ok ok \<noteq> Err e)))
        (if ok then act_ret True else act_then (sleep_for E d) (retry_loop E n d (sts_is_gone E rmq)))
        (\<lambda>r es' v. P v \<and> waits rmq d (Suc n) r (es @ es'))" for ok es
    proof (cases ok)
      case True
      then show ?thesis by (auto intro!: triple_ret simp: waits_def)
    next
      case False
      then show ?thesis by (simp only: if_False) (rule triple_pre [OF round], auto)
    qed
  qed (auto simp: waits_def)
qed


lemma triple_retryWithInterval:
  "triple P (retryWithInterval E msg n d (sts_is_gone E rmq)) (\<lambda>r es v. P v \<and>
     (\<exists>b. waits rmq d (nat n) b es \<and> (r = Ok () \<longrightarrow> b = Ok True) \<and> ((\<exists>e. r = Err e) \<longrightarrow> b = Ok False)))"
  unfolding retryWithInterval_def
proof (rule triple_bind [OF triple_retry_loop])
  show "triple (\<lambda>v. P v \<and> waits rmq d (nat n) (Ok ok) es)
      (if ok then act_ret () else act_err (Errorf (''failed to '' @ msg @ '' after '' @ itoa n @ '' retries'')))
      (\<lambda>r es' v. P v \<and> (\<exists>b. waits rmq d (nat n) b (es @ es') \<and> (r = Ok () \<longrightarrow> b = Ok True)
        \<and> ((\<exists>e. r = Err e) \<longrightarrow> b = Ok False)))" for ok es
    by (cases ok) (auto intro!: triple_ret triple_lift)
qed (auto simp: waits_def)

text \<open>The requests of the deletion, and how it can end.\<close>

definition sts_deletion :: "RabbitmqCluster \<Rightarrow> request" where
  "sts_deletion rmq = DeleteObject Direct StatefulSetKind (cluster_namespace rmq) (ChildResourceName rmq ''server'')
     None (Some ''Orphan'')"

definition deletion_events :: "RabbitmqCluster \<Rightarrow> event list \<Rightarrow> bool" where
  "deletion_events rmq es \<longleftrightarrow>
     (\<forall>e \<in> set es. fst e = sts_key rmq \<or> fst e = Sleep (3 * second) \<or> fst e = sts_deletion rmq)
     \<and> count_requests (\<lambda>q. q = sts_deletion rmq) es \<le> 1"

lemma waits_deletion_events:
  assumes "waits rmq (3 * second) n b es"
  shows "deletion_events rmq ((sts_key rmq, x) # (sts_deletion rmq, y) # es)"
proof -
  have other: "fst e = sts_key rmq \<or> fst e = Sleep (3 * second)" if "e \<in> set es" for e
    using assms that by (auto simp: waits_def)
  then have "filter ((\<lambda>q. q = sts_deletion rmq) \<circ> fst) es = []"
    by (auto simp: filter_empty_conv sts_deletion_def dest!: other)
  with other show ?thesis by (auto simp: deletion_events_def count_requests_def sts_deletion_def)
qed

lemma waits_last: "waits rmq d n (Ok True) es \<Longrightarrow> es \<noteq> [] \<and> absent rmq (last es)"
  by (simp add: waits_def)

lemma triple_getSts_named:
  assumes "keeps_identity E"
  shows "triple P (getSts E rmq) (\<lambda>r es v. P v \<and> (\<exists>a. es = [(sts_key rmq, a)] \<and>
     (\<forall>t. r = Ok t \<longrightarrow> a = GotObject (StatefulSetObject t) \<and> om_namespace (sts_meta t) = cluster_namespace rmq
        \<and> om_name (sts_meta t) = ChildResourceName rmq ''server'')
     \<and> (\<forall>e. r = Err e \<longrightarrow> a = Refused e)))"
  by (auto simp: triple_def getSts_def get_object_def act_bind_def act_call_def act_lift_def answer_of_def
      as_statefulset_def conversion_panic_def dest: keeps_identityD(1) [OF assms]
      split: prod.splits outcome.splits api_object.splits)

lemma triple_deleteSts:
  assumes "keeps_identity E"
  shows "triple P (deleteSts E rmq) (\<lambda>r es v. P v \<and> deletion_events rmq es \<and>
     (r = Ok () \<longrightarrow> es \<noteq> [] \<and> absent rmq (last es)))"
  unfolding deleteSts_def
proof (rule triple_bind)
  let ?Q = "\<lambda>r es v. P v \<and> (\<exists>a. es = [(sts_key rmq, a)] \<and>
     (\<forall>t. r = Ok (Some t) \<longrightarrow> om_namespace (sts_meta t) = cluster_namespace rmq
        \<and> om_name (sts_meta t) = ChildResourceName rmq ''server'')
     \<and> (r = Ok None \<longrightarrow> absent rmq (sts_key rmq, a)))"
  have "triple P (unless_missing (getSts E rmq)) ?Q"
    by (rule triple_unless_missing [OF triple_getSts_named [OF assms]]) (auto simp: absent_def)
  then show "triple P (act_wrap ''failed to get statefulset from Kubernetes API'' (unless_missing (getSts E rmq))) ?Q"
    by (rule triple_wrap) auto
  show "triple (?Q (Ok found) es)
      (case found of None \<Rightarrow> act_ret () | Some sts \<Rightarrow>
         act_then (act_wrap (''failed to delete statefulSet '' @ om_name (sts_meta sts))
           (delete_object E Direct StatefulSetKind (om_namespace (sts_meta sts)) (om_name (sts_meta sts))
              None (Some ''Orphan'')))
         (act_wrap (''statefulSet not deleting after 30 seconds '' @ om_name (sts_meta sts))
           (retryWithInterval E ''delete statefulSet'' 10 (3 * second) (sts_is_gone E rmq))))
      (\<lambda>r es' v. P v \<and> deletion_events rmq (es @ es') \<and>
         (r = Ok () \<longrightarrow> es @ es' \<noteq> [] \<and> absent rmq (last (es @ es'))))" for found es
  proof (cases found)
    case None
    then show ?thesis by (auto intro!: triple_ret simp: deletion_events_def absent_def sts_deletion_def)
  next
    case (Some t)
    have wait: "triple (\<lambda>v. P v \<and> (\<exists>a b. es = [(sts_key rmq, a)] \<and> es1 = [(sts_deletion rmq, b)]))
        (act_wrap (''statefulSet not deleting after 30 seconds '' @ om_name (sts_meta t))
           (retryWithInterval E ''delete statefulSet'' 10 (3 * second) (sts_is_gone E rmq)))
        (\<lambda>r es2 v. P v \<and> deletion_events rmq (es @ es1 @ es2) \<and>
           (r = Ok () \<longrightarrow> es @ es1 @ es2 \<noteq> [] \<and> absent rmq (last (es @ es1 @ es2))))" for es1
      by (rule triple_wrap [OF triple_retryWithInterval])
        (auto simp: waits_deletion_events simp del: child_names dest: waits_last)
    have delete: "triple (\<lambda>v. P v \<and> (\<exists>a. es = [(sts_key rmq, a)]) \<and> om_namespace (sts_meta t) = cluster_namespace rmq
          \<and> om_name (sts_meta t) = ChildResourceName rmq ''server'')
        (act_wrap (''failed to delete statefulSet '' @ om_name (sts_meta t))
           (delete_object E Direct StatefulSetKind (om_namespace (sts_meta t)) (om_name (sts_meta t)) None (Some ''Orphan'')))
        (\<lambda>r es1 v. P v \<and> (\<exists>a b. es = [(sts_key rmq, a)] \<and> es1 = [(sts_deletion rmq, b)]))"
      unfolding delete_object_def by (rule triple_wrap [OF triple_call_sp]) (auto simp: sts_deletion_def)
    show ?thesis
      unfolding Some option.case
      by (rule triple_bind [OF triple_pre [OF delete]], force, rule wait)
        (auto simp: deletion_events_def sts_deletion_def)
  qed
qed (auto simp: absent_def deletion_events_def sts_deletion_def)


definition pvc_read :: "event \<Rightarrow> bool" where
  "pvc_read ev = (\<exists>ns n. fst ev = GetObject Direct PVCKind ns n)"

text \<open>
  An update of a claim writes the claim that the event before it has read, with the new capacity.
\<close>

definition grown :: "quantity \<Rightarrow> event list \<Rightarrow> event \<Rightarrow> bool" where
  "grown q h ev \<longleftrightarrow> (\<forall>cl x. fst ev = UpdateObject cl x \<longrightarrow>
     (\<exists>pre ns n pvc pvc'. h = pre @ [(GetObject Direct PVCKind ns n, GotObject (PVCObject pvc))]
        \<and> with_capacity q pvc = Ok pvc' \<and> x = PVCObject pvc'))"

definition expansion_events :: "quantity \<Rightarrow> event list \<Rightarrow> bool" where
  "expansion_events q es \<longleftrightarrow> guarded (grown q) [] es
     \<and> (\<forall>e \<in> set es. pvc_read e \<or> (\<exists>x. fst e = UpdateObject Direct (PVCObject x)))"

lemma grown_mono: "grown q h e \<Longrightarrow> grown q (h' @ h) e"
  unfolding grown_def by (metis append_assoc)

lemma guarded_grown: "guarded (grown q) [] es \<Longrightarrow> guarded (grown q) h es"
  using guarded_mono [of "grown q" h "[]" es] grown_mono by auto

lemma grown_other: "(\<And>cl x. fst e \<noteq> UpdateObject cl x) \<Longrightarrow> grown q h e"
  by (simp add: grown_def)

lemma expansion_append: "expansion_events q xs \<Longrightarrow> expansion_events q ys \<Longrightarrow> expansion_events q (xs @ ys)"
  by (auto simp: expansion_events_def intro: guarded_grown)

lemma triple_get_pvcs:
  "triple P (get_pvcs E rmq is) (\<lambda>r es v. P v \<and> (\<forall>e \<in> set es. pvc_read e)
     \<and> (\<forall>ps. r = Ok ps \<longrightarrow> (\<forall>p \<in> set ps. \<exists>ns n. (GetObject Direct PVCKind ns n, GotObject (PVCObject p)) \<in> set es)))"
proof (induction "is" arbitrary: P)
  case Nil
  show ?case by (simp add: triple_ret)
next
  case (Cons i js)
  let ?Q = "\<lambda>r es v. P v \<and> (\<forall>e \<in> set es. pvc_read e)
     \<and> (\<forall>p. r = Ok (Some p) \<longrightarrow> (\<exists>ns n. (GetObject Direct PVCKind ns n, GotObject (PVCObject p)) \<in> set es))"
  have "triple P (unless_missing (get_pvc E (cluster_namespace rmq) (PVCName rmq i))) ?Q"
    by (rule triple_unless_missing [OF triple_get_pvc]) (auto simp: pvc_read_def)
  then have "triple P (act_wrap ''failed to get PVC from Kubernetes API''
      (unless_missing (get_pvc E (cluster_namespace rmq) (PVCName rmq i)))) ?Q"
    by (rule triple_wrap) auto
  then show ?case
    unfolding get_pvcs.simps
  proof (rule triple_bind)
    fix p es
    show "triple (?Q (Ok p) es) (act_bind (get_pvcs E rmq js)
        (\<lambda>ps. act_ret (case p of None \<Rightarrow> ps | Some pvc \<Rightarrow> pvc # ps)))
      (\<lambda>r es' v. P v \<and> (\<forall>e \<in> set (es @ es'). pvc_read e) \<and> (\<forall>ps. r = Ok ps \<longrightarrow>
        (\<forall>p \<in> set ps. \<exists>ns n. (GetObject Direct PVCKind ns n, GotObject (PVCObject p)) \<in> set (es @ es'))))"
    proof (rule triple_bind [OF Cons.IH])
    qed (cases p; fastforce intro!: triple_ret)+
  qed auto
qed

lemma triple_scale_up_pvc:
  "triple P (scale_up_pvc E q pvc) (\<lambda>r es v. P v \<and> expansion_events q es)"
proof -
  have "triple (\<lambda>v. P v \<and> (\<exists>a ns n. es = [(GetObject Direct PVCKind ns n, GotObject (PVCObject p))]))
     (act_bind (act_lift (with_capacity q p)) (\<lambda>pvc'.
       act_bind (act_wrap (''failed to update PersistentVolumeClaim '' @ om_name (pvc_meta pvc'))
         (update_object E Direct (PVCObject pvc'))) (\<lambda>_. act_ret ())))
     (\<lambda>r es' v. P v \<and> expansion_events q (es @ es'))" for es p
  proof (rule triple_bind_lift)
    fix p'
    assume p': "with_capacity q p = Ok p'"
    have "triple (\<lambda>v. P v \<and> (\<exists>a ns n. es = [(GetObject Direct PVCKind ns n, GotObject (PVCObject p))]))
        (act_wrap (''failed to update PersistentVolumeClaim '' @ om_name (pvc_meta p'))
         (update_object E Direct (PVCObject p')))
        (\<lambda>r es2 v. P v \<and> expansion_events q (es @ es2))"
      unfolding update_object_def
      by (rule triple_wrap [OF triple_call_sp]) (auto simp: expansion_events_def grown_def pvc_read_def p')
    then show "triple (\<lambda>v. P v \<and> (\<exists>a ns n. es = [(GetObject Direct PVCKind ns n, GotObject (PVCObject p))]))
        (act_bind (act_wrap (''failed to update PersistentVolumeClaim '' @ om_name (pvc_meta p'))
         (update_object E Direct (PVCObject p'))) (\<lambda>_. act_ret ()))
        (\<lambda>r es' v. P v \<and> expansion_events q (es @ es'))"
      by (rule triple_discard)
  qed (auto simp: expansion_events_def grown_def pvc_read_def)
  note rest = this
  have read: "triple P (act_wrap ''failed to get PVC from Kubernetes API''
      (get_pvc E (om_namespace (pvc_meta pvc)) (om_name (pvc_meta pvc))))
    (\<lambda>r es v. P v \<and> (\<exists>a ns n. es = [(GetObject Direct PVCKind ns n, a)]
        \<and> (\<forall>p. r = Ok p \<longrightarrow> a = GotObject (PVCObject p))))"
    by (rule triple_wrap [OF triple_get_pvc]) auto
  show ?thesis
    unfolding scale_up_pvc_def
    by (rule triple_bind [OF read], rule triple_pre [OF rest])
      (auto simp: expansion_events_def grown_def pvc_read_def)
qed


lemma triple_scaleUpPVCs:
  "triple P (scaleUpPVCs E pvcs q) (\<lambda>r es v. P v \<and> expansion_events q es)"
  unfolding scaleUpPVCs_def
proof (induction pvcs arbitrary: P)
  case Nil
  show ?case by (auto intro!: triple_ret simp: expansion_events_def)
next
  case (Cons p ps)
  show ?case
    unfolding for_each.simps
    by (rule triple_bind [OF triple_scale_up_pvc], rule triple_post [OF Cons.IH])
      (auto intro: expansion_append)
qed

lemma triple_existing:
  "triple P (act_wrap ''failed to determine existing STS capactiy'' (unless_missing (existingCapacity E rmq)))
    (\<lambda>r es v. P v \<and> (\<exists>a. es = [(sts_key rmq, a)] \<and>
       (\<forall>t. a = GotObject (StatefulSetObject t) \<longrightarrow>
          r = Ok (Some (template_capacity (sts_volumeClaimTemplates (sts_spec t)))))))"
  by (auto simp: triple_def existingCapacity_def getSts_def get_object_def act_bind_def act_call_def act_lift_def
      act_wrap_def unless_missing_def act_catch_def act_ret_def answer_of_def
      as_statefulset_def conversion_panic_def split: prod.splits outcome.splits api_object.splits)


definition capacity_refused :: "quantity \<Rightarrow> quantity \<Rightarrow> bool" where
  "capacity_refused existing desired = (existing = 0 \<and> desired \<noteq> 0 \<or> desired < existing)"

text \<open>
  The two phases of an expansion: reading and, if some claim is too small, deleting the stateful
  set; then growing the claims.
\<close>

definition first_phase :: "RabbitmqCluster \<Rightarrow> quantity \<Rightarrow> event list \<Rightarrow> bool" where
  "first_phase rmq q es \<longleftrightarrow>
     (\<forall>e \<in> set es. fst e = sts_key rmq \<or> pvc_read e \<or> fst e = Sleep (3 * second) \<or> fst e = sts_deletion rmq)
     \<and> count_requests (\<lambda>r. r = sts_deletion rmq) es \<le> 1"

definition small_claim_read :: "quantity \<Rightarrow> event list \<Rightarrow> bool" where
  "small_claim_read q es \<longleftrightarrow>
     (\<exists>ns n p. (GetObject Direct PVCKind ns n, GotObject (PVCObject p)) \<in> set es \<and> pvc_capacity p < q)"

definition scale_events :: "RabbitmqCluster \<Rightarrow> quantity \<Rightarrow> event list \<Rightarrow> bool" where
  "scale_events rmq q es \<longleftrightarrow>
     (\<exists>pre post. es = pre @ post \<and> first_phase rmq q pre \<and> expansion_events q post
       \<and> (post \<noteq> [] \<longrightarrow> pre \<noteq> [] \<and> absent rmq (last pre))
       \<and> ((\<exists>e \<in> set es. fst e = sts_deletion rmq) \<or> post \<noteq> [] \<longrightarrow> small_claim_read q pre))"

lemma deletion_first_phase: "deletion_events rmq es \<Longrightarrow> first_phase rmq q es"
  unfolding deletion_events_def first_phase_def by blast

lemma reads_first_phase:
  assumes "\<forall>e \<in> set es. pvc_read e" and "first_phase rmq q es'"
  shows "first_phase rmq q (es @ es')"
proof -
  have "filter ((\<lambda>r. r = sts_deletion rmq) \<circ> fst) es = []"
    using assms(1) by (auto simp: filter_empty_conv pvc_read_def sts_deletion_def)
  with assms show ?thesis by (auto simp: first_phase_def count_requests_def)
qed

lemma key_first_phase: "first_phase rmq q es \<Longrightarrow> first_phase rmq q ((sts_key rmq, a) # es)"
  by (simp add: first_phase_def sts_deletion_def)

lemma triple_delete_and_scale:
  assumes "keeps_identity E"
  shows "triple P (act_then (act_wrap msg (deleteSts E rmq)) (scaleUpPVCs E pvcs q))
    (\<lambda>r es v. P v \<and> (\<exists>pre post. es = pre @ post \<and> first_phase rmq q pre \<and> expansion_events q post
       \<and> (post \<noteq> [] \<longrightarrow> pre \<noteq> [] \<and> absent rmq (last pre))))"
proof -
  have del: "triple P (act_wrap msg (deleteSts E rmq)) (\<lambda>r es v. P v \<and> first_phase rmq q es \<and>
     (r = Ok () \<longrightarrow> es \<noteq> [] \<and> absent rmq (last es)))"
    by (rule triple_wrap [OF triple_deleteSts [OF assms]]) (auto intro: deletion_first_phase)
  have none: "expansion_events q []" by (simp add: expansion_events_def)
  show ?thesis
    by (rule triple_bind [OF del], rule triple_post [OF triple_scaleUpPVCs]) (use none in \<open>force+\<close>)
qed

text \<open>The part of \<open>Scale\<close> that is reached when the capacity may grow.\<close>

definition grow_claims :: "'w env \<Rightarrow> RabbitmqCluster \<Rightarrow> quantity \<Rightarrow> ('w, unit) act" where
  "grow_claims E rmq q =
     act_bind (getClusterPVCs E rmq) (\<lambda>existingPVCs.
     let pvcsToBeScaled = pvcsNeedingScaling existingPVCs q
     in if pvcsToBeScaled = [] then act_ret ()
        else act_then (act_wrap ''failed to delete Statefulset from Kubernetes API'' (deleteSts E rmq))
               (scaleUpPVCs E pvcsToBeScaled q))"

lemma triple_grow_claims:
  assumes "keeps_identity E"
  shows "triple P (grow_claims E rmq q) (\<lambda>r es v. P v \<and> scale_events rmq q es)"
proof -
  have reads: "scale_events rmq q es" if "\<forall>e \<in> set es. pvc_read e" for es
  proof -
    have "first_phase rmq q []" "expansion_events q []"
      by (simp_all add: first_phase_def expansion_events_def)
    moreover have "fst e \<noteq> sts_deletion rmq" if "e \<in> set es" for e
      using \<open>\<forall>e \<in> set es. pvc_read e\<close> that by (auto simp: pvc_read_def sts_deletion_def)
    ultimately show ?thesis
      unfolding scale_events_def using reads_first_phase [OF that, of rmq q "[]"]
      by (intro exI [of _ es] exI [of _ "[]"]) auto
  qed
  have grow: "scale_events rmq q (es @ pre @ post)"
    if "\<forall>e \<in> set es. pvc_read e" "small_claim_read q es" "first_phase rmq q pre" "expansion_events q post"
      "post \<noteq> [] \<longrightarrow> pre \<noteq> [] \<and> absent rmq (last pre)" for es pre post
    unfolding scale_events_def
    using that reads_first_phase [OF that(1,3)] by (intro exI [of _ "es @ pre"] exI [of _ post]) (auto simp: small_claim_read_def)
  let ?Q = "\<lambda>r es v. P v \<and> (\<forall>e \<in> set es. pvc_read e)
     \<and> (\<forall>ps. r = Ok ps \<longrightarrow> (\<forall>p \<in> set ps. \<exists>ns n. (GetObject Direct PVCKind ns n, GotObject (PVCObject p)) \<in> set es))"
  show ?thesis
    unfolding grow_claims_def getClusterPVCs_def
  proof (rule triple_bind [OF triple_get_pvcs])
    fix ps es
    show "triple (?Q (Ok ps) es)
      (let pvcsToBeScaled = pvcsNeedingScaling ps q
       in if pvcsToBeScaled = [] then act_ret ()
          else act_then (act_wrap ''failed to delete Statefulset from Kubernetes API'' (deleteSts E rmq))
                 (scaleUpPVCs E pvcsToBeScaled q))
      (\<lambda>r es' v. P v \<and> scale_events rmq q (es @ es'))"
    proof (cases "pvcsNeedingScaling ps q = []")
      case True
      then show ?thesis by (auto intro!: triple_ret reads)
    next
      case False
      then obtain p where "p \<in> set ps" "pvc_capacity p < q"
        by (auto simp: pvcsNeedingScaling_def filter_empty_conv)
      then have small: "?Q (Ok ps) es v \<Longrightarrow> small_claim_read q es" for v
        unfolding small_claim_read_def by blast
      have "triple (\<lambda>v. ?Q (Ok ps) es v) (act_then (act_wrap ''failed to delete Statefulset from Kubernetes API'' (deleteSts E rmq))
                 (scaleUpPVCs E (pvcsNeedingScaling ps q) q)) (\<lambda>r es' v. P v \<and> scale_events rmq q (es @ es'))"
        by (rule triple_post [OF triple_delete_and_scale [OF assms]]) (use small in \<open>auto intro!: grow\<close>)
      with False show ?thesis by simp
    qed
  qed (auto intro: reads)
qed


definition refused_first :: "RabbitmqCluster \<Rightarrow> quantity \<Rightarrow> unit outcome \<Rightarrow> event list \<Rightarrow> bool" where
  "refused_first rmq q r es \<longleftrightarrow> (\<exists>a es'. es = (sts_key rmq, a) # es' \<and>
     (\<forall>t. a = GotObject (StatefulSetObject t) \<and>
        capacity_refused (template_capacity (sts_volumeClaimTemplates (sts_spec t))) q \<longrightarrow>
        es' = [] \<and> (\<exists>msg. r = Err (Errorf msg))))"

lemma triple_Scale:
  assumes "keeps_identity E"
  shows "triple P (Scale E rmq q) (\<lambda>r es v. P v \<and> scale_events rmq q es \<and> refused_first rmq q r es)"
proof -
  have first: "scale_events rmq q ((sts_key rmq, a) # es)" if events: "scale_events rmq q es" for a es q
  proof -
    obtain pre post where ev: "es = pre @ post" "first_phase rmq q pre" "expansion_events q post"
      "post \<noteq> [] \<longrightarrow> pre \<noteq> [] \<and> absent rmq (last pre)"
      "(\<exists>e \<in> set es. fst e = sts_deletion rmq) \<or> post \<noteq> [] \<longrightarrow> small_claim_read q pre"
      using events unfolding scale_events_def by blast
    have "small_claim_read q ((sts_key rmq, a) # pre)" if "small_claim_read q pre"
      using that by (auto simp: small_claim_read_def)
    then show ?thesis
      unfolding scale_events_def using ev key_first_phase [OF ev(2), of a]
      by (intro exI [of _ "(sts_key rmq, a) # pre"] exI [of _ post]) (auto simp: sts_deletion_def)
  qed
  have single: "scale_events rmq q' [(sts_key rmq, a)]" for q' a
    unfolding scale_events_def
    by (intro exI [of _ "[(sts_key rmq, a)]"] exI [of _ "[]"])
      (simp add: first_phase_def expansion_events_def sts_deletion_def)
  show ?thesis
    unfolding Scale_def grow_claims_def [symmetric] refused_first_def
  proof (rule triple_bind [OF triple_existing])
    fix existing es
    show "triple (\<lambda>v. P v \<and> (\<exists>a. es = [(sts_key rmq, a)] \<and> (\<forall>t. a = GotObject (StatefulSetObject t) \<longrightarrow>
          Ok existing = Ok (Some (template_capacity (sts_volumeClaimTemplates (sts_spec t)))))))
      (if existing = Some 0 \<and> q \<noteq> 0
       then act_err (Errorf ''changing from ephemeral to persistent storage is not supported'')
       else if (case existing of None \<Rightarrow> False | Some k \<Rightarrow> q < k)
       then act_err (Errorf ''shrinking persistent volumes is not supported'') else grow_claims E rmq q)
      (\<lambda>r es' v. P v \<and> scale_events rmq q (es @ es') \<and> (\<exists>a es''. es @ es' = (sts_key rmq, a) # es'' \<and>
         (\<forall>t. a = GotObject (StatefulSetObject t) \<and>
            capacity_refused (template_capacity (sts_volumeClaimTemplates (sts_spec t))) q \<longrightarrow>
            es'' = [] \<and> (\<exists>msg. r = Err (Errorf msg)))))"
    proof (cases "\<exists>k. existing = Some k \<and> capacity_refused k q")
      case True
      then show ?thesis
        by (auto simp: capacity_refused_def single intro!: triple_lift)
    next
      case False
      then have "\<not> (existing = Some 0 \<and> q \<noteq> 0) \<and> \<not> (case existing of None \<Rightarrow> False | Some k \<Rightarrow> q < k)"
        by (cases existing) (auto simp: capacity_refused_def)
      then show ?thesis
        using False by (simp only: if_False) (rule triple_post [OF triple_grow_claims [OF assms]], auto simp: first)
    qed
  qed (auto simp: single)
qed


lemma Scale_run:
  assumes "keeps_identity E" and "Scale E rmq q s = (r, s')"
  obtains es where "sys_trace s' = sys_trace s @ es" and "scale_events rmq q es" and "refused_first rmq q r es"
    and "sys_vars s' = sys_vars s"
proof -
  obtain es where "sys_trace s' = sys_trace s @ es"
    and "sys_vars s' = sys_vars s \<and> scale_events rmq q es \<and> refused_first rmq q r es"
    by (rule tripleD [OF triple_Scale [OF assms(1), of "\<lambda>v. v = sys_vars s"] refl assms(2)])
  then show thesis using that by blast
qed

section \<open>Properties\<close>

text \<open>
  C20. \<open>Scale\<close> refuses to shrink a volume and to give an ephemeral cluster a persistent one:
  when the stateful set that it reads has such a claim template, it makes no further request,
  neither to delete nor to update anything, and returns an error.
\<close>

theorem scale_refuses:
  assumes "keeps_identity E" and "Scale E rmq q s = (r, s')"
    and "sys_trace s' = sys_trace s @ (req, GotObject (StatefulSetObject t)) # es"
    and "template_capacity (sts_volumeClaimTemplates (sts_spec t)) = k" and "k = 0 \<and> q \<noteq> 0 \<or> q < k"
  shows "es = [] \<and> req = GetObject Direct StatefulSetKind (cluster_namespace rmq) (ChildResourceName rmq ''server'')
    \<and> (\<exists>msg. r = Err (Errorf msg))"
proof -
  obtain es0 where "sys_trace s' = sys_trace s @ es0" and es0: "refused_first rmq q r es0"
    using Scale_run [OF assms(1,2)] .
  with assms(3) have eq: "es0 = (req, GotObject (StatefulSetObject t)) # es" by simp
  from es0 obtain a es' where es': "es0 = (sts_key rmq, a) # es'"
    and refused: "\<forall>t. a = GotObject (StatefulSetObject t) \<and>
        capacity_refused (template_capacity (sts_volumeClaimTemplates (sts_spec t))) q \<longrightarrow>
        es' = [] \<and> (\<exists>msg. r = Err (Errorf msg))"
    unfolding refused_first_def by (elim exE conjE) (rule that)
  from eq es' have "req = sts_key rmq" "a = GotObject (StatefulSetObject t)" "es' = es" by simp_all
  moreover have "capacity_refused (template_capacity (sts_volumeClaimTemplates (sts_spec t))) q"
    using assms(4,5) by (simp add: capacity_refused_def)
  ultimately show ?thesis using refused by simp
qed

definition sample_claim :: "quantity \<Rightarrow> PersistentVolumeClaim" where
  "sample_claim q = \<lparr>pvc_meta = new_meta ''persistence'' ''ns'', pvc_spec = \<lparr>pvcs_resources =
     \<lparr>rr_limits = None, rr_requests = Some [''storage'' \<mapsto> q]\<rparr>, pvcs_accessModes = [], pvcs_storageClassName = None\<rparr>\<rparr>"

definition sample_sts :: "quantity \<Rightarrow> StatefulSet" where
  "sample_sts q = \<lparr>sts_meta = new_meta ''r-server'' ''ns'', sts_spec = \<lparr>sts_replicas = Some 1, sts_serviceName = [],
     sts_selector = None, sts_template = zero_template, sts_volumeClaimTemplates = [sample_claim q],
     sts_podManagementPolicy = [], sts_updateStrategy = \<lparr>us_type = [], us_partition = None\<rparr>\<rparr>,
     sts_status = \<lparr>sts_readyReplicas = 1, sts_currentRevision = [], sts_updateRevision = []\<rparr>\<rparr>"

definition sample_sys :: "api_object list \<Rightarrow> RabbitmqCluster \<Rightarrow> server sys" where
  "sample_sys xs c = \<lparr>sys_world = \<lparr>sv_objects = xs, sv_time = 0\<rparr>, sys_trace = [],
     sys_vars = \<lparr>v_cluster = c, v_resource = ClusterObject c, v_operation = OperationResultNone\<rparr>\<rparr>"

theorem scale_refuses_witness:
  "let c = new_cluster ''r'' ''ns'' ''u''; s = sample_sys [StatefulSetObject (sample_sts 5)] c in
   sys_trace (snd (Scale sample_env c 3 s)) =
     [(GetObject Direct StatefulSetKind ''ns'' ''r-server'', GotObject (StatefulSetObject (sample_sts 5)))]"
proof -
  let ?c = "new_cluster ''r'' ''ns'' ''u''"
  let ?s = "sample_sys [StatefulSetObject (sample_sts 5)] ?c"
  obtain r s' where run: "Scale sample_env ?c 3 ?s = (r, s')" by fastforce
  have name: "ChildResourceName ?c ''server'' = ''r-server''" by (simp add: child_names)
  have "\<exists>es. sys_trace s' = sys_trace ?s @
      (GetObject Direct StatefulSetKind ''ns'' ''r-server'', GotObject (StatefulSetObject (sample_sts 5))) # es"
    using run by (auto simp: Scale_def existingCapacity_def getSts_def get_object_def act_call_def act_bind_def
        act_wrap_def act_catch_def unless_missing_def act_lift_def act_ret_def sample_env_def server_get_def
        sample_sys_def sample_sts_def is_at_def name answer_of_def as_statefulset_def sample_claim_def)
  then obtain es where tr: "sys_trace s' = sys_trace ?s @
      (GetObject Direct StatefulSetKind ''ns'' ''r-server'', GotObject (StatefulSetObject (sample_sts 5))) # es" ..
  have "keeps_identity sample_env" by (rule env_okD(3) [OF sample_env_ok])
  moreover have "template_capacity (sts_volumeClaimTemplates (sts_spec (sample_sts 5))) = 5"
    by (simp add: sample_sts_def sample_claim_def)
  ultimately have "es = []" using scale_refuses [OF _ run tr] by simp
  with tr run show ?thesis by (simp add: sample_sys_def Let_def)
qed

text \<open>
  C19. The order of an expansion. The requests of \<open>Scale\<close> fall into two phases: it first reads
  and deletes the stateful set at most once, without its pods; only then it updates claims,
  and the last thing it has seen before is the API server saying that the stateful set does not
  exist. Something is deleted or updated only after a claim was read that is too small.
\<close>

theorem scale_order:
  assumes "keeps_identity E" and "Scale E rmq q s = (r, s')"
  shows "\<exists>pre post. sys_trace s' = sys_trace s @ pre @ post \<and> sys_vars s' = sys_vars s
    \<and> (\<forall>e \<in> set pre. fst e = sts_key rmq \<or> fst e = sts_deletion rmq \<or> fst e = Sleep (3 * second)
          \<or> (\<exists>ns n. fst e = GetObject Direct PVCKind ns n))
    \<and> length (filter (\<lambda>e. fst e = sts_deletion rmq) pre) \<le> 1
    \<and> (\<forall>e \<in> set post. (\<exists>ns n. fst e = GetObject Direct PVCKind ns n) \<or> (\<exists>p. fst e = UpdateObject Direct (PVCObject p)))
    \<and> (post \<noteq> [] \<longrightarrow> pre \<noteq> [] \<and> (\<exists>e. last pre = (sts_key rmq, Refused e) \<and> is_not_found e))
    \<and> ((\<exists>e \<in> set pre. fst e = sts_deletion rmq) \<or> post \<noteq> [] \<longrightarrow>
         (\<exists>ns n p. (GetObject Direct PVCKind ns n, GotObject (PVCObject p)) \<in> set pre \<and> pvc_capacity p < q))"
proof -
  obtain es where tr: "sys_trace s' = sys_trace s @ es" and ev: "scale_events rmq q es" and v: "sys_vars s' = sys_vars s"
    using Scale_run [OF assms(1,2)] .
  from ev obtain pre post where es: "es = pre @ post" and pre: "first_phase rmq q pre"
    and post: "expansion_events q post" "post \<noteq> [] \<longrightarrow> pre \<noteq> [] \<and> absent rmq (last pre)"
    and small: "(\<exists>e \<in> set es. fst e = sts_deletion rmq) \<or> post \<noteq> [] \<longrightarrow> small_claim_read q pre"
    unfolding scale_events_def by blast
  have "sys_trace s' = sys_trace s @ pre @ post" using tr es by simp
  moreover have "\<forall>e \<in> set pre. fst e = sts_key rmq \<or> fst e = sts_deletion rmq \<or> fst e = Sleep (3 * second)
      \<or> (\<exists>ns n. fst e = GetObject Direct PVCKind ns n)"
    "length (filter (\<lambda>e. fst e = sts_deletion rmq) pre) \<le> 1"
    using pre unfolding first_phase_def pvc_read_def count_requests_def comp_def by blast+
  moreover have "\<forall>e \<in> set post. (\<exists>ns n. fst e = GetObject Direct PVCKind ns n) \<or> (\<exists>p. fst e = UpdateObject Direct (PVCObject p))"
    using post(1) unfolding expansion_events_def pvc_read_def by blast
  moreover have "post \<noteq> [] \<longrightarrow> pre \<noteq> [] \<and> (\<exists>e. last pre = (sts_key rmq, Refused e) \<and> is_not_found e)"
    using post(2) unfolding absent_def .
  moreover have "(\<exists>e \<in> set pre. fst e = sts_deletion rmq) \<or> post \<noteq> [] \<longrightarrow>
      (\<exists>ns n p. (GetObject Direct PVCKind ns n, GotObject (PVCObject p)) \<in> set pre \<and> pvc_capacity p < q)"
    using small unfolding small_claim_read_def es set_append by blast
  ultimately show ?thesis using v by (intro exI conjI)
qed

definition growing_sys :: "server sys" where
  "growing_sys = sample_sys [StatefulSetObject (sample_sts 3),
     PVCObject ((sample_claim 3)\<lparr>pvc_meta := new_meta ''persistence-r-server-0'' ''ns''\<rparr>)] (new_cluster ''r'' ''ns'' ''u'')"

definition is_update :: "event \<Rightarrow> bool" where
  "is_update ev = (case fst ev of UpdateObject cl x \<Rightarrow> True | _ \<Rightarrow> False)"

lemma growing_run: "map is_update (sys_trace (snd (Scale sample_env (new_cluster ''r'' ''ns'' ''u'') 5 growing_sys)))
    = [False, False, False, False, False, False, True]"
  by code_simp

lemma is_update_iff: "is_update ev \<longleftrightarrow> (\<exists>cl x. fst ev = UpdateObject cl x)"
  by (auto simp: is_update_def split: request.splits)

theorem scale_order_witness:
  "\<exists>pre post. sys_trace (snd (Scale sample_env (new_cluster ''r'' ''ns'' ''u'') 5 growing_sys)) = pre @ post
     \<and> post \<noteq> [] \<and> (\<exists>e. last pre = (sts_key (new_cluster ''r'' ''ns'' ''u''), Refused e) \<and> is_not_found e)"
proof -
  let ?c = "new_cluster ''r'' ''ns'' ''u''"
  obtain r s' where run: "Scale sample_env ?c 5 growing_sys = (r, s')" by fastforce
  have "True \<in> set (map is_update (sys_trace s'))" using growing_run run by simp
  then obtain ev where ev: "ev \<in> set (sys_trace s')" "is_update ev" by auto
  from scale_order [OF env_okD(3) [OF sample_env_ok] run] obtain pre post where
    tr: "sys_trace s' = sys_trace growing_sys @ pre @ post"
    and pre: "\<forall>e \<in> set pre. fst e = sts_key ?c \<or> fst e = sts_deletion ?c \<or> fst e = Sleep (3 * second)
          \<or> (\<exists>ns n. fst e = GetObject Direct PVCKind ns n)"
    and post: "post \<noteq> [] \<longrightarrow> pre \<noteq> [] \<and> (\<exists>e. last pre = (sts_key ?c, Refused e) \<and> is_not_found e)"
    by (elim exE conjE) (rule that)
  have tr': "sys_trace s' = pre @ post" using tr by (simp add: growing_sys_def sample_sys_def)
  have "ev \<notin> set pre" using pre ev(2) by (auto simp: is_update_iff sts_deletion_def)
  with ev(1) tr' have "post \<noteq> []" by auto
  with post tr' run show ?thesis by (intro exI [of _ pre] exI [of _ post]) simp
qed

text \<open>
  C21. Every update of a claim writes the claim as it was read by the request just before,
  except for the requested storage, which becomes the desired capacity.
\<close>

theorem scale_updates_storage_only:
  assumes "keeps_identity E" and "Scale E rmq q s = (r, s')"
    and "sys_trace s' = sys_trace s @ pre @ (UpdateObject cl x, a) # post"
  shows "\<exists>before ns n pvc pvc'. pre = before @ [(GetObject Direct PVCKind ns n, GotObject (PVCObject pvc))]
    \<and> x = PVCObject pvc' \<and> pvc_capacity pvc' = q
    \<and> pvc' = pvc\<lparr>pvc_spec := (pvc_spec pvc)\<lparr>pvcs_resources := (pvcs_resources (pvc_spec pvc))
         \<lparr>rr_requests := rr_requests (pvcs_resources (pvc_spec pvc'))\<rparr>\<rparr>\<rparr>
    \<and> (\<forall>k. k \<noteq> ''storage'' \<longrightarrow> entries (rr_requests (pvcs_resources (pvc_spec pvc'))) k
         = entries (rr_requests (pvcs_resources (pvc_spec pvc))) k)"
proof -
  obtain es where "sys_trace s' = sys_trace s @ es" and ev: "scale_events rmq q es"
    using Scale_run [OF assms(1,2)] .
  with assms(3) have es: "es = pre @ (UpdateObject cl x, a) # post" by simp
  from ev obtain pre1 post1 where split: "es = pre1 @ post1" "first_phase rmq q pre1" "expansion_events q post1"
    unfolding scale_events_def by blast
  have "guarded (grown q) [] pre1"
    using split(2) by (intro guarded_all grown_other) (auto simp: first_phase_def pvc_read_def sts_deletion_def)
  moreover have "guarded (grown q) pre1 post1"
    using split(3) by (simp add: expansion_events_def guarded_grown)
  ultimately have "guarded (grown q) [] es" using split(1) by simp
  then have "grown q pre (UpdateObject cl x, a)" using es by simp
  then have "\<exists>pre0 ns n pvc pvc'. pre = pre0 @ [(GetObject Direct PVCKind ns n, GotObject (PVCObject pvc))]
      \<and> with_capacity q pvc = Ok pvc' \<and> x = PVCObject pvc'"
    unfolding grown_def by simp
  then obtain before ns n pvc pvc' where g: "pre = before @ [(GetObject Direct PVCKind ns n, GotObject (PVCObject pvc))]"
    "with_capacity q pvc = Ok pvc'" "x = PVCObject pvc'"
    by blast
  from g(2) obtain m where m: "map_store (rr_requests (pvcs_resources (pvc_spec pvc))) ''storage'' q = Ok m"
    and p': "pvc' = pvc\<lparr>pvc_spec := (pvc_spec pvc)\<lparr>pvcs_resources := (pvcs_resources (pvc_spec pvc))\<lparr>rr_requests := m\<rparr>\<rparr>\<rparr>"
    by (auto simp: with_capacity_def bind_ok_eq_Ok)
  from entries_map_store [OF m] have "quantity_entry m ''storage'' = q" by (simp add: quantity_entry_def)
  with g p' entries_map_store [OF m] show ?thesis by (simp add: pvc_capacity_def)
qed

theorem scale_updates_storage_only_witness:
  "\<exists>cl pvc a. (UpdateObject cl (PVCObject pvc), a)
     \<in> set (sys_trace (snd (Scale sample_env (new_cluster ''r'' ''ns'' ''u'') 5 growing_sys))) \<and> pvc_capacity pvc = 5"
proof -
  let ?c = "new_cluster ''r'' ''ns'' ''u''"
  obtain r s' where run: "Scale sample_env ?c 5 growing_sys = (r, s')" by fastforce
  have "True \<in> set (map is_update (sys_trace s'))" using growing_run run by simp
  then obtain cl x a where ev: "(UpdateObject cl x, a) \<in> set (sys_trace s')"
    by (auto simp: is_update_iff)
  then obtain pre post where "sys_trace s' = pre @ (UpdateObject cl x, a) # post" by (meson split_list)
  then have "sys_trace s' = sys_trace growing_sys @ pre @ (UpdateObject cl x, a) # post"
    by (simp add: growing_sys_def sample_sys_def)
  from scale_updates_storage_only [OF env_okD(3) [OF sample_env_ok] run this] ev run show ?thesis
    by (elim exE conjE) auto
qed

text \<open>
  C22. Waiting for the stateful set to go ends: \<open>retryWithInterval\<close> asks the API server at most
  so many times and sleeps at most as often. It succeeds only if its last question was
  answered by not found, and it reports an error only after having asked and slept
  that many times without such an answer.
\<close>

theorem retry_is_bounded:
  assumes "retryWithInterval E msg n d (sts_is_gone E rmq) s = (r, s')"
  shows "\<exists>es. sys_trace s' = sys_trace s @ es
    \<and> length (filter (\<lambda>e. fst e = Sleep d) es) \<le> nat n \<and> length (filter (\<lambda>e. fst e = sts_key rmq) es) \<le> nat n
    \<and> (\<forall>e \<in> set es. fst e = sts_key rmq \<or> fst e = Sleep d)
    \<and> (r = Ok () \<longrightarrow> es \<noteq> [] \<and> (\<exists>e. last es = (sts_key rmq, Refused e) \<and> is_not_found e))
    \<and> ((\<exists>e. r = Err e) \<longrightarrow> length (filter (\<lambda>e. fst e = Sleep d) es) = nat n
          \<and> length (filter (\<lambda>e. fst e = sts_key rmq) es) = nat n
          \<and> (\<forall>e. is_not_found e \<longrightarrow> (sts_key rmq, Refused e) \<notin> set es))"
proof -
  obtain es b where tr: "sys_trace s' = sys_trace s @ es" and w: "waits rmq d (nat n) b es"
    and b: "r = Ok () \<longrightarrow> b = Ok True" "(\<exists>e. r = Err e) \<longrightarrow> b = Ok False"
    using tripleD [OF triple_retryWithInterval [of "\<lambda>v. True"] TrueI assms] by metis
  have count: "count_requests (\<lambda>q. q = a) es = length (filter (\<lambda>e. fst e = a) es)" for a
    by (simp add: count_requests_def comp_def)
  show ?thesis
    using w b by (intro exI [of _ es]) (auto simp: tr waits_def count absent_def)
qed


theorem retry_is_bounded_witness:
  "\<exists>e. last (sys_trace (snd (retryWithInterval sample_env ''delete statefulSet'' 10 (3 * second)
       (sts_is_gone sample_env (new_cluster ''r'' ''ns'' ''u'')) (sample_sys [] (new_cluster ''r'' ''ns'' ''u'')))))
     = (sts_key (new_cluster ''r'' ''ns'' ''u''), Refused e) \<and> is_not_found e"
proof -
  let ?c = "new_cluster ''r'' ''ns'' ''u''"
  let ?run = "retryWithInterval sample_env ''delete statefulSet'' 10 (3 * second) (sts_is_gone sample_env ?c) (sample_sys [] ?c)"
  obtain r s' where run: "?run = (r, s')" by fastforce
  have "fst ?run = Ok ()" by code_simp
  with run have "r = Ok ()" by simp
  with retry_is_bounded [OF run] obtain es where
    "sys_trace s' = sys_trace (sample_sys [] ?c) @ es" "\<exists>e. last es = (sts_key ?c, Refused e) \<and> is_not_found e"
    by blast
  with run show ?thesis by (simp add: sample_sys_def)
qed

end
