(* ===== verification/Ctl_Config.thy ===== *)
theory Ctl_Config
  imports Ctl_Utils Op_Scaling
begin

text \<open>
  The steps around the builders: \<open>reconcile_rabbitmq_configurations.go\<close> (annotations that mark
  what has changed, and the restart of the stateful set), \<open>reconcile_cli.go\<close> (commands run in
  the pods when an annotation asks for it), \<open>reconcile_scale_down.go\<close> and
  \<open>reconcile_persistence.go\<close>.
\<close>

section \<open>Annotations\<close>

definition pluginsUpdateAnnotation :: string where "pluginsUpdateAnnotation = ''rabbitmq.com/pluginsUpdatedAt''"
definition serverConfAnnotation :: string where "serverConfAnnotation = ''rabbitmq.com/serverConfUpdatedAt''"
definition stsRestartAnnotation :: string where "stsRestartAnnotation = ''rabbitmq.com/lastRestartAt''"
definition stsCreateAnnotation :: string where "stsCreateAnnotation = ''rabbitmq.com/createdAt''"
definition queueRebalanceAnnotation :: string where
  "queueRebalanceAnnotation = ''rabbitmq.com/queueRebalanceNeededAt''"

text \<open>Which object is marked, and with which annotation; \<open>None\<close> where the source returns nil at once.\<close>

definition annotation_target ::
  "builder \<Rightarrow> OperationResult \<Rightarrow> RabbitmqCluster \<Rightarrow> (kind \<times> string \<times> string) option" where
  "annotation_target b operationResult rmq =
     (case b of
        PluginsConfigMapBuilder \<Rightarrow>
          if operationResult \<noteq> OperationResultUpdated then None
          else Some (ConfigMapKind, ChildResourceName rmq PluginsConfigName, pluginsUpdateAnnotation)
      | ServerConfigMapBuilder \<Rightarrow>
          if operationResult \<noteq> OperationResultUpdated then None
          else Some (ConfigMapKind, ChildResourceName rmq ServerConfigMapName, serverConfAnnotation)
      | StatefulSetBuilder \<Rightarrow>
          if operationResult \<noteq> OperationResultCreated then None
          else Some (StatefulSetKind, ChildResourceName rmq ''server'', stsCreateAnnotation)
      | _ \<Rightarrow> None)"

definition annotateIfNeeded :: "'w env \<Rightarrow> builder \<Rightarrow> OperationResult \<Rightarrow> ('w, unit) act" where
  "annotateIfNeeded E b operationResult = with_cluster (\<lambda>rmq.
     case annotation_target b operationResult rmq of
       None \<Rightarrow> act_ret ()
     | Some (k, objName, annotationKey) \<Rightarrow>
         act_bind (now E) (\<lambda>t.
         act_catch (updateAnnotation E k (cluster_namespace rmq) objName annotationKey (format_rfc3339 t)) (\<lambda>e.
           act_then (record_event ''Warning'' ''FailedUpdate'' (''failed to annotate '' @ objName)) (act_err e))))"

section \<open>Restart of the stateful set\<close>

definition template_annotation :: "string \<Rightarrow> StatefulSet \<Rightarrow> string option" where
  "template_annotation key sts = entries (om_annotations (pt_meta (sts_template (sts_spec sts)))) key"

definition with_template_annotation :: "string \<Rightarrow> string \<Rightarrow> StatefulSet \<Rightarrow> StatefulSet" where
  "with_template_annotation key value sts =
     (let spec = sts_spec sts; template = sts_template spec
      in sts\<lparr>sts_spec := spec\<lparr>sts_template := template\<lparr>pt_meta := with_annotation key value (pt_meta template)\<rparr>\<rparr>\<rparr>)"

definition restart_needed :: "string \<Rightarrow> StatefulSet \<Rightarrow> bool" where
  "restart_needed serverConfigUpdatedAt sts =
     (case template_annotation stsRestartAnnotation sts of
        None \<Rightarrow> True
      | Some stsRestartedAt \<Rightarrow> \<not> str_less serverConfigUpdatedAt stsRestartedAt)"

definition restart_attempt :: "'w env \<Rightarrow> RabbitmqCluster \<Rightarrow> ('w, unit) act" where
  "restart_attempt E rmq =
     act_bind (get_statefulset E rmq) (\<lambda>sts.
     act_bind (now E) (\<lambda>t.
     act_bind (update_object E Cached
         (StatefulSetObject (with_template_annotation stsRestartAnnotation (format_rfc3339 t) sts))) (\<lambda>_.
     act_ret ())))"

text \<open>A missing object makes the step ask for another attempt after ten seconds.\<close>

definition or_requeue :: "('w, 'a) act \<Rightarrow> ('a \<Rightarrow> ('w, int) act) \<Rightarrow> ('w, int) act" where
  "or_requeue m f = act_bind (unless_missing m) (\<lambda>r. case r of None \<Rightarrow> act_ret (10 * second) | Some x \<Rightarrow> f x)"

definition restartStatefulSetIfNeeded :: "'w env \<Rightarrow> ('w, int) act" where
  "restartStatefulSetIfNeeded E = with_cluster (\<lambda>rmq.
     or_requeue (configMap E (ChildResourceName rmq ServerConfigMapName)) (\<lambda>serverConf.
     case entries (om_annotations (cm_meta serverConf)) serverConfAnnotation of
       None \<Rightarrow> act_ret 0
     | Some serverConfigUpdatedAt \<Rightarrow>
         or_requeue (get_statefulset E rmq) (\<lambda>sts.
         if \<not> restart_needed serverConfigUpdatedAt sts then act_ret 0
         else act_then (act_catch (retry_on_conflict E (restart_attempt E rmq)) (\<lambda>e.
                act_then (record_event ''Warning'' ''FailedUpdate''
                    (''failed to restart StatefulSet '' @ ChildResourceName rmq ''server''
                      @ ''; rabbitmq.conf configuration may be outdated'')) (act_err e)))
              (act_then (record_event ''Normal'' ''SuccessfulUpdate''
                  (''restarted StatefulSet '' @ ChildResourceName rmq ''server''))
                (act_ret 0)))))"

definition pluginsConfigUpdatedRecently :: "gotime \<Rightarrow> ConfigMap \<Rightarrow> bool outcome" where
  "pluginsConfigUpdatedRecently t cfg =
     (case entries (om_annotations (cm_meta cfg)) pluginsUpdateAnnotation of
        None \<Rightarrow> Ok False
      | Some pluginsUpdatedAt \<Rightarrow>
          bind_ok (parse_rfc3339 pluginsUpdatedAt) (\<lambda>annotationTime. Ok (t - annotationTime < 2 * second)))"

section \<open>Commands in the pods\<close>

definition statefulSetBeingUpdated :: "StatefulSet \<Rightarrow> bool" where
  "statefulSetBeingUpdated sts =
     (sts_currentRevision (sts_status sts) \<noteq> sts_updateRevision (sts_status sts))"

definition nil_replicas :: "'a outcome" where
  "nil_replicas = Panic ''nil pointer dereference''"

definition allReplicasReadyAndUpdated :: "StatefulSet \<Rightarrow> bool outcome" where
  "allReplicasReadyAndUpdated sts =
     (case sts_replicas (sts_spec sts) of
        None \<Rightarrow> nil_replicas
      | Some n \<Rightarrow> Ok (sts_readyReplicas (sts_status sts) = n \<and> \<not> statefulSetBeingUpdated sts))"

definition statefulSetNeedsQueueRebalance :: "StatefulSet \<Rightarrow> RabbitmqCluster \<Rightarrow> bool outcome" where
  "statefulSetNeedsQueueRebalance sts rmq =
     (if statefulSetBeingUpdated sts \<and> \<not> sp_skipPostDeploySteps (cl_spec rmq)
      then (case sp_replicas (cl_spec rmq) of None \<Rightarrow> nil_replicas | Some n \<Rightarrow> Ok (1 < n))
      else Ok False)"

definition server_pod :: "RabbitmqCluster \<Rightarrow> int \<Rightarrow> string" where
  "server_pod rmq i = ChildResourceName rmq ''server'' @ ''-'' @ itoa i"

text \<open>A command in the container \<open>rabbitmq\<close>; its failure is an event and a wrapped error.\<close>

definition exec_or_fail :: "'w env \<Rightarrow> RabbitmqCluster \<Rightarrow> string \<Rightarrow> string list \<Rightarrow> string \<Rightarrow> ('w, unit) act" where
  "exec_or_fail E rmq podName command msg =
     act_catch (act_bind (exec E (cluster_namespace rmq) podName ''rabbitmq'' command) (\<lambda>_. act_ret ())) (\<lambda>e.
       act_then (record_event ''Warning'' ''FailedReconcile'' (msg @ '' '' @ podName))
         (act_err (WrapError (msg @ '' '' @ podName) e)))"

definition enable_feature_flags_script :: string where
  "enable_feature_flags_script =
     ''set -eo pipefail; rabbitmqctl -s list_feature_flags name state stability | (grep 'disabled''
       @ [CHR 0x5C] @ ''sstable$' || true) | cut -f 1 | xargs -r -n1 rabbitmqctl enable_feature_flag''"

definition runEnableFeatureFlagsCommand :: "'w env \<Rightarrow> StatefulSet \<Rightarrow> ('w, unit) act" where
  "runEnableFeatureFlagsCommand E sts = with_cluster (\<lambda>rmq.
     act_then (exec_or_fail E rmq (server_pod rmq 0) [''bash'', ''-c'', enable_feature_flags_script]
         ''failed to enable all feature flags on pod'')
       (deleteAnnotation E (StatefulSetObject sts) stsCreateAnnotation))"

definition runSetPluginsCommand :: "'w env \<Rightarrow> ConfigMap \<Rightarrow> ('w, unit) act" where
  "runSetPluginsCommand E cfg = with_cluster (\<lambda>rmq.
     case sp_replicas (cl_spec rmq) of
       None \<Rightarrow> act_lift nil_replicas
     | Some n \<Rightarrow>
         act_then (for_each (\<lambda>i. exec_or_fail E rmq (server_pod rmq i)
             [''sh'', ''-c'', ''rabbitmq-plugins set ''
                @ AsString (NewRabbitmqPlugins (rc_additionalPlugins (sp_rabbitmq (cl_spec rmq)))) '' '']
             ''failed to set plugins on pod'') [0..n - 1])
           (deleteAnnotation E (ConfigMapObject cfg) pluginsUpdateAnnotation))"

definition runQueueRebalanceCommand :: "'w env \<Rightarrow> ('w, unit) act" where
  "runQueueRebalanceCommand E = with_cluster (\<lambda>rmq.
     act_then (exec_or_fail E rmq (server_pod rmq 0) [''sh'', ''-c'', ''rabbitmq-queues rebalance all'']
         ''failed to run queue rebalance on pod'')
       (deleteClusterAnnotation E queueRebalanceAnnotation))"

definition annotated_with :: "string \<Rightarrow> ObjectMeta \<Rightarrow> bool" where
  "annotated_with key m = (om_annotations m \<noteq> None \<and> str_entry (om_annotations m) key \<noteq> [])"

text \<open>
  The plugins config map that is not found is a nil pointer, whose annotations are read next.
\<close>

definition runRabbitmqCLICommandsIfAnnotated :: "'w env \<Rightarrow> ('w, int) act" where
  "runRabbitmqCLICommandsIfAnnotated E = with_cluster (\<lambda>rmq.
     act_bind (get_statefulset E rmq) (\<lambda>sts.
     act_bind (act_lift (allReplicasReadyAndUpdated sts)) (\<lambda>ready.
     if \<not> ready then act_ret (15 * second)
     else
     act_bind (unless_missing (configMap E (ChildResourceName rmq PluginsConfigName))) (\<lambda>pluginsConfig.
     case pluginsConfig of
       None \<Rightarrow> act_lift nil_replicas
     | Some cfg \<Rightarrow>
     act_bind (now E) (\<lambda>t.
     act_bind (act_lift (pluginsConfigUpdatedRecently t cfg)) (\<lambda>updatedRecently.
     if updatedRecently then act_ret (2 * second)
     else
     act_then (if annotated_with pluginsUpdateAnnotation (cm_meta cfg) then runSetPluginsCommand E cfg else act_ret ())
     (act_then (if annotated_with stsCreateAnnotation (sts_meta sts) then runEnableFeatureFlagsCommand E sts else act_ret ())
     (act_then (with_cluster (\<lambda>rmq'. if annotated_with queueRebalanceAnnotation (cl_meta rmq')
                  then runQueueRebalanceCommand E else act_ret ()))
     (act_ret 0)))))))))"

definition markForQueueRebalance :: "'w env \<Rightarrow> ('w, unit) act" where
  "markForQueueRebalance E = with_cluster (\<lambda>rmq.
     act_then (put_cluster (rmq\<lparr>cl_meta := (cl_meta rmq)\<lparr>om_annotations := Some (entries (om_annotations (cl_meta rmq)))\<rparr>\<rparr>))
     (if str_entry (om_annotations (cl_meta rmq)) queueRebalanceAnnotation \<noteq> [] then act_ret ()
      else act_bind (now E) (\<lambda>t.
        act_then (put_cluster (rmq\<lparr>cl_meta := with_annotation queueRebalanceAnnotation (format_rfc3339 t) (cl_meta rmq)\<rparr>))
          (update_cluster E))))"

section \<open>Scaling\<close>

definition scaleDown :: "'w env \<Rightarrow> StatefulSet \<Rightarrow> StatefulSet \<Rightarrow> ('w, bool) act" where
  "scaleDown E current sts =
     (case (sts_replicas (sts_spec current), sts_replicas (sts_spec sts)) of
        (Some currentReplicas, Some desiredReplicas) \<Rightarrow>
          if desiredReplicas < currentReplicas
          then (let msg = ''Cluster Scale down not supported; tried to scale cluster from ''
                       @ itoa currentReplicas @ '' nodes to '' @ itoa desiredReplicas @ '' nodes''
                in act_then (record_event ''Warning'' ''UnsupportedOperation'' msg)
                  (act_then (set_status_condition E ReconcileSuccess ConditionFalse ''UnsupportedOperation'' [msg])
                  (act_then (act_ignore (update_status E)) (act_ret True))))
          else act_ret False
      | _ \<Rightarrow> act_lift nil_replicas)"

definition persistenceStorageCapacity :: "PersistentVolumeClaim list \<Rightarrow> quantity" where
  "persistenceStorageCapacity templates = template_capacity templates"

definition reconcilePVC :: "'w env \<Rightarrow> StatefulSet \<Rightarrow> ('w, unit) act" where
  "reconcilePVC E desiredSts = with_cluster (\<lambda>rmq.
     act_catch (Scale E rmq (persistenceStorageCapacity (sts_volumeClaimTemplates (sts_spec desiredSts)))) (\<lambda>e.
       act_then (record_event ''Warning'' ''FailedReconcilePersistence''
           (''Failed to scale PVCs: '' @ error_string e)) (act_err e)))"

end
