(* ===== verification/Op_Reconcile.thy ===== *)
theory Op_Reconcile
  imports Ctl_Deletion Ctl_Config
begin

text \<open>
  \<open>rabbitmqcluster_controller.go\<close>: one reconciliation of a custom resource, from the request
  that names it to the final write of its status. The result is the time after which to
  come back, zero for not at all, or an error.
\<close>

section \<open>Ownership\<close>

definition apiGVStr :: string where "apiGVStr = ''rabbitmq.com/v1beta1''"
definition ownerKind :: string where "ownerKind = ''RabbitmqCluster''"

definition pauseReconciliationLabel :: string where
  "pauseReconciliationLabel = ''rabbitmq.com/pauseReconciliation''"

definition validateAndGetOwner :: "OwnerReference option \<Rightarrow> string list" where
  "validateAndGetOwner owner =
     (case owner of
        None \<Rightarrow> []
      | Some o' \<Rightarrow> if or_apiVersion o' \<noteq> apiGVStr \<or> or_kind o' \<noteq> ownerKind then [] else [or_name o'])"

definition addResourceToIndex :: "api_object \<Rightarrow> string list" where
  "addResourceToIndex x =
     (if kind_of x \<in> {StatefulSetKind, ConfigMapKind, ServiceKind, RoleKind, RoleBindingKind, ServiceAccountKind, SecretKind}
      then validateAndGetOwner (controller_of (object_meta x)) else [])"

section \<open>One resource\<close>

text \<open>The verb \<open>%T\<close> on the objects of the builders.\<close>

fun go_type :: "kind \<Rightarrow> string" where
  "go_type ServiceKind = ''*v1.Service''"
| "go_type SecretKind = ''*v1.Secret''"
| "go_type ConfigMapKind = ''*v1.ConfigMap''"
| "go_type ServiceAccountKind = ''*v1.ServiceAccount''"
| "go_type RoleKind = ''*v1.Role''"
| "go_type RoleBindingKind = ''*v1.RoleBinding''"
| "go_type StatefulSetKind = ''*v1.StatefulSet''"
| "go_type EndpointsKind = ''*v1.Endpoints''"
| "go_type PodKind = ''*v1.Pod''"
| "go_type PVCKind = ''*v1.PersistentVolumeClaim''"
| "go_type ClusterKind = ''*v1beta1.RabbitmqCluster''"

fun operation_name :: "OperationResult \<Rightarrow> string" where
  "operation_name OperationResultNone = ''''"
| "operation_name OperationResultCreated = ''create''"
| "operation_name OperationResultUpdated = ''update''"

fun operation_title :: "OperationResult \<Rightarrow> string" where
  "operation_title OperationResultNone = ''''"
| "operation_title OperationResultCreated = ''Create''"
| "operation_title OperationResultUpdated = ''Update''"

definition logAndRecordOperationResult :: "api_object \<Rightarrow> OperationResult \<Rightarrow> go_error option \<Rightarrow> ('w, unit) act" where
  "logAndRecordOperationResult resource operationResult err =
     (if operationResult = OperationResultNone \<and> err = None then act_ret ()
      else
        let what = '' resource '' @ om_name (object_meta resource) @ '' of Type '' @ go_type (kind_of resource);
            operation = operation_name operationResult
        in case err of
             None \<Rightarrow> record_event ''Normal'' (''Successful'' @ operation_title operationResult) (operation @ ''d'' @ what)
           | Some e \<Rightarrow> record_event ''Warning'' (''Failed'' @ operation_title operationResult) (''failed to '' @ operation @ what))"

definition err_of :: "('w, unit) act \<Rightarrow> ('w, go_error option) act" where
  "err_of m = act_catch (act_then m (act_ret None)) (\<lambda>e. act_ret (Some e))"

definition apply_resource :: "'w env \<Rightarrow> builder \<Rightarrow> ('w, unit) act" where
  "apply_resource E b = with_cluster (\<lambda>rmq.
     act_bind (err_of (retry_on_conflict E (create_or_update E (builder_Update (lib_of E) b rmq)))) (\<lambda>err.
     act_bind get_operation (\<lambda>operationResult.
     act_bind get_resource (\<lambda>resource.
     act_then (logAndRecordOperationResult resource operationResult err)
     (case err of
        Some e \<Rightarrow> act_then (setReconcileSuccess E ConditionFalse ''Error'' (error_string e)) (act_err e)
      | None \<Rightarrow> annotateIfNeeded E b operationResult)))))"

text \<open>
  What precedes the stateful set: an existing one is compared with the wanted one, and the
  claims are expanded. The second component tells that a scale down was refused.
\<close>

definition prepare_statefulset :: "'w env \<Rightarrow> builder \<Rightarrow> api_object \<Rightarrow> ('w, api_object \<times> bool) act" where
  "prepare_statefulset E b resource = with_cluster (\<lambda>rmq.
     act_bind (act_lift (as_statefulset resource)) (\<lambda>_.
     act_bind (unless_missing (get_statefulset E rmq)) (\<lambda>current.
     act_bind (case current of
         None \<Rightarrow> act_ret (resource, False)
       | Some cur \<Rightarrow>
           act_bind (act_lift (builder_Update (lib_of E) b rmq resource)) (\<lambda>resource'.
           act_bind (act_lift (as_statefulset resource')) (\<lambda>sts.
           act_bind (scaleDown E cur sts) (\<lambda>down. act_ret (resource', down))))) (\<lambda>(resource', down).
     if down then act_ret (resource', True)
     else
     act_bind (act_lift (as_statefulset resource')) (\<lambda>sts.
     act_then (act_catch (reconcilePVC E sts) (\<lambda>e.
         act_then (setReconcileSuccess E ConditionFalse ''FailedReconcilePVC'' (error_string e)) (act_err e)))
     (act_ret (resource', False)))))))"

text \<open>One turn of the loop over the builders; true if the reconciliation ends here.\<close>

definition reconcile_builder :: "'w env \<Rightarrow> builder \<Rightarrow> ('w, bool) act" where
  "reconcile_builder E b =
     act_bind (fresh_random E) (\<lambda>rnd. with_cluster (\<lambda>rmq.
     act_bind (act_lift (builder_Build (lib_of E) rnd b rmq)) (\<lambda>resource.
     act_bind (if UpdateMayRequireStsRecreate b then prepare_statefulset E b resource else act_ret (resource, False))
       (\<lambda>(resource', stop).
     if stop then act_ret True
     else act_then (put_resource resource') (act_then (apply_resource E b) (act_ret False))))))"

fun reconcile_builders :: "'w env \<Rightarrow> builder list \<Rightarrow> ('w, bool) act" where
  "reconcile_builders E [] = act_ret False"
| "reconcile_builders E (b # bs) =
     act_bind (reconcile_builder E b) (\<lambda>stop. if stop then act_ret True else reconcile_builders E bs)"

section \<open>One reconciliation\<close>

definition report_paused :: "'w env \<Rightarrow> ('w, int) act" where
  "report_paused E =
     act_then (record_event ''Warning'' ''PausedReconciliation'' (''label '' @ [CHR 0x27] @ pauseReconciliationLabel @ [CHR 0x27] @ '' is set to true''))
     (act_then (set_status_condition E NoWarnings ConditionFalse ''reconciliation paused'' [])
     (act_then (act_ignore (update_status E)) (act_ret 0)))"

definition mark_rebalance_if_needed :: "'w env \<Rightarrow> ('w, unit) act" where
  "mark_rebalance_if_needed E = with_cluster (\<lambda>rmq.
     act_bind (unless_missing (get_statefulset E rmq)) (\<lambda>sts.
     case sts of
       None \<Rightarrow> act_ret ()
     | Some s \<Rightarrow> act_bind (act_lift (statefulSetNeedsQueueRebalance s rmq)) (\<lambda>needed.
         if needed then markForQueueRebalance E else act_ret ())))"

definition finish_reconciliation :: "'w env \<Rightarrow> ('w, int) act" where
  "finish_reconciliation E =
     act_then (with_cluster (\<lambda>rmq. put_cluster (rmq\<lparr>cl_status := (cl_status rmq)
         \<lparr>st_observedGeneration := om_generation (cl_meta rmq)\<rparr>\<rparr>)))
     (act_then (setReconcileSuccess E ConditionTrue ''Success'' ''Finish reconciling'') (act_ret 0))"

definition run_cli_commands :: "'w env \<Rightarrow> ('w, int) act" where
  "run_cli_commands E =
     act_catch (runRabbitmqCLICommandsIfAnnotated E) (\<lambda>e.
       act_then (setReconcileSuccess E ConditionFalse ''FailedCLICommand'' (error_string e)) (act_err e))"

definition reconcile_resources :: "'w env \<Rightarrow> ('w, bool) act" where
  "reconcile_resources E = with_cluster (\<lambda>rmq. reconcile_builders E (ResourceBuilders rmq))"

definition reconcile_active :: "'w env \<Rightarrow> ('w, int) act" where
  "reconcile_active E =
     unless_requeued (reconcileOperatorDefaults E)
     (act_then (addFinalizerIfNeeded E)
     (unless_requeued (updateStatusConditions E)
     (act_bind (reconcileTLS E) (\<lambda>misconfigured.
     if misconfigured then act_ret 0
     else
     act_then (mark_rebalance_if_needed E)
     (act_bind (reconcile_resources E) (\<lambda>stop.
     if stop then act_ret 0
     else
     unless_requeued (restartStatefulSetIfNeeded E)
     (act_then (reconcileStatus E)
     (unless_requeued (run_cli_commands E) (finish_reconciliation E)))))))))"

definition reconcile_cluster :: "'w env \<Rightarrow> ('w, int) act" where
  "reconcile_cluster E = with_cluster (\<lambda>rmq.
     if being_deleted (cl_meta rmq) then act_then (prepareForDeletion E) (act_ret 0)
     else if entries (om_labels (cl_meta rmq)) pauseReconciliationLabel = Some ''true'' then report_paused E
     else reconcile_active E)"

definition getRabbitmqCluster :: "'w env \<Rightarrow> string \<Rightarrow> string \<Rightarrow> ('w, RabbitmqCluster) act" where
  "getRabbitmqCluster E ns n =
     act_bind (get_object E Cached ClusterKind ns n) (\<lambda>x. act_lift (as_cluster x))"

definition Reconcile :: "'w env \<Rightarrow> string \<Rightarrow> string \<Rightarrow> ('w, int) act" where
  "Reconcile E ns n =
     act_bind (unless_missing (getRabbitmqCluster E ns n)) (\<lambda>r.
     case r of
       None \<Rightarrow> act_ret 0
     | Some rmq \<Rightarrow> act_then (put_cluster rmq) (reconcile_cluster E))"

end
