(* ===== verification/Op_Confined.thy ===== *)
theory Op_Confined
  imports Op_Reconcile
begin

text \<open>
  What a reconciliation may touch. Whatever the API server answers, every request of the
  reconciliation of a cluster concerns that cluster, the children that it owns by name, its
  claims and its pods.
\<close>

section \<open>The requests of a cluster\<close>

text \<open>\<open>c0\<close> stands for the custom resource: only its name, namespace and uid matter.\<close>

definition names_child :: "RabbitmqCluster \<Rightarrow> api_object \<Rightarrow> string \<Rightarrow> bool" where
  "names_child c0 x sfx =
     (om_namespace (object_meta x) = cluster_namespace c0 \<and> om_name (object_meta x) = ChildResourceName c0 sfx)"

fun confined_update :: "RabbitmqCluster \<Rightarrow> client \<Rightarrow> api_object \<Rightarrow> bool" where
  "confined_update c0 cl (ClusterObject c) = (cl = Cached \<and> cluster_id c = cluster_id c0)"
| "confined_update c0 cl (StatefulSetObject s) = (cl = Cached \<and> names_child c0 (StatefulSetObject s) ''server'')"
| "confined_update c0 cl (ConfigMapObject m) =
     (cl = Cached \<and> (names_child c0 (ConfigMapObject m) PluginsConfigName
        \<or> names_child c0 (ConfigMapObject m) ServerConfigMapName))"
| "confined_update c0 cl (PVCObject p) =
     (cl = Direct \<and> om_namespace (pvc_meta p) = cluster_namespace c0
        \<and> (\<exists>i. 0 \<le> i \<and> om_name (pvc_meta p) = PVCName c0 i))"
| "confined_update c0 cl x = False"

fun confined :: "RabbitmqCluster \<Rightarrow> request \<Rightarrow> bool" where
  "confined c0 (GetObject cl k ns n) = (ns = cluster_namespace c0)"
| "confined c0 (UpdateObject cl x) = confined_update c0 cl x"
| "confined c0 (UpdateStatus c) = (cluster_id c = cluster_id c0)"
| "confined c0 (ListPods sel) = False"
| "confined c0 (DeleteObject cl k ns n uid propagation) =
     (cl = Direct \<and> k = StatefulSetKind \<and> ns = cluster_namespace c0 \<and> n = ChildResourceName c0 ''server''
      \<and> propagation = Some ''Orphan'')"
| "confined c0 (CreateOrUpdateObject x) =
     (\<exists>b. kind_of x = builder_kind b \<and> names_child c0 x (builder_suffix b))"
| "confined c0 (ExecInPod ns pod ctr cmd) =
     (ns = cluster_namespace c0 \<and> ctr = ''rabbitmq'' \<and> (\<exists>i. 0 \<le> i \<and> pod = server_pod c0 i))"
| "confined c0 (RecordEvent t reason msg) = True"
| "confined c0 (Sleep d) = True"

abbreviation confined_act :: "RabbitmqCluster \<Rightarrow> ('w, 'a) act \<Rightarrow> bool" where
  "confined_act c0 m \<equiv> safe (reconciles (cluster_id c0)) (\<lambda>e. confined c0 (fst e)) m"

lemma same_cluster:
  assumes "cluster_id c = cluster_id c0"
  shows "cluster_name c = cluster_name c0" "cluster_namespace c = cluster_namespace c0"
    "om_uid (cl_meta c) = om_uid (cl_meta c0)"
    "ChildResourceName c sfx = ChildResourceName c0 sfx" "PVCName c i = PVCName c0 i" "server_pod c i = server_pod c0 i"
  using assms by (simp_all add: cluster_id_def ChildResourceName_def PVCName_def server_pod_def)

lemmas identity_defs = cluster_id_def ChildResourceName_def PVCName_def server_pod_def names_child_def

section \<open>The shared steps\<close>

named_theorems confined_rules \<open>the steps of a reconciliation make confined requests only\<close>

lemma confined_update_status [confined_rules]: "env_ok E \<Longrightarrow> confined_act c0 (update_status E)"
  by (rule safe_update_status [OF env_okD(3)]) simp_all

lemma confined_update_cluster [confined_rules]: "env_ok E \<Longrightarrow> confined_act c0 (update_cluster E)"
  by (rule safe_update_cluster [OF env_okD(3)]) simp_all

lemma confined_get_statefulset [confined_rules]:
  "cluster_id c = cluster_id c0 \<Longrightarrow> confined_act c0 (get_statefulset E c)"
  unfolding get_statefulset_def by (intro safe_intros) (simp add: identity_defs)

lemma confined_configMap [confined_rules]: "confined_act c0 (configMap E name)"
  unfolding configMap_def by (intro safe_intros) (simp add: identity_defs)

lemma confined_get_secret [confined_rules]: "ns = cluster_namespace c0 \<Longrightarrow> confined_act c0 (get_secret E ns name)"
  unfolding get_secret_def by (intro safe_intros) simp

lemma confined_set_status_condition [confined_rules]: "confined_act c0 (set_status_condition E t st reason msgs)"
  unfolding set_status_condition_def by (intro safe_intros) simp

lemma confined_setReconcileSuccess [confined_rules]:
  "env_ok E \<Longrightarrow> confined_act c0 (setReconcileSuccess E st reason msg)"
  unfolding setReconcileSuccess_def by (intro safe_intros confined_rules)

lemma confined_updateRabbitmqCluster [confined_rules]: "env_ok E \<Longrightarrow> confined_act c0 (updateRabbitmqCluster E)"
  unfolding updateRabbitmqCluster_def by (intro safe_intros confined_rules)

lemma confined_reconcileOperatorDefaults [confined_rules]:
  "env_ok E \<Longrightarrow> confined_act c0 (reconcileOperatorDefaults E)"
  unfolding reconcileOperatorDefaults_def default_image_step_def default_pull_secrets_step_def default_updater_step_def
  by (intro safe_intros confined_rules) simp_all

lemma confined_getChildResources [confined_rules]:
  "cluster_id c = cluster_id c0 \<Longrightarrow> confined_act c0 (getChildResources E c)"
  unfolding getChildResources_def get_endpoints_def
  by (intro safe_intros confined_rules) (simp_all add: identity_defs)

lemma confined_updateStatusConditions [confined_rules]: "env_ok E \<Longrightarrow> confined_act c0 (updateStatusConditions E)"
  unfolding updateStatusConditions_def by (intro safe_intros confined_rules) simp_all

lemma confined_reconcileStatus [confined_rules]: "env_ok E \<Longrightarrow> confined_act c0 (reconcileStatus E)"
  unfolding reconcileStatus_def by (intro safe_intros confined_rules) simp_all

lemma confined_tls_event [confined_rules]: "confined_act c0 (tls_event msg)"
  unfolding tls_event_def by (intro safe_intros) simp

lemma confined_checkTLSSecrets [confined_rules]:
  "cluster_id c = cluster_id c0 \<Longrightarrow> confined_act c0 (checkTLSSecrets E c)"
  unfolding checkTLSSecrets_def get_tls_secret_def bad_secret_def Let_def
  by (intro safe_intros confined_rules) (simp_all add: identity_defs)

lemma confined_reconcileTLS [confined_rules]: "env_ok E \<Longrightarrow> confined_act c0 (reconcileTLS E)"
  unfolding reconcileTLS_def by (intro safe_intros confined_rules)

lemma confined_addFinalizerIfNeeded [confined_rules]: "env_ok E \<Longrightarrow> confined_act c0 (addFinalizerIfNeeded E)"
  unfolding addFinalizerIfNeeded_def by (intro safe_intros confined_rules) simp


section \<open>Annotations, restarts and commands\<close>

lemma with_object_meta_simps [simp]:
  "kind_of (with_object_meta m x) = kind_of x" "object_meta (with_object_meta m x) = m"
  by (cases x; simp)+

lemma annotation_meta_simps [simp]:
  "om_name (with_annotation k v m) = om_name m" "om_namespace (with_annotation k v m) = om_namespace m"
  "om_uid (with_annotation k v m) = om_uid m"
  "om_name (without_annotation k m) = om_name m" "om_namespace (without_annotation k m) = om_namespace m"
  "om_uid (without_annotation k m) = om_uid m"
  by (simp_all add: with_annotation_def without_annotation_def)

lemma confined_update_kind:
  "kind_of x = StatefulSetKind \<and> names_child c0 x ''server''
     \<or> kind_of x = ConfigMapKind \<and> (names_child c0 x PluginsConfigName \<or> names_child c0 x ServerConfigMapName) \<Longrightarrow>
     confined_update c0 Cached x"
  by (cases x; simp)

abbreviation yields_act :: "RabbitmqCluster \<Rightarrow> ('a \<Rightarrow> bool) \<Rightarrow> ('w, 'a) act \<Rightarrow> bool" where
  "yields_act c0 V m \<equiv> yields (reconciles (cluster_id c0)) (\<lambda>e. confined c0 (fst e)) V m"

lemma yields_get:
  assumes "env_ok E" and "ns = cluster_namespace c0"
  shows "yields_act c0 (\<lambda>x. kind_of x = k \<and> om_namespace (object_meta x) = ns \<and> om_name (object_meta x) = n)
    (get_object E cl k ns n)"
  by (rule yields_get_object [OF env_okD(3) [OF assms(1)]]) (simp add: assms(2))

lemma yields_get_statefulset:
  assumes "env_ok E" and "cluster_id c = cluster_id c0"
  shows "yields_act c0 (\<lambda>s. names_child c0 (StatefulSetObject s) ''server'') (get_statefulset E c)"
  unfolding get_statefulset_def
  by (rule yields_bind [OF yields_get [OF assms(1)]], use assms(2) in \<open>simp add: identity_defs\<close>, rule yields_lift)
    (use assms(2) in \<open>auto simp: as_statefulset_def identity_defs conversion_panic_def split: api_object.splits\<close>)

lemma yields_configMap:
  assumes "env_ok E"
  shows "yields_act c0 (\<lambda>m. om_namespace (cm_meta m) = cluster_namespace c0 \<and> om_name (cm_meta m) = name) (configMap E name)"
proof -
  have "yields_act c0 (\<lambda>m. om_namespace (cm_meta m) = cluster_namespace c0 \<and> om_name (cm_meta m) = name)
      (act_bind (get_object E Cached ConfigMapKind (cluster_namespace c0) name) (\<lambda>x. act_lift (as_configmap x)))"
    by (rule yields_bind [OF yields_get [OF assms refl]], rule yields_lift)
      (auto simp: as_configmap_def conversion_panic_def split: api_object.splits)
  then show ?thesis
    unfolding configMap_def by (rule yields_with_cluster) (simp add: identity_defs)
qed

lemma confined_updateAnnotation [confined_rules]:
  assumes "env_ok E" and "ns = cluster_namespace c0"
    and "k = StatefulSetKind \<and> n = ChildResourceName c0 ''server''
      \<or> k = ConfigMapKind \<and> (n = ChildResourceName c0 PluginsConfigName \<or> n = ChildResourceName c0 ServerConfigMapName)"
  shows "confined_act c0 (updateAnnotation E k ns n key value)"
  unfolding updateAnnotation_def
proof (rule safe_retry [OF env_okD(2) [OF assms(1)]], rule safe_bind_yields [OF yields_get [OF assms(1,2)]])
  fix x assume x: "kind_of x = k \<and> om_namespace (object_meta x) = ns \<and> om_name (object_meta x) = n"
  let ?y = "with_object_meta (with_annotation key value (object_meta x)) x"
  have "confined_update c0 Cached ?y"
    by (rule confined_update_kind) (use x assms(2,3) in \<open>auto simp: names_child_def\<close>)
  then show "confined_act c0 (act_then (update_object E Cached ?y) (act_ret ()))"
    by (intro safe_intros) simp
qed

lemma confined_deleteAnnotation [confined_rules]:
  assumes "kind_of x = StatefulSetKind \<and> names_child c0 x ''server'' \<or> kind_of x = ConfigMapKind \<and> names_child c0 x PluginsConfigName"
  shows "confined_act c0 (deleteAnnotation E x key)"
proof -
  have "confined_update c0 Cached (with_object_meta (without_annotation key (object_meta x)) x)"
    by (rule confined_update_kind) (use assms in \<open>auto simp: names_child_def\<close>)
  then show ?thesis unfolding deleteAnnotation_def by (intro safe_intros) simp
qed

lemma confined_deleteClusterAnnotation [confined_rules]: "env_ok E \<Longrightarrow> confined_act c0 (deleteClusterAnnotation E key)"
  unfolding deleteClusterAnnotation_def by (intro safe_intros confined_rules) simp_all

lemma confined_annotateIfNeeded [confined_rules]: "env_ok E \<Longrightarrow> confined_act c0 (annotateIfNeeded E b op)"
  unfolding annotateIfNeeded_def
  by (intro safe_intros confined_rules)
    (auto simp: annotation_target_def identity_defs split: builder.splits if_splits)

lemma confined_restart_attempt [confined_rules]:
  assumes "env_ok E" and "cluster_id c = cluster_id c0"
  shows "confined_act c0 (restart_attempt E c)"
  unfolding restart_attempt_def
  by (rule safe_bind_yields [OF yields_get_statefulset [OF assms]], intro safe_intros)
    (simp add: with_template_annotation_def Let_def names_child_def)

lemma confined_or_requeue:
  assumes "yields_act c0 V m" and "\<And>x. V x \<Longrightarrow> confined_act c0 (f x)"
  shows "confined_act c0 (or_requeue m f)"
  unfolding or_requeue_def
  by (rule safe_bind_yields [OF yields_unless_missing [OF assms(1)]]) (auto intro!: safe_intros assms(2))

lemma confined_restartStatefulSetIfNeeded [confined_rules]:
  assumes "env_ok E"
  shows "confined_act c0 (restartStatefulSetIfNeeded E)"
  unfolding restartStatefulSetIfNeeded_def
proof (rule safe_with_cluster, rule confined_or_requeue [OF yields_configMap [OF assms]])
  fix c :: RabbitmqCluster and conf
  assume c: "cluster_id c = cluster_id c0"
  show "confined_act c0 (case entries (om_annotations (cm_meta conf)) serverConfAnnotation of
      None \<Rightarrow> act_ret 0
    | Some serverConfigUpdatedAt \<Rightarrow>
        or_requeue (get_statefulset E c) (\<lambda>sts.
        if \<not> restart_needed serverConfigUpdatedAt sts then act_ret 0
        else act_then (act_catch (retry_on_conflict E (restart_attempt E c)) (\<lambda>e.
               act_then (record_event ''Warning'' ''FailedUpdate''
                   (''failed to restart StatefulSet '' @ ChildResourceName c ''server''
                     @ ''; rabbitmq.conf configuration may be outdated'')) (act_err e)))
             (act_then (record_event ''Normal'' ''SuccessfulUpdate''
                 (''restarted StatefulSet '' @ ChildResourceName c ''server'')) (act_ret 0))))"
    by (intro safe_intros confined_or_requeue [OF yields_get_statefulset [OF assms c]]
        safe_retry_on_conflict [OF env_okD(2) [OF assms]] confined_restart_attempt [OF assms c]) simp_all
qed

lemma confined_exec_or_fail [confined_rules]:
  "cluster_id c = cluster_id c0 \<Longrightarrow> 0 \<le> i \<Longrightarrow> confined_act c0 (exec_or_fail E c (server_pod c i) cmd msg)"
  unfolding exec_or_fail_def exec_def by (intro safe_intros) (auto simp: identity_defs)

lemma confined_runEnableFeatureFlagsCommand [confined_rules]:
  assumes "names_child c0 (StatefulSetObject sts) ''server''"
  shows "confined_act c0 (runEnableFeatureFlagsCommand E sts)"
  unfolding runEnableFeatureFlagsCommand_def by (intro safe_intros confined_rules) (use assms in simp_all)

lemma confined_runSetPluginsCommand [confined_rules]:
  assumes "names_child c0 (ConfigMapObject cfg) PluginsConfigName"
  shows "confined_act c0 (runSetPluginsCommand E cfg)"
  unfolding runSetPluginsCommand_def by (intro safe_intros confined_rules) (use assms in simp_all)

lemma confined_runQueueRebalanceCommand [confined_rules]: "env_ok E \<Longrightarrow> confined_act c0 (runQueueRebalanceCommand E)"
  unfolding runQueueRebalanceCommand_def by (intro safe_intros confined_rules) simp_all

lemma confined_runRabbitmqCLICommandsIfAnnotated [confined_rules]:
  assumes "env_ok E"
  shows "confined_act c0 (runRabbitmqCLICommandsIfAnnotated E)"
  unfolding runRabbitmqCLICommandsIfAnnotated_def
proof (rule safe_with_cluster, rule safe_bind_yields [OF yields_get_statefulset [OF assms]], assumption)
  fix c :: RabbitmqCluster and sts
  assume c: "cluster_id c = cluster_id c0" and sts: "names_child c0 (StatefulSetObject sts) ''server''"
  show "confined_act c0 (act_bind (act_lift (allReplicasReadyAndUpdated sts)) (\<lambda>ready.
     if \<not> ready then act_ret (15 * second)
     else
     act_bind (unless_missing (configMap E (ChildResourceName c PluginsConfigName))) (\<lambda>pluginsConfig.
     case pluginsConfig of
       None \<Rightarrow> act_lift nil_replicas
     | Some cfg \<Rightarrow>
     act_bind (now E) (\<lambda>t.
     act_bind (act_lift (pluginsConfigUpdatedRecently t cfg)) (\<lambda>updatedRecently.
     if updatedRecently then act_ret (2 * second)
     else
     act_then (if annotated_with pluginsUpdateAnnotation (cm_meta cfg) then runSetPluginsCommand E cfg else act_ret ())
     (act_then (if annotated_with stsCreateAnnotation (sts_meta sts) then runEnableFeatureFlagsCommand E sts else act_ret ())
     (act_then (with_cluster (\<lambda>rmq'. if annotated_with queueRebalanceAnnotation (cl_meta rmq')
                  then runQueueRebalanceCommand E else act_ret ()))
     (act_ret 0))))))))"
    by (intro safe_intros safe_bind_yields [OF yields_unless_missing [OF yields_configMap [OF assms]]] confined_rules assms sts)
      (use c in \<open>auto simp: identity_defs\<close>)
qed

lemma confined_markForQueueRebalance [confined_rules]: "env_ok E \<Longrightarrow> confined_act c0 (markForQueueRebalance E)"
  unfolding markForQueueRebalance_def by (intro safe_intros confined_rules) simp_all

section \<open>Scaling\<close>

lemma confined_scaleDown [confined_rules]: "env_ok E \<Longrightarrow> confined_act c0 (scaleDown E cur sts)"
  unfolding scaleDown_def Let_def by (intro safe_intros confined_rules) simp_all

definition own_claim :: "RabbitmqCluster \<Rightarrow> PersistentVolumeClaim \<Rightarrow> bool" where
  "own_claim c0 p = (om_namespace (pvc_meta p) = cluster_namespace c0 \<and> (\<exists>i. 0 \<le> i \<and> om_name (pvc_meta p) = PVCName c0 i))"

lemma confined_getSts [confined_rules]: "cluster_id c = cluster_id c0 \<Longrightarrow> confined_act c0 (getSts E c)"
  unfolding getSts_def by (intro safe_intros) (simp add: identity_defs)

lemma yields_getSts:
  assumes "env_ok E" and "cluster_id c = cluster_id c0"
  shows "yields_act c0 (\<lambda>s. names_child c0 (StatefulSetObject s) ''server'') (getSts E c)"
  unfolding getSts_def
  by (rule yields_bind [OF yields_get [OF assms(1)]], use assms(2) in \<open>simp add: identity_defs\<close>, rule yields_lift)
    (use assms(2) in \<open>auto simp: as_statefulset_def identity_defs conversion_panic_def split: api_object.splits\<close>)

lemma yields_get_pvc:
  assumes "env_ok E" and "ns = cluster_namespace c0"
  shows "yields_act c0 (\<lambda>p. om_namespace (pvc_meta p) = ns \<and> om_name (pvc_meta p) = n) (get_pvc E ns n)"
  unfolding get_pvc_def
  by (rule yields_bind [OF yields_get [OF assms]], rule yields_lift)
    (auto simp: as_pvc_def conversion_panic_def split: api_object.splits)

lemma yields_get_pvcs:
  assumes "env_ok E" and "cluster_id c = cluster_id c0" and "\<forall>i \<in> set is. 0 \<le> i"
  shows "yields_act c0 (list_all (own_claim c0)) (get_pvcs E c is)"
  using assms(3)
proof (induction "is")
  case (Cons i "is")
  have ns: "cluster_namespace c = cluster_namespace c0" using assms(2) by (simp add: cluster_id_def)
  have i: "0 \<le> i" using Cons.prems by simp
  have own: "own_claim c0 p" if "om_namespace (pvc_meta p) = cluster_namespace c" "om_name (pvc_meta p) = PVCName c i" for p
    using that ns i same_cluster(5) [OF assms(2)] by (auto simp: own_claim_def)
  show ?case
    unfolding get_pvcs.simps
  proof (rule yields_bind [OF yields_wrap [OF yields_unless_missing [OF yields_get_pvc [OF assms(1) ns]]]],
      rule yields_bind [OF Cons.IH])
    fix p :: "PersistentVolumeClaim option" and ps
    assume "\<forall>x. p = Some x \<longrightarrow> om_namespace (pvc_meta x) = cluster_namespace c \<and> om_name (pvc_meta x) = PVCName c i"
      and "list_all (own_claim c0) ps"
    then show "yields_act c0 (list_all (own_claim c0)) (act_ret (case p of None \<Rightarrow> ps | Some pvc \<Rightarrow> pvc # ps))"
      by (intro yields_ret) (auto simp: own split: option.splits)
  qed (use Cons.prems in simp)
qed (simp add: yields_ret)

lemma confined_deleteSts [confined_rules]:
  assumes "env_ok E" and c: "cluster_id c = cluster_id c0"
  shows "confined_act c0 (deleteSts E c)"
  unfolding deleteSts_def
proof (rule safe_bind_yields [OF yields_wrap [OF yields_unless_missing [OF yields_getSts [OF assms]]]], rule safe_option)
  fix r and sts :: StatefulSet
  assume "\<forall>x. r = Some x \<longrightarrow> names_child c0 (StatefulSetObject x) ''server''" and "r = Some sts"
  then have sts: "names_child c0 (StatefulSetObject sts) ''server''" by simp
  have loop: "confined_act c0 (retry_loop E n d (sts_is_gone E c))" for n d
    by (induction n) (auto simp: sts_is_gone_def intro!: safe_intros confined_getSts [OF c])
  show "confined_act c0 (act_then (act_wrap (''failed to delete statefulSet '' @ om_name (sts_meta sts))
           (delete_object E Direct StatefulSetKind (om_namespace (sts_meta sts)) (om_name (sts_meta sts))
              None (Some ''Orphan'')))
         (act_wrap (''statefulSet not deleting after 30 seconds '' @ om_name (sts_meta sts))
           (retryWithInterval E ''delete statefulSet'' 10 (3 * second) (sts_is_gone E c))))"
    unfolding retryWithInterval_def
    by (intro safe_intros loop) (use sts in \<open>simp add: names_child_def\<close>)
qed (rule safe_ret)

lemma confined_scale_up_pvc:
  assumes "env_ok E" and "own_claim c0 p"
  shows "confined_act c0 (scale_up_pvc E q p)"
  unfolding scale_up_pvc_def
proof (rule safe_bind_yields [OF yields_wrap [OF yields_get_pvc [OF assms(1)]]])
  show "om_namespace (pvc_meta p) = cluster_namespace c0" using assms(2) by (simp add: own_claim_def)
next
  fix pvc :: PersistentVolumeClaim
  assume "om_namespace (pvc_meta pvc) = om_namespace (pvc_meta p) \<and> om_name (pvc_meta pvc) = om_name (pvc_meta p)"
  with assms(2) have own: "own_claim c0 pvc" by (simp add: own_claim_def)
  have "yields_act c0 (own_claim c0) (act_lift (with_capacity q pvc))"
    by (rule yields_lift) (use own in \<open>auto simp: with_capacity_def bind_ok_eq_Ok own_claim_def\<close>)
  then show "confined_act c0 (act_bind (act_lift (with_capacity q pvc)) (\<lambda>pvc'.
      act_then (act_wrap (''failed to update PersistentVolumeClaim '' @ om_name (pvc_meta pvc'))
        (update_object E Direct (PVCObject pvc'))) (act_ret ())))"
  proof (rule safe_bind_yields)
    show "confined_act c0 (act_then (act_wrap (''failed to update PersistentVolumeClaim '' @ om_name (pvc_meta pvc'))
        (update_object E Direct (PVCObject pvc'))) (act_ret ()))" if "own_claim c0 pvc'" for pvc'
      by (intro safe_intros) (use that in \<open>simp add: own_claim_def\<close>)
  qed
qed

lemma confined_Scale [confined_rules]:
  assumes "env_ok E" and c: "cluster_id c = cluster_id c0"
  shows "confined_act c0 (Scale E c q)"
proof -
  have claims: "yields_act c0 (list_all (own_claim c0)) (getClusterPVCs E c)"
    unfolding getClusterPVCs_def by (rule yields_get_pvcs [OF assms]) auto
  show ?thesis
    unfolding Scale_def existingCapacity_def scaleUpPVCs_def Let_def
    by (intro safe_intros safe_bind_yields [OF claims] confined_getSts [OF c] confined_deleteSts [OF assms]
        confined_scale_up_pvc [OF assms(1)])
      (auto simp: pvcsNeedingScaling_def list_all_iff)
qed

lemma confined_reconcilePVC [confined_rules]: "env_ok E \<Longrightarrow> confined_act c0 (reconcilePVC E sts)"
  unfolding reconcilePVC_def by (intro safe_intros confined_rules) simp_all

section \<open>The builders\<close>

lemmas updates_keep_identity = headless.upd_identity service.upd_identity cookie.upd_identity
  default_user.upd_identity plugins.upd_identity config.upd_identity service_account.upd_identity
  role.upd_identity role_binding.upd_identity statefulset.upd_identity

lemma builder_Update_identity:
  assumes "lib_ok L" and "builder_Update L b c z = Ok z'"
  shows "same_identity z z'"
  using assms(2) updates_keep_identity [OF assms(1)]
  by (cases b) (auto simp: wrap_ok_Ok bind_ok_eq_Ok as_kind_Ok same_identity_def)

definition builder_object :: "RabbitmqCluster \<Rightarrow> builder \<Rightarrow> api_object \<Rightarrow> bool" where
  "builder_object c0 b x = (kind_of x = builder_kind b \<and> names_child c0 x (builder_suffix b))"

lemma builder_object_same: "builder_object c0 b x \<Longrightarrow> same_identity x y \<Longrightarrow> builder_object c0 b y"
  by (simp add: builder_object_def same_identity_def names_child_def)

lemma confined_annotate_result [confined_rules]: "confined_act c0 (logAndRecordOperationResult x op err)"
  unfolding logAndRecordOperationResult_def Let_def by (intro safe_intros) simp_all

lemma confined_create_or_update:
  assumes E: "env_ok E" and x: "builder_object c0 b x"
  shows "triple (\<lambda>v. reconciles (cluster_id c0) v \<and> same_identity x (v_resource v))
    (err_of (retry_on_conflict E (create_or_update E (builder_Update (lib_of E) b c))))
    (\<lambda>r es v. reconciles (cluster_id c0) v \<and> (\<forall>e \<in> set es. confined c0 (fst e)))"
proof -
  let ?P = "\<lambda>v. reconciles (cluster_id c0) v \<and> same_identity x (v_resource v)"
  let ?R = "\<lambda>r es v. ?P v \<and> (\<exists>y a. es = [(CreateOrUpdateObject y, a)] \<and> same_identity x y)"
  let ?Q = "\<lambda>r es v. reconciles (cluster_id c0) v \<and> (\<forall>e \<in> set es. confined c0 (fst e))"
  have "triple ?P (create_or_update E (builder_Update (lib_of E) b c)) ?R"
    by (rule triple_post [OF triple_create_or_update [OF env_okD(3) [OF E]
          builder_Update_identity [OF env_okD(1) [OF E]]]]) auto
  moreover have "confined c0 (CreateOrUpdateObject y)" if "same_identity x y" for y
    using builder_object_same [OF x that] by (auto simp: builder_object_def)
  ultimately have "triple ?P (retry_on_conflict E (create_or_update E (builder_Update (lib_of E) b c))) ?Q"
    unfolding retry_on_conflict_def
    by (intro triple_retry [OF env_okD(2) [OF E], where R = ?R]) auto
  then have "triple ?P (act_then (retry_on_conflict E (create_or_update E (builder_Update (lib_of E) b c))) (act_ret None)) ?Q"
    by (rule triple_then_safe) (rule safe_ret)
  then show ?thesis
    unfolding err_of_def
    by (rule triple_catch) (auto intro: triple_ret)
qed

lemma confined_apply_resource:
  assumes E: "env_ok E" and x: "builder_object c0 b x"
  shows "triple (\<lambda>v. reconciles (cluster_id c0) v \<and> same_identity x (v_resource v)) (apply_resource E b)
    (\<lambda>r es v. reconciles (cluster_id c0) v \<and> (\<forall>e \<in> set es. confined c0 (fst e)))"
  unfolding apply_resource_def
proof (rule triple_with_cluster, rule triple_pre [OF triple_then_safe [OF confined_create_or_update [OF assms]]])
  show "confined_act c0 (act_bind get_operation (\<lambda>operationResult. act_bind get_resource (\<lambda>resource.
     act_then (logAndRecordOperationResult resource operationResult err)
     (case err of
        Some e \<Rightarrow> act_then (setReconcileSuccess E ConditionFalse ''Error'' (error_string e)) (act_err e)
      | None \<Rightarrow> annotateIfNeeded E b operationResult))))" for err
    by (intro safe_intros confined_rules E)
qed simp

lemma confined_put_and_apply [confined_rules]:
  assumes E: "env_ok E" and x: "builder_object c0 b x"
  shows "confined_act c0 (act_then (put_resource x) (act_then (apply_resource E b) (act_ret False)))"
proof -
  let ?P = "\<lambda>v. reconciles (cluster_id c0) v \<and> same_identity x (v_resource v)"
  have put: "triple (reconciles (cluster_id c0)) (put_resource x) (\<lambda>r es v. ?P v \<and> es = [])"
    by (rule triple_put_resource) (simp add: reconciles_def)
  have apply': "triple ?P (act_then (apply_resource E b) (act_ret False))
      (\<lambda>r es v. reconciles (cluster_id c0) v \<and> (\<forall>e \<in> set es. confined c0 (fst e)))"
    by (rule triple_then_safe [OF confined_apply_resource [OF assms] safe_ret])
  show ?thesis
    unfolding safe_def
  proof (rule triple_bind [OF put])
    show "triple (\<lambda>v. ?P v \<and> es = []) (act_then (apply_resource E b) (act_ret False))
        (\<lambda>r es' v. reconciles (cluster_id c0) v \<and> (\<forall>e \<in> set (es @ es'). confined c0 (fst e)))" for u es
      by (rule triple_pure) (simp add: apply')
  qed auto
qed

lemma yields_prepare_statefulset:
  assumes E: "env_ok E" and b: "builder_object c0 b x"
  shows "yields_act c0 (\<lambda>(y, stop). builder_object c0 b y) (prepare_statefulset E b x)"
  unfolding prepare_statefulset_def
proof (rule yields_on_cluster, rule yields_bind [where U = "\<lambda>_. True"],
    simp add: yields_lift, rule yields_bind [OF yields_unless_missing [OF yields_get_statefulset [OF E]]], assumption,
    rule yields_bind [where U = "\<lambda>(y, stop). builder_object c0 b y"])
  fix c :: RabbitmqCluster and cur :: "StatefulSet option"
  assume c: "cluster_id c = cluster_id c0"
  have upd: "yields_act c0 (\<lambda>y. builder_object c0 b y) (act_lift (builder_Update (lib_of E) b c x))"
    by (rule yields_lift) (rule builder_object_same [OF b builder_Update_identity [OF env_okD(1) [OF E]]])
  show "yields_act c0 (\<lambda>(y, stop). builder_object c0 b y) (case cur of
         None \<Rightarrow> act_ret (x, False)
       | Some cur \<Rightarrow>
           act_bind (act_lift (builder_Update (lib_of E) b c x)) (\<lambda>resource'.
           act_bind (act_lift (as_statefulset resource')) (\<lambda>sts.
           act_bind (scaleDown E cur sts) (\<lambda>down. act_ret (resource', down)))))"
    by (cases cur)
      (auto intro!: yields_bind [OF upd] yields_ret yields_bind [where U = "\<lambda>_. True"] yields_lift b
        safe_yields [OF confined_scaleDown [OF E]])
next
  fix c :: RabbitmqCluster and p :: "api_object \<times> bool"
  assume c: "cluster_id c = cluster_id c0" and p: "case p of (y, stop) \<Rightarrow> builder_object c0 b y"
  obtain y down where y: "p = (y, down)" by (cases p)
  have "confined_act c0 (act_catch (reconcilePVC E sts) (\<lambda>e.
         act_then (setReconcileSuccess E ConditionFalse ''FailedReconcilePVC'' (error_string e)) (act_err e)))" for sts
    by (intro safe_intros confined_rules E)
  then show "yields_act c0 (\<lambda>(y, stop). builder_object c0 b y) (case p of (resource', down) \<Rightarrow>
     if down then act_ret (resource', True)
     else
     act_bind (act_lift (as_statefulset resource')) (\<lambda>sts.
     act_then (act_catch (reconcilePVC E sts) (\<lambda>e.
         act_then (setReconcileSuccess E ConditionFalse ''FailedReconcilePVC'' (error_string e)) (act_err e)))
     (act_ret (resource', False))))"
    using p
    by (cases down)
      (simp_all add: y yields_ret yields_bind [where U = "\<lambda>_. True"] yields_lift safe_yields)
qed

lemma confined_reconcile_builder [confined_rules]:
  assumes E: "env_ok E"
  shows "confined_act c0 (reconcile_builder E b)"
  unfolding reconcile_builder_def
proof (rule safe_bind [OF safe_fresh_random], rule safe_with_cluster)
  fix rnd and c :: RabbitmqCluster
  assume c: "cluster_id c = cluster_id c0"
  have built: "yields_act c0 (builder_object c0 b) (act_lift (builder_Build (lib_of E) rnd b c))"
    by (rule yields_lift)
      (use c in \<open>auto simp: builder_object_def identity_defs dest!: builder_Build_name\<close>)
  show "confined_act c0 (act_bind (act_lift (builder_Build (lib_of E) rnd b c)) (\<lambda>resource.
     act_bind (if UpdateMayRequireStsRecreate b then prepare_statefulset E b resource else act_ret (resource, False))
       (\<lambda>(resource', stop).
     if stop then act_ret True
     else act_then (put_resource resource') (act_then (apply_resource E b) (act_ret False)))))"
  proof (rule safe_bind_yields [OF built], rule safe_bind_yields)
    fix x assume x: "builder_object c0 b x"
    show "yields_act c0 (\<lambda>(y, stop). builder_object c0 b y)
        (if UpdateMayRequireStsRecreate b then prepare_statefulset E b x else act_ret (x, False))"
      using yields_prepare_statefulset [OF E x] by (simp add: yields_ret x)
  next
    fix p :: "api_object \<times> bool"
    assume p: "case p of (y, stop) \<Rightarrow> builder_object c0 b y"
    then show "confined_act c0 (case p of (resource', stop) \<Rightarrow>
        if stop then act_ret True
        else act_then (put_resource resource') (act_then (apply_resource E b) (act_ret False)))"
      by (auto intro!: safe_ret confined_put_and_apply [OF E])
  qed
qed

lemma confined_reconcile_builders [confined_rules]: "env_ok E \<Longrightarrow> confined_act c0 (reconcile_builders E bs)"
  by (induction bs) (auto intro!: safe_intros confined_rules)

section \<open>The reconciliation\<close>

lemma confined_mark_rebalance_if_needed [confined_rules]: "env_ok E \<Longrightarrow> confined_act c0 (mark_rebalance_if_needed E)"
  unfolding mark_rebalance_if_needed_def by (intro safe_intros confined_rules)

lemma confined_run_cli_commands [confined_rules]: "env_ok E \<Longrightarrow> confined_act c0 (run_cli_commands E)"
  unfolding run_cli_commands_def by (intro safe_intros confined_rules)

lemma confined_finish_reconciliation [confined_rules]: "env_ok E \<Longrightarrow> confined_act c0 (finish_reconciliation E)"
  unfolding finish_reconciliation_def by (intro safe_intros confined_rules) simp

lemma confined_reconcile_resources [confined_rules]: "env_ok E \<Longrightarrow> confined_act c0 (reconcile_resources E)"
  unfolding reconcile_resources_def by (intro safe_intros confined_rules)

lemma confined_report_paused [confined_rules]: "env_ok E \<Longrightarrow> confined_act c0 (report_paused E)"
  unfolding report_paused_def by (intro safe_intros confined_rules) simp

lemma confined_reconcile_active [confined_rules]: "env_ok E \<Longrightarrow> confined_act c0 (reconcile_active E)"
  unfolding reconcile_active_def by (intro safe_intros confined_rules)

end
