(* ===== verification/Del_Properties.thy ===== *)
theory Del_Properties
  imports Op_Confined
begin

text \<open>
  What happens before the finalizer of a custom resource is removed: which requests the step
  makes, and in which order.
\<close>

section \<open>What may precede the removal of the finalizer\<close>

abbreviation sts_cached_key :: "RabbitmqCluster \<Rightarrow> request" where
  "sts_cached_key c \<equiv> GetObject Cached StatefulSetKind (cluster_namespace c) (ChildResourceName c ''server'')"

text \<open>The pod with the deletion marker on it, and nothing else changed.\<close>

definition marked :: "Pod \<Rightarrow> Pod" where
  "marked p = p\<lparr>pod_meta := (pod_meta p)\<lparr>om_labels :=
     Some ((entries (om_labels (pod_meta p)))(DeletionMarker \<mapsto> ''true''))\<rparr>\<rparr>"

text \<open>A stateful set was read whose controller is the custom resource and whose uid is \<open>u\<close>.\<close>

definition own_sts_read :: "RabbitmqCluster \<Rightarrow> event list \<Rightarrow> string \<Rightarrow> bool" where
  "own_sts_read c h u =
     (\<exists>sts ref. (sts_cached_key c, GotObject (StatefulSetObject sts)) \<in> set h
        \<and> controller_of (sts_meta sts) = Some ref \<and> or_uid ref = om_uid (cl_meta c) \<and> u = om_uid (sts_meta sts))"

text \<open>Pods were listed, and an update with the marker was sent for each of them.\<close>

definition pods_marked :: "event list \<Rightarrow> bool" where
  "pods_marked h =
     (\<exists>sel pods. (ListPods sel, GotPods pods) \<in> set h
        \<and> (\<forall>p \<in> set pods. \<exists>a. (UpdateObject Cached (PodObject (marked p)), a) \<in> set h))"

fun deletion_step :: "RabbitmqCluster \<Rightarrow> event list \<Rightarrow> event \<Rightarrow> bool" where
  "deletion_step c h (ListPods sel, a) = True"
| "deletion_step c h (UpdateObject cl x, a) =
     (\<exists>sel pods p. cl = Cached \<and> (ListPods sel, GotPods pods) \<in> set h \<and> p \<in> set pods \<and> x = PodObject (marked p))"
| "deletion_step c h (DeleteObject cl k ns n u propagation, a) =
     (cl = Cached \<and> k = StatefulSetKind \<and> ns = cluster_namespace c \<and> n = ChildResourceName c ''server''
      \<and> propagation = None \<and> (\<exists>uid. u = Some uid \<and> own_sts_read c h uid) \<and> pods_marked h)"
| "deletion_step c h (req, a) = (req = sts_cached_key c)"

lemma deletion_step_mono: "deletion_step c h e \<Longrightarrow> deletion_step c (h' @ h) e"
  by (cases "(c, h, e)" rule: deletion_step.cases) (auto simp: own_sts_read_def pods_marked_def; blast)+

lemma deletion_guarded_mono: "guarded (deletion_step c) [] es \<Longrightarrow> guarded (deletion_step c) h es"
  using guarded_mono [where G = "deletion_step c" and h = "[]" and h' = h and es = es, OF deletion_step_mono] by simp

section \<open>The steps\<close>

lemma triple_statefulSetUID:
  "triple (\<lambda>v. v_cluster v = c) (statefulSetUID E) (\<lambda>r es v. v_cluster v = c
     \<and> (\<exists>a. es = [(sts_cached_key c, a)]) \<and> (\<forall>u. r = Ok u \<longrightarrow> own_sts_read c es u))"
  by (auto simp: triple_def statefulSetUID_def with_cluster_def get_statefulset_def get_object_def act_bind_def
      act_call_def act_lift_def act_ret_def act_wrap_def act_catch_def answer_of_def as_statefulset_def
      conversion_panic_def own_sts_read_def split: prod.splits outcome.splits api_object.splits option.splits if_splits)

lemma triple_label_pod:
  "triple (\<lambda>v. v_cluster v = c) (label_pod E p) (\<lambda>r es v. v_cluster v = c
     \<and> (\<forall>e \<in> set es. fst e = UpdateObject Cached (PodObject (marked p)))
     \<and> (r = Ok () \<longrightarrow> (\<exists>a. (UpdateObject Cached (PodObject (marked p)), a) \<in> set es)))"
  by (cases "om_labels (pod_meta p)")
    (auto simp: triple_def label_pod_def map_store_def marked_def update_object_def act_bind_def act_call_def
      act_lift_def act_ret_def act_wrap_def act_catch_def unless_missing_def split: prod.splits outcome.splits if_splits)

lemma triple_label_pods:
  "triple (\<lambda>v. v_cluster v = c) (for_each (label_pod E) pods) (\<lambda>r es v. v_cluster v = c
     \<and> (\<forall>e \<in> set es. \<exists>p \<in> set pods. fst e = UpdateObject Cached (PodObject (marked p)))
     \<and> (r = Ok () \<longrightarrow> (\<forall>p \<in> set pods. \<exists>a. (UpdateObject Cached (PodObject (marked p)), a) \<in> set es)))"
proof (induction pods)
  case Nil
  then show ?case by (auto intro: triple_ret)
next
  case (Cons p pods)
  show ?case
    unfolding for_each.simps
    by (rule triple_bind_carry [OF triple_label_pod Cons.IH]) auto
qed

lemma marking_guarded:
  assumes "(ListPods sel, GotPods pods) \<in> set h"
    and "\<forall>e \<in> set es. \<exists>p \<in> set pods. fst e = UpdateObject Cached (PodObject (marked p))"
  shows "guarded (deletion_step c) h es"
  using assms
proof (induction es arbitrary: h)
  case (Cons e es)
  obtain p a where e: "e = (UpdateObject Cached (PodObject (marked p)), a)" and p: "p \<in> set pods"
    using Cons.prems(2) by (metis list.set_intros(1) prod.collapse)
  have "deletion_step c h e" unfolding e deletion_step.simps using p Cons.prems(1) by blast
  moreover have "guarded (deletion_step c) (h @ [e]) es" using Cons by simp
  ultimately show ?case by simp
qed simp

definition marking_events :: "RabbitmqCluster \<Rightarrow> unit outcome \<Rightarrow> event list \<Rightarrow> bool" where
  "marking_events c r es = (guarded (deletion_step c) [] es \<and> (r = Ok () \<longrightarrow> pods_marked es))"

lemma marking_eventsI:
  assumes "\<forall>e \<in> set es. \<exists>p \<in> set pods. fst e = UpdateObject Cached (PodObject (marked p))"
    and "r = Ok () \<longrightarrow> (\<forall>p \<in> set pods. \<exists>a. (UpdateObject Cached (PodObject (marked p)), a) \<in> set es)"
  shows "marking_events c r ((ListPods sel, GotPods pods) # es)"
proof -
  have "guarded (deletion_step c) [(ListPods sel, GotPods pods)] es"
    by (rule marking_guarded [OF _ assms(1)]) simp
  moreover have "pods_marked ((ListPods sel, GotPods pods) # es)" if "r = Ok ()"
    unfolding pods_marked_def using assms(2) that by (intro exI [of _ sel] exI [of _ pods]) auto
  ultimately show ?thesis by (simp add: marking_events_def)
qed

lemma triple_addRabbitmqDeletionLabel:
  "triple (\<lambda>v. v_cluster v = c) (addRabbitmqDeletionLabel E) (\<lambda>r es v. v_cluster v = c \<and> marking_events c r es)"
  (is "triple ?J _ ?Q")
proof -
  have list: "triple ?J (list_pods E sel) (\<lambda>r es v. v_cluster v = c
      \<and> (\<exists>a. es = [(ListPods sel, a)] \<and> (\<forall>pods. r = Ok pods \<longrightarrow> a = GotPods pods)))" for sel
    unfolding list_pods_def by (rule triple_call) (simp add: answer_of_def)
  have refused: "marking_events d r [(ListPods sel, a)]" if "r \<noteq> Ok ()" for d r sel a
    using that by (simp add: marking_events_def)
  have "triple ?J (act_bind (list_pods E sel) (for_each (label_pod E))) ?Q" for sel
    by (rule triple_bind_carry [OF list triple_label_pods]) (auto intro!: marking_eventsI refused)
  then have parsed: "triple ?J (act_bind (act_lift parsed) (\<lambda>sel. act_bind (list_pods E sel) (for_each (label_pod E)))) ?Q" for parsed
    by (rule triple_bind_lift) (simp_all add: marking_events_def)
  show ?thesis
    unfolding addRabbitmqDeletionLabel_def
    by (rule triple_with_cluster, rule triple_pre [OF parsed]) simp
qed

text \<open>One attempt at the workload, and the attempts that conflicts make necessary.\<close>

lemma triple_delete_workload:
  "triple (\<lambda>v. v_cluster v = c) (delete_workload E)
     (\<lambda>r es v. v_cluster v = c \<and> guarded (deletion_step c) [] es)"
  (is "triple ?J _ ?Q")
proof -
  let ?msg = "''failed to add deletion markers to RabbitmqCluster Pods''"
  let ?del = "\<lambda>uid. with_cluster (\<lambda>rmq. act_wrap ''cannot delete StatefulSet''
         (act_bind (unless_missing (delete_object E Cached StatefulSetKind (cluster_namespace rmq)
              (ChildResourceName rmq ''server'') (Some uid) None)) (\<lambda>_. act_ret ())))"
  let ?D = "\<lambda>uid (r :: unit outcome) (es :: event list) v. v_cluster v = c \<and> (\<exists>a. es = [(DeleteObject Cached StatefulSetKind (cluster_namespace c)
      (ChildResourceName c ''server'') (Some uid) None, a)])"
  have del: "triple ?J (?del uid) (?D uid)" for uid
    by (auto simp: triple_def with_cluster_def delete_object_def act_wrap_def act_catch_def act_bind_def act_ret_def
        act_lift_def act_call_def unless_missing_def split: prod.splits outcome.splits)
  have mark: "triple ?J (act_wrap ?msg (addRabbitmqDeletionLabel E)) (\<lambda>r es v. v_cluster v = c \<and> marking_events c r es)"
    by (rule triple_wrap [OF triple_addRabbitmqDeletionLabel]) (auto simp: marking_events_def)
  have rest: "triple ?J (act_then (act_wrap ?msg (addRabbitmqDeletionLabel E)) (?del uid))
      (\<lambda>r es v. v_cluster v = c \<and> (\<forall>h. own_sts_read c h uid \<longrightarrow> guarded (deletion_step c) h es))" for uid
  proof (rule triple_bind_carry [OF mark del])
    fix x :: unit and r :: "unit outcome" and es es' :: "event list" and v :: vars
    assume m: "marking_events c (Ok x) es" and d: "?D uid r es' v"
    from m have g: "guarded (deletion_step c) h es" and p: "pods_marked es" for h
      by (simp_all add: marking_events_def deletion_guarded_mono)
    have "own_sts_read c (h @ es) uid" if "own_sts_read c h uid" for h
      using that unfolding own_sts_read_def by auto
    moreover have "pods_marked (h @ es)" for h
      using p unfolding pods_marked_def set_append by blast
    ultimately show "v_cluster v = c \<and> (\<forall>h. own_sts_read c h uid \<longrightarrow> guarded (deletion_step c) h (es @ es'))"
      using d g by auto
  qed (simp_all add: marking_events_def deletion_guarded_mono)
  show ?thesis
    unfolding delete_workload_def
    by (rule triple_bind_carry [OF triple_statefulSetUID rest]) auto
qed

lemma triple_removeFinalizer:
  "triple (\<lambda>v. v_cluster v = c) (removeFinalizer E) (\<lambda>r es v. \<exists>a. es = [(UpdateObject Cached (ClusterObject
     (c\<lparr>cl_meta := (cl_meta c)\<lparr>om_finalizers := remove_finalizer E deletionFinalizer (om_finalizers (cl_meta c))\<rparr>\<rparr>)), a)])"
  by (auto simp: triple_def removeFinalizer_def with_cluster_def put_cluster_def update_cluster_def update_object_def
      act_bind_def act_call_def act_lift_def split: prod.splits outcome.splits)

lemma triple_prepareForDeletion:
  assumes "retries (retry_on E)" and "deletionFinalizer \<in> set (om_finalizers (cl_meta c))"
  shows "triple (\<lambda>v. v_cluster v = c) (prepareForDeletion E) (\<lambda>r es v.
     \<exists>pre post. es = pre @ post \<and> guarded (deletion_step c) [] pre
       \<and> (post = [] \<and> (\<exists>p. r = Panic p) \<or> (\<exists>a. post = [(UpdateObject Cached (ClusterObject
            (c\<lparr>cl_meta := (cl_meta c)\<lparr>om_finalizers := remove_finalizer E deletionFinalizer (om_finalizers (cl_meta c))\<rparr>\<rparr>)), a)])))"
    (is "triple ?J _ ?Q")
proof -
  let ?G = "\<lambda>r es v. v_cluster v = c \<and> guarded (deletion_step c) [] es"
  have "triple ?J (retry_on_conflict E (delete_workload E)) ?G"
    unfolding retry_on_conflict_def
    by (rule triple_retry [OF assms(1) triple_delete_workload]) (auto intro: deletion_guarded_mono)
  then have workload: "triple ?J (act_ignore (retry_on_conflict E (delete_workload E)))
      (\<lambda>r es v. v_cluster v = c \<and> (guarded (deletion_step c) [] es \<and> (\<forall>e. r \<noteq> Err e)))"
    unfolding act_ignore_def by (rule triple_catch) (auto intro: triple_ret)
  have body: "triple ?J (act_then (act_ignore (retry_on_conflict E (delete_workload E))) (removeFinalizer E)) ?Q"
    by (rule triple_bind_carry [OF workload triple_removeFinalizer]) auto
  show ?thesis
    unfolding prepareForDeletion_def
  proof (rule triple_with_cluster)
    fix c' :: RabbitmqCluster
    let ?m = "if deletionFinalizer \<in> set (om_finalizers (cl_meta c'))
      then act_then (act_ignore (retry_on_conflict E (delete_workload E))) (removeFinalizer E) else act_ret ()"
    show "triple (\<lambda>v. v_cluster v = c \<and> v_cluster v = c') ?m ?Q"
    proof (cases "c' = c")
      case True
      then show ?thesis using body assms(2) by simp
    next
      case False
      then show ?thesis by (auto simp: triple_def)
    qed
  qed
qed

lemma triple_label_listed:
  "triple (\<lambda>v. v_cluster v = c) (addRabbitmqDeletionLabel E) (\<lambda>r es v. r = Ok () \<longrightarrow>
     (\<exists>sel pods es'. parse_selector E (''app.kubernetes.io/name='' @ cluster_name c) = Ok sel
        \<and> es = (ListPods sel, GotPods pods) # es'
        \<and> (\<forall>p \<in> set pods. \<exists>a. (UpdateObject Cached (PodObject (marked p)), a) \<in> set es')))"
  (is "triple ?J _ ?Q")
proof -
  have list: "triple ?J (list_pods E sel) (\<lambda>r es v. v_cluster v = c
      \<and> (\<exists>a. es = [(ListPods sel, a)] \<and> (\<forall>pods. r = Ok pods \<longrightarrow> a = GotPods pods)))" for sel
    unfolding list_pods_def by (rule triple_call) (simp add: answer_of_def)
  have one: "triple ?J (act_bind (list_pods E sel) (for_each (label_pod E))) ?Q"
    if "parse_selector E (''app.kubernetes.io/name='' @ cluster_name c) = Ok sel" for sel
  proof (rule triple_bind_carry [OF list triple_label_pods])
    fix x r and v :: vars and es es' :: "event list"
    assume "\<exists>a. es = [(ListPods sel, a)] \<and> (\<forall>pods. Ok x = Ok pods \<longrightarrow> a = GotPods pods)"
      and m: "v_cluster v = c
        \<and> (\<forall>e \<in> set es'. \<exists>p \<in> set x. fst e = UpdateObject Cached (PodObject (marked p)))
        \<and> (r = Ok () \<longrightarrow> (\<forall>p \<in> set x. \<exists>a. (UpdateObject Cached (PodObject (marked p)), a) \<in> set es'))"
    then have es: "es @ es' = (ListPods sel, GotPods x) # es'" by auto
    show "?Q r (es @ es') v"
      unfolding es using that m by (intro impI exI [of _ sel] exI [of _ x] exI [of _ es'] conjI) simp_all
  qed simp_all
  show ?thesis
    unfolding addRabbitmqDeletionLabel_def
  proof (rule triple_with_cluster, rule triple_bind_lift)
    fix c' :: RabbitmqCluster and sel
    assume sel: "parse_selector E (''app.kubernetes.io/name='' @ cluster_name c') = Ok sel"
    show "triple (\<lambda>v. v_cluster v = c \<and> v_cluster v = c') (act_bind (list_pods E sel) (for_each (label_pod E))) ?Q"
    proof (cases "c' = c")
      case True
      then show ?thesis using one [of sel] sel by simp
    next
      case False
      then show ?thesis by (auto simp: triple_def)
    qed
  qed simp_all
qed

section \<open>Properties\<close>

text \<open>
  C2. Deletion. Without the finalizer nothing happens. With it, the stateful set is deleted only
  by the uid of one that was read before and whose controller is this custom resource, and
  only after the pods were listed and an update with the deletion marker was sent for each of
  them; pods change in nothing but that label. The last request, unless the code panics
  before, removes the finalizer and no other from the custom resource, whatever has failed.
\<close>

theorem deletion_order:
  assumes "env_ok E" and "prepareForDeletion E s = (r, s')" and "c = v_cluster (sys_vars s)"
  shows "(deletionFinalizer \<notin> set (om_finalizers (cl_meta c)) \<longrightarrow> r = Ok () \<and> s' = s)
    \<and> (deletionFinalizer \<in> set (om_finalizers (cl_meta c)) \<longrightarrow>
        (\<exists>pre post. sys_trace s' = sys_trace s @ pre @ post
           \<and> (\<forall>before e after. pre = before @ e # after \<longrightarrow> deletion_step c before e)
           \<and> (post = [] \<and> (\<exists>p. r = Panic p)
              \<or> (\<exists>c' a. post = [(UpdateObject Cached (ClusterObject c'), a)] \<and> cluster_id c' = cluster_id c
                   \<and> cl_spec c' = cl_spec c \<and> cl_status c' = cl_status c
                   \<and> set (om_finalizers (cl_meta c')) = set (om_finalizers (cl_meta c)) - {deletionFinalizer}))))"
proof (intro conjI impI)
  assume "deletionFinalizer \<notin> set (om_finalizers (cl_meta c))"
  then show "r = Ok ()" "s' = s"
    using assms(2,3) by (simp_all add: prepareForDeletion_def with_cluster_def act_ret_def)
next
  assume f: "deletionFinalizer \<in> set (om_finalizers (cl_meta c))"
  let ?c = "c\<lparr>cl_meta := (cl_meta c)\<lparr>om_finalizers := remove_finalizer E deletionFinalizer (om_finalizers (cl_meta c))\<rparr>\<rparr>"
  obtain es pre post where es: "sys_trace s' = sys_trace s @ es" "es = pre @ post"
    and pre: "guarded (deletion_step c) [] pre"
    and post: "post = [] \<and> (\<exists>p. r = Panic p) \<or> (\<exists>a. post = [(UpdateObject Cached (ClusterObject ?c), a)])"
    using tripleD [OF triple_prepareForDeletion [OF env_okD(2) [OF assms(1)] f] _ assms(2)] assms(3) by metis
  have c': "cluster_id ?c = cluster_id c" "cl_spec ?c = cl_spec c" "cl_status ?c = cl_status c"
    "set (om_finalizers (cl_meta ?c)) = set (om_finalizers (cl_meta c)) - {deletionFinalizer}"
    using env_okD(4) [OF assms(1)] by (simp_all add: cluster_id_def edits_finalizers_def)
  have "\<forall>before e after. pre = before @ e # after \<longrightarrow> deletion_step c before e"
    using pre unfolding guarded_iff by simp
  moreover have "post = [] \<and> (\<exists>p. r = Panic p)
      \<or> (\<exists>c' a. post = [(UpdateObject Cached (ClusterObject c'), a)] \<and> cluster_id c' = cluster_id c
           \<and> cl_spec c' = cl_spec c \<and> cl_status c' = cl_status c
           \<and> set (om_finalizers (cl_meta c')) = set (om_finalizers (cl_meta c)) - {deletionFinalizer})"
    using post c' by blast
  ultimately show "\<exists>pre post. sys_trace s' = sys_trace s @ pre @ post
      \<and> (\<forall>before e after. pre = before @ e # after \<longrightarrow> deletion_step c before e)
      \<and> (post = [] \<and> (\<exists>p. r = Panic p)
         \<or> (\<exists>c' a. post = [(UpdateObject Cached (ClusterObject c'), a)] \<and> cluster_id c' = cluster_id c
              \<and> cl_spec c' = cl_spec c \<and> cl_status c' = cl_status c
              \<and> set (om_finalizers (cl_meta c')) = set (om_finalizers (cl_meta c)) - {deletionFinalizer}))"
    using es by blast
qed

text \<open>
  A cluster under deletion, its stateful set, and two pods that bear its name, one of them in
  another namespace.
\<close>

definition deleting_cluster :: RabbitmqCluster where
  "deleting_cluster = (new_cluster ''r'' ''ns'' ''u'')\<lparr>cl_meta := (new_meta ''r'' ''ns'')
     \<lparr>om_uid := ''u'', om_finalizers := [deletionFinalizer], om_deletionTimestamp := Some 1\<rparr>\<rparr>"

definition owned_sts :: StatefulSet where
  "owned_sts = (sample_sts 3)\<lparr>sts_meta := (new_meta ''r-server'' ''ns'')
     \<lparr>om_uid := ''v'', om_ownerReferences := [owner_ref (cl_meta deleting_cluster)]\<rparr>\<rparr>"

definition named_pod :: "string \<Rightarrow> Pod" where
  "named_pod ns = \<lparr>pod_meta = (new_meta ''r-server-0'' ns)\<lparr>om_labels := Some [''app.kubernetes.io/name'' \<mapsto> ''r'']\<rparr>\<rparr>"

definition deleting_sys :: "server sys" where
  "deleting_sys = sample_sys [ClusterObject deleting_cluster, StatefulSetObject owned_sts,
     PodObject (named_pod ''ns''), PodObject (named_pod ''other'')] deleting_cluster"

definition is_delete :: "event \<Rightarrow> bool" where
  "is_delete ev = (case fst ev of DeleteObject cl k ns n u p \<Rightarrow> True | _ \<Rightarrow> False)"

lemma deleting_run: "map is_delete (sys_trace (snd (prepareForDeletion sample_env deleting_sys)))
    = [False, False, False, False, True, False]"
  by code_simp

lemma is_delete_iff: "is_delete ev \<longleftrightarrow> (\<exists>cl k ns n u p. fst ev = DeleteObject cl k ns n u p)"
  by (auto simp: is_delete_def split: request.splits)

theorem deletion_order_witness:
  "\<exists>before u a after. sys_trace (snd (prepareForDeletion sample_env deleting_sys))
       = before @ (DeleteObject Cached StatefulSetKind ''ns'' ''r-server'' (Some u) None, a) # after
     \<and> pods_marked before \<and> own_sts_read deleting_cluster before u"
proof -
  obtain r s' where run: "prepareForDeletion sample_env deleting_sys = (r, s')" by fastforce
  have flags: "map is_delete (sys_trace s') = [False, False, False, False, True, False]"
    using deleting_run run by simp
  have c: "v_cluster (sys_vars deleting_sys) = deleting_cluster" by (simp add: deleting_sys_def sample_sys_def)
  have f: "deletionFinalizer \<in> set (om_finalizers (cl_meta deleting_cluster))" by (simp add: deleting_cluster_def)
  obtain pre post where tr: "sys_trace s' = pre @ post"
    and pre: "\<forall>before e after. pre = before @ e # after \<longrightarrow> deletion_step deleting_cluster before e"
    and post: "post = [] \<or> (\<exists>x a. post = [(UpdateObject Cached x, a)])"
    using deletion_order [OF sample_env_ok run c [symmetric]] f by (auto simp: deleting_sys_def sample_sys_def)
  have "is_delete (sys_trace s' ! 4)" "length (sys_trace s') = 6"
    using arg_cong [OF flags, of "\<lambda>xs. xs ! 4"] arg_cong [OF flags, of length] by simp_all
  then have "sys_trace s' ! 4 \<in> set (sys_trace s')" by simp
  moreover have "sys_trace s' ! 4 \<notin> set post"
    using post \<open>is_delete _\<close> by (auto simp: is_delete_def)
  ultimately have "sys_trace s' ! 4 \<in> set pre" using tr by auto
  then obtain before after where split: "pre = before @ sys_trace s' ! 4 # after" by (meson split_list)
  then have step: "deletion_step deleting_cluster before (sys_trace s' ! 4)" using pre by blast
  obtain cl k ns n u p a where ev: "sys_trace s' ! 4 = (DeleteObject cl k ns n u p, a)"
    using \<open>is_delete _\<close> by (metis is_delete_iff prod.collapse)
  have "cluster_namespace deleting_cluster = ''ns''" "ChildResourceName deleting_cluster ''server'' = ''r-server''"
    by (simp_all add: deleting_cluster_def new_meta_def ChildResourceName_def trim_suffix_def has_suffix_def)
  with step [unfolded ev deletion_step.simps] obtain uid where
    "DeleteObject cl k ns n u p = DeleteObject Cached StatefulSetKind ''ns'' ''r-server'' (Some uid) None"
    "pods_marked before" "own_sts_read deleting_cluster before uid" by (elim conjE exE) simp
  then show ?thesis
    using tr split run ev by (intro exI [of _ before] exI [of _ uid] exI [of _ a] exI [of _ "after @ post"]) simp
qed

definition pod_namespaces :: "event \<Rightarrow> string list" where
  "pod_namespaces ev = (case snd ev of GotPods pods \<Rightarrow> map (\<lambda>p. om_namespace (pod_meta p)) pods | _ \<Rightarrow> [])"

lemma listed_namespaces:
  "pod_namespaces (hd (sys_trace (snd (addRabbitmqDeletionLabel sample_env deleting_sys)))) = [''ns'', ''other'']"
  by code_simp

text \<open>
  C33. The pods that get the deletion marker are chosen by the name of the cluster alone: the
  namespace of the cluster has no part in the request that lists them, and every pod of the answer
  is marked, whatever its namespace.
\<close>

theorem deletion_label_crosses_namespaces:
  assumes "addRabbitmqDeletionLabel E s = (Ok (), s')"
  shows "\<exists>sel pods es. parse_selector E (''app.kubernetes.io/name='' @ cluster_name (v_cluster (sys_vars s))) = Ok sel
    \<and> sys_trace s' = sys_trace s @ (ListPods sel, GotPods pods) # es
    \<and> (\<forall>p \<in> set pods. \<exists>a. (UpdateObject Cached (PodObject (marked p)), a) \<in> set es)"
  using tripleD [OF triple_label_listed refl assms] by metis

theorem deletion_label_crosses_namespaces_witness:
  "cluster_namespace deleting_cluster = ''ns''
   \<and> (\<exists>p a. om_namespace (pod_meta p) = ''other'' \<and> (UpdateObject Cached (PodObject (marked p)), a)
        \<in> set (sys_trace (snd (addRabbitmqDeletionLabel sample_env deleting_sys))))"
proof -
  have "fst (addRabbitmqDeletionLabel sample_env deleting_sys) = Ok ()" by code_simp
  then obtain s' where run: "addRabbitmqDeletionLabel sample_env deleting_sys = (Ok (), s')" by (metis prod.collapse)
  obtain sel pods es where tr: "sys_trace s' = sys_trace deleting_sys @ (ListPods sel, GotPods pods) # es"
    and all: "\<forall>p \<in> set pods. \<exists>a. (UpdateObject Cached (PodObject (marked p)), a) \<in> set es"
    using deletion_label_crosses_namespaces [OF run] by blast
  have "pod_namespaces (hd (sys_trace s')) = [''ns'', ''other'']"
    using listed_namespaces run by simp
  then have "''other'' \<in> (\<lambda>p. om_namespace (pod_meta p)) ` set pods"
    using tr by (cases pods) (auto simp: pod_namespaces_def deleting_sys_def sample_sys_def)
  then obtain p where p: "om_namespace (pod_meta p) = ''other''" "p \<in> set pods"
    by (elim imageE) (rule that, simp_all)
  then obtain a where "(UpdateObject Cached (PodObject (marked p)), a) \<in> set es" using all by blast
  then have "(UpdateObject Cached (PodObject (marked p)), a) \<in> set (sys_trace s')" using tr by simp
  then have "\<exists>p a. om_namespace (pod_meta p) = ''other'' \<and> (UpdateObject Cached (PodObject (marked p)), a) \<in> set (sys_trace s')"
    using p(1) by blast
  then show ?thesis using run by (simp add: deleting_cluster_def new_meta_def)
qed

end
