(* ===== verification/Op_Properties.thy ===== *)
theory Op_Properties
  imports Del_Properties
begin

text \<open>
  Properties of a reconciliation as a whole: what it touches, what it does for a paused
  cluster, and what its first step promises about requeueing.
\<close>

section \<open>The start of a reconciliation\<close>

definition logged :: "request \<Rightarrow> answer \<Rightarrow> 'w \<Rightarrow> 'w sys \<Rightarrow> 'w sys" where
  "logged req a w s = s\<lparr>sys_world := w, sys_trace := sys_trace s @ [(req, a)]\<rparr>"

lemma logged_simps [simp]:
  "sys_trace (logged req a w s) = sys_trace s @ [(req, a)]" "sys_vars (logged req a w s) = sys_vars s"
  "sys_world (logged req a w s) = w"
  by (simp_all add: logged_def)

lemma act_call_logged:
  "act_call req enc f s = (fst (f (sys_world s)), logged req (answer_of enc (fst (f (sys_world s)))) (snd (f (sys_world s))) s)"
  by (simp add: act_call_def logged_def split_beta)

abbreviation cluster_key :: "string \<Rightarrow> string \<Rightarrow> request" where
  "cluster_key ns n \<equiv> GetObject Cached ClusterKind ns n"

definition pointing_to :: "RabbitmqCluster \<Rightarrow> 'w sys \<Rightarrow> 'w sys" where
  "pointing_to c s = s\<lparr>sys_vars := (sys_vars s)\<lparr>v_cluster := c\<rparr>\<rparr>"

lemma pointing_to_simps [simp]:
  "sys_trace (pointing_to c s) = sys_trace s" "v_cluster (sys_vars (pointing_to c s)) = c"
  "sys_world (pointing_to c s) = sys_world s"
  by (simp_all add: pointing_to_def)

lemma Reconcile_found:
  assumes "api_get E Cached ClusterKind ns n (sys_world s) = (Ok (ClusterObject c), w)"
  shows "Reconcile E ns n s =
    reconcile_cluster E (pointing_to c (logged (cluster_key ns n) (GotObject (ClusterObject c)) w s))"
  using assms
  by (simp add: Reconcile_def getRabbitmqCluster_def get_object_def act_call_logged act_bind_def unless_missing_def
      act_catch_def act_lift_def act_ret_def as_cluster_def answer_of_def put_cluster_def pointing_to_def)

lemma Reconcile_not_found:
  assumes "api_get E Cached ClusterKind ns n (sys_world s) = (r, w)" and "\<And>c. r \<noteq> Ok (ClusterObject c)"
  shows "sys_trace (snd (Reconcile E ns n s)) = sys_trace s @ [(cluster_key ns n, answer_of GotObject r)]"
  using assms
  by (cases r)
    (auto simp: Reconcile_def getRabbitmqCluster_def get_object_def act_call_logged act_bind_def unless_missing_def
      act_catch_def act_lift_def act_ret_def as_cluster_def conversion_panic_def split: api_object.splits)

lemma safe_runs:
  assumes "safe J A m" and "J (sys_vars s)" and "m s = (r, s')"
  obtains es where "sys_trace s' = sys_trace s @ es" and "J (sys_vars s')" and "\<forall>e \<in> set es. A e"
  using tripleD [OF assms(1) [unfolded safe_def] assms(2,3)] by metis

lemma confined_runs:
  assumes "confined_act (v_cluster (sys_vars s)) m" and "m s = (r, s')"
  obtains es where "sys_trace s' = sys_trace s @ es"
    and "cluster_id (v_cluster (sys_vars s')) = cluster_id (v_cluster (sys_vars s))"
    and "\<forall>e \<in> set es. confined (v_cluster (sys_vars s)) (fst e)"
  using safe_runs [OF assms(1) _ assms(2)] unfolding reconciles_def by metis

lemma reconcile_live:
  assumes "env_ok E" and "\<not> being_deleted (cl_meta (v_cluster (sys_vars s)))"
  obtains m where "reconcile_cluster E s = m s" and "confined_act (v_cluster (sys_vars s)) m"
proof (cases "entries (om_labels (cl_meta (v_cluster (sys_vars s)))) pauseReconciliationLabel = Some ''true''")
  case True
  then have "reconcile_cluster E s = report_paused E s"
    using assms(2) by (simp add: reconcile_cluster_def with_cluster_def)
  then show thesis by (rule that) (rule confined_report_paused [OF assms(1)])
next
  case False
  then have "reconcile_cluster E s = reconcile_active E s"
    using assms(2) by (simp add: reconcile_cluster_def with_cluster_def)
  then show thesis by (rule that) (rule confined_reconcile_active [OF assms(1)])
qed

lemma reconcile_cluster_extends:
  assumes "env_ok E"
  shows "\<exists>es. sys_trace (snd (reconcile_cluster E s)) = sys_trace s @ es"
proof -
  let ?c = "v_cluster (sys_vars s)"
  obtain r s' where run: "reconcile_cluster E s = (r, s')" by fastforce
  note run' = run [unfolded reconcile_cluster_def with_cluster_def]
  show ?thesis
  proof (cases "being_deleted (cl_meta ?c)")
    case True
    obtain r1 s1 where p: "prepareForDeletion E s = (r1, s1)" by fastforce
    have "s' = s1" using run' True p by (auto simp: act_bind_def act_ret_def split: outcome.splits)
    moreover have "\<exists>es. sys_trace s1 = sys_trace s @ es"
    proof (cases "deletionFinalizer \<in> set (om_finalizers (cl_meta ?c))")
      case True
      then show ?thesis using tripleD [OF triple_prepareForDeletion [OF env_okD(2) [OF assms] True] refl p] by blast
    next
      case False
      then show ?thesis using p by (simp add: prepareForDeletion_def with_cluster_def act_ret_def)
    qed
    ultimately show ?thesis using run by simp
  next
    case False
    obtain m where m: "reconcile_cluster E s = m s" "confined_act ?c m"
      using reconcile_live [OF assms False] .
    obtain es where "sys_trace s' = sys_trace s @ es" using confined_runs [OF m(2)] m(1) run by metis
    then show ?thesis using run by simp
  qed
qed

text \<open>A trace that begins with an answered custom resource goes on with its reconciliation.\<close>

lemma Reconcile_cases:
  assumes E: "env_ok E" and "Reconcile E ns n s = (r, s')"
    and "sys_trace s' = sys_trace s @ (req, GotObject (ClusterObject c)) # es"
  obtains w where "req = cluster_key ns n" and "cluster_name c = n" and "cluster_namespace c = ns"
    and "reconcile_cluster E (pointing_to c (logged (cluster_key ns n) (GotObject (ClusterObject c)) w s)) = (r, s')"
proof -
  obtain ro w where get: "api_get E Cached ClusterKind ns n (sys_world s) = (ro, w)" by fastforce
  show thesis
  proof (cases "\<exists>c'. ro = Ok (ClusterObject c')")
    case True
    then obtain c' where ro: "ro = Ok (ClusterObject c')" by blast
    let ?s = "pointing_to c' (logged (cluster_key ns n) (GotObject (ClusterObject c')) w s)"
    have run: "reconcile_cluster E ?s = (r, s')" using Reconcile_found [OF get [unfolded ro]] assms(2) by simp
    have "\<exists>es'. sys_trace s' = sys_trace ?s @ es'"
      using reconcile_cluster_extends [OF E, of ?s] run by simp
    then have "req = cluster_key ns n" "c' = c" using assms(3) by auto
    moreover have "cluster_name c = n \<and> cluster_namespace c = ns"
      using keeps_identityD(1) [OF env_okD(3) [OF E] get [unfolded ro]] \<open>c' = c\<close> by simp
    ultimately show thesis using run that by simp
  next
    case False
    then have "sys_trace s' = sys_trace s @ [(cluster_key ns n, answer_of GotObject ro)]"
      using Reconcile_not_found [OF get] assms(2) by simp
    with assms(3) False show thesis by (cases ro) (auto simp: answer_of_def)
  qed
qed

lemma Reconcile_found_trace:
  assumes "env_ok E" and "api_get E Cached ClusterKind ns n (sys_world s) = (Ok (ClusterObject c), w)"
    and "Reconcile E ns n s = (r, s')"
  obtains es where "sys_trace s' = sys_trace s @ (cluster_key ns n, GotObject (ClusterObject c)) # es"
proof -
  let ?s = "pointing_to c (logged (cluster_key ns n) (GotObject (ClusterObject c)) w s)"
  obtain es where "sys_trace (snd (reconcile_cluster E ?s)) = sys_trace ?s @ es"
    using reconcile_cluster_extends [OF assms(1)] by blast
  then have "sys_trace s' = sys_trace s @ (cluster_key ns n, GotObject (ClusterObject c)) # es"
    by (simp add: Reconcile_found [OF assms(2), symmetric] assms(3))
  then show thesis by (rule that)
qed

section \<open>Confinement\<close>


text \<open>A cluster that asks for TLS only without having TLS, on a server that knows nothing else.\<close>

definition tls_only_cluster :: RabbitmqCluster where
  "tls_only_cluster = (new_cluster ''r'' ''ns'' ''u'')\<lparr>cl_spec := default_spec\<lparr>sp_tls :=
     (sp_tls default_spec)\<lparr>tls_disableNonTLSListeners := True\<rparr>\<rparr>\<rparr>"

definition tls_only_sys :: "server sys" where
  "tls_only_sys = sample_sys [ClusterObject tls_only_cluster] tls_only_cluster"

lemma act_bind_extends:
  assumes "\<And>x s. \<exists>es. sys_trace (snd (f x s)) = sys_trace s @ es"
  shows "\<exists>es. sys_trace (snd (act_bind m f s)) = sys_trace (snd (m s)) @ es"
proof (cases "m s")
  case (Pair r s1)
  then show ?thesis using assms by (cases r) (auto simp: act_bind_def)
qed

lemma reconcile_active_begins:
  assumes "env_ok E"
  shows "\<exists>es. sys_trace (snd (reconcile_active E s)) = sys_trace (snd (reconcileOperatorDefaults E s)) @ es"
  unfolding reconcile_active_def unless_requeued_def [of "reconcileOperatorDefaults E"]
proof (rule act_bind_extends)
  fix d :: int and s :: "'a sys"
  let ?m = "if 0 < d then act_ret d
     else act_then (addFinalizerIfNeeded E)
     (unless_requeued (updateStatusConditions E)
     (act_bind (reconcileTLS E) (\<lambda>misconfigured.
     if misconfigured then act_ret 0
     else
     act_then (mark_rebalance_if_needed E)
     (act_bind (reconcile_resources E) (\<lambda>stop.
     if stop then act_ret 0
     else
     unless_requeued (restartStatefulSetIfNeeded E)
     (act_then (reconcileStatus E)
     (unless_requeued (run_cli_commands E) (finish_reconciliation E))))))))"
  have "confined_act (v_cluster (sys_vars s)) ?m"
    by (intro safe_intros confined_rules assms)
  moreover obtain r s' where "?m s = (r, s')" by fastforce
  ultimately show "\<exists>es. sys_trace (snd (?m s)) = sys_trace s @ es"
    by (metis confined_runs snd_conv)
qed

definition tls_only_start :: "server sys" where
  "tls_only_start = pointing_to tls_only_cluster (logged (cluster_key ''ns'' ''r'')
     (GotObject (ClusterObject tls_only_cluster)) (sys_world tls_only_sys) tls_only_sys)"

lemma tls_only_run: "map is_update (sys_trace (snd (reconcileOperatorDefaults sample_env tls_only_start)))
    = [False, True, True]"
  by code_simp


section \<open>Paused clusters\<close>

text \<open>
  C31. A cluster with the pause label is left alone: the reconciliation records an event and
  writes the status once, in which nothing but the condition on warnings has changed; metadata
  and specification stay as they were read, and the reconciliation does not come back, even if the
  write fails.
\<close>

theorem paused_writes_status_only:
  assumes "env_ok E" and "Reconcile E ns n s = (r, s')"
    and "sys_trace s' = sys_trace s @ (req, GotObject (ClusterObject c)) # es" and "\<not> being_deleted (cl_meta c)"
    and "entries (om_labels (cl_meta c)) pauseReconciliationLabel = Some ''true''"
  shows "\<exists>msg t c' a. es = [(RecordEvent ''Warning'' ''PausedReconciliation'' msg, Acknowledged), (UpdateStatus c', a)]
    \<and> c' = c\<lparr>cl_status := SetCondition t NoWarnings ConditionFalse ''reconciliation paused'' [] (cl_status c)\<rparr>
    \<and> (r = Ok 0 \<or> (\<exists>p. a = Crashed p \<and> r = Panic p))"
proof -
  obtain w where run: "reconcile_cluster E (pointing_to c (logged (cluster_key ns n) (GotObject (ClusterObject c)) w s)) = (r, s')"
    and req: "req = cluster_key ns n"
    using Reconcile_cases [OF assms(1-3)] by blast
  let ?s = "pointing_to c (logged (cluster_key ns n) (GotObject (ClusterObject c)) w s)"
  have paused: "report_paused E ?s = (r, s')"
    using run assms(4,5) by (simp add: reconcile_cluster_def with_cluster_def)
  let ?Q = "\<lambda>(r :: int outcome) es (v :: vars). \<exists>msg t c' a.
      es = [(RecordEvent ''Warning'' ''PausedReconciliation'' msg, Acknowledged), (UpdateStatus c', a)]
      \<and> c' = c\<lparr>cl_status := SetCondition t NoWarnings ConditionFalse ''reconciliation paused'' [] (cl_status c)\<rparr>
      \<and> (r = Ok 0 \<or> (\<exists>p. a = Crashed p \<and> r = Panic p))"
  have body: "triple (\<lambda>v. v_cluster v = c) (report_paused E) ?Q"
    by (auto simp: triple_def report_paused_def record_event_def set_status_condition_def with_cluster_def put_cluster_def
        now_def update_status_def act_ignore_def act_catch_def act_bind_def act_call_def act_ret_def answer_of_def
        split: prod.splits outcome.splits)
  have pre: "v_cluster (sys_vars ?s) = c" by simp
  obtain es' where tr: "sys_trace s' = sys_trace ?s @ es'" and es': "?Q r es' (sys_vars s')"
    using tripleD [OF body pre paused] .
  have "es' = es" using tr assms(3) req by simp
  then show ?thesis using es' by simp
qed

definition paused_cluster :: RabbitmqCluster where
  "paused_cluster = (new_cluster ''r'' ''ns'' ''u'')\<lparr>cl_meta := (new_meta ''r'' ''ns'')
     \<lparr>om_labels := Some [pauseReconciliationLabel \<mapsto> ''true'']\<rparr>\<rparr>"

theorem paused_writes_status_only_witness:
  "\<exists>e c' a. sys_trace (snd (Reconcile sample_env ''ns'' ''r'' (sample_sys [ClusterObject paused_cluster] paused_cluster)))
       = [(GetObject Cached ClusterKind ''ns'' ''r'', GotObject (ClusterObject paused_cluster)), e, (UpdateStatus c', a)]
     \<and> cl_spec c' = cl_spec paused_cluster"
proof -
  let ?s = "sample_sys [ClusterObject paused_cluster] paused_cluster"
  obtain r s' where run: "Reconcile sample_env ''ns'' ''r'' ?s = (r, s')" by fastforce
  have get: "api_get sample_env Cached ClusterKind ''ns'' ''r'' (sys_world ?s) = (Ok (ClusterObject paused_cluster), sys_world ?s)"
    by (simp add: sample_env_def server_get_def sample_sys_def is_at_def paused_cluster_def new_meta_def)
  obtain es where tr: "sys_trace s' = sys_trace ?s
      @ (GetObject Cached ClusterKind ''ns'' ''r'', GotObject (ClusterObject paused_cluster)) # es"
    using Reconcile_found_trace [OF sample_env_ok get run] .
  have "\<not> being_deleted (cl_meta paused_cluster)"
    "entries (om_labels (cl_meta paused_cluster)) pauseReconciliationLabel = Some ''true''"
    by (simp_all add: paused_cluster_def being_deleted_def new_meta_def)
  from paused_writes_status_only [OF sample_env_ok run tr this] obtain msg t c' a where
    es: "es = [(RecordEvent ''Warning'' ''PausedReconciliation'' msg, Acknowledged), (UpdateStatus c', a)]"
    and c': "cl_spec c' = cl_spec paused_cluster"
    by auto
  have "sys_trace ?s = []" by (simp add: sample_sys_def)
  with tr es c' run show ?thesis by (intro exI [of _ c'] exI [of _ a] exI) simp
qed

end
