(* ===== verification/Ctl_Properties.thy ===== *)
theory Ctl_Properties
  imports Op_Properties
begin

text \<open>
  Properties of single steps of a reconciliation: the operator's defaults, and the annotations
  whose times decide on restarts and commands.
\<close>

section \<open>Operator defaults\<close>

lemma triple_updateRabbitmqCluster:
  assumes "env_ok E"
  shows "triple (\<lambda>v. v_cluster v = c) (updateRabbitmqCluster E) (\<lambda>r es v. cluster_id (v_cluster v) = cluster_id c
    \<and> (\<exists>a. es = [(UpdateObject Cached (ClusterObject c), a)]))"
proof (rule tripleI)
  fix s :: "'a sys" assume "v_cluster (sys_vars s) = c"
  then have c: "v_cluster (sys_vars s) = c" .
  obtain r s' where run: "updateRabbitmqCluster E s = (r, s')" by fastforce
  have safe: "safe (reconciles (cluster_id c)) (\<lambda>_. True) (updateRabbitmqCluster E)"
    unfolding updateRabbitmqCluster_def by (intro safe_intros safe_update_cluster [OF env_okD(3) [OF assms]]) simp_all
  have pre: "reconciles (cluster_id c) (sys_vars s)" using c by (simp add: reconciles_def)
  have "cluster_id (v_cluster (sys_vars s')) = cluster_id c"
    using safe_runs [OF safe pre run] unfolding reconciles_def by metis
  moreover have "\<exists>a. sys_trace s' = sys_trace s @ [(UpdateObject Cached (ClusterObject c), a)]"
    using run c
    by (auto simp: updateRabbitmqCluster_def update_cluster_def update_object_def with_cluster_def put_cluster_def
        act_catch_def act_bind_def act_call_def act_lift_def act_ret_def split: prod.splits outcome.splits if_splits)
  ultimately show "\<exists>es. sys_trace (snd (updateRabbitmqCluster E s)) = sys_trace s @ es
      \<and> cluster_id (v_cluster (sys_vars (snd (updateRabbitmqCluster E s)))) = cluster_id c
      \<and> (\<exists>a. es = [(UpdateObject Cached (ClusterObject c), a)])"
    using run by auto
qed

lemma triple_at_cluster:
  assumes "triple (\<lambda>v. v_cluster v = c) (f c) Q"
  shows "triple (\<lambda>v. v_cluster v = c) (with_cluster f) Q"
  using assms by (auto simp: triple_def with_cluster_def)

text \<open>One default: nothing, or one update of the custom resource with the default filled in.\<close>

definition default_step_events :: "RabbitmqCluster \<Rightarrow> (RabbitmqCluster \<Rightarrow> bool) \<Rightarrow> event list \<Rightarrow> bool" where
  "default_step_events c needed es =
     (if needed c then \<exists>c' a. es = [(UpdateObject Cached (ClusterObject c'), a)] \<and> cluster_id c' = cluster_id c
      else es = [])"

lemma triple_fill_default:
  assumes "env_ok E" and "cluster_id (f c) = cluster_id c"
  shows "triple (\<lambda>v. v_cluster v = c)
    (if needed c then act_then (put_cluster (f c)) (act_then (updateRabbitmqCluster E) (act_ret ())) else act_ret ())
    (\<lambda>r es v. cluster_id (v_cluster v) = cluster_id c \<and> default_step_events c needed es
       \<and> (\<not> needed c \<longrightarrow> v_cluster v = c))"
proof (rule triple_if)
  assume n: "needed c"
  have put: "triple (\<lambda>v. v_cluster v = c) (put_cluster (f c)) (\<lambda>r es v. v_cluster v = f c \<and> (r = Ok () \<and> es = []))"
    by (rule triple_put_cluster) simp
  have upd: "triple (\<lambda>v. v_cluster v = f c) (act_then (updateRabbitmqCluster E) (act_ret ()))
      (\<lambda>r es v. cluster_id (v_cluster v) = cluster_id c \<and> (\<exists>a. es = [(UpdateObject Cached (ClusterObject (f c)), a)]))"
    by (rule triple_discard [OF triple_updateRabbitmqCluster [OF assms(1)]]) (simp_all add: assms(2))
  show "triple (\<lambda>v. v_cluster v = c) (act_then (put_cluster (f c)) (act_then (updateRabbitmqCluster E) (act_ret ())))
      (\<lambda>r es v. cluster_id (v_cluster v) = cluster_id c \<and> default_step_events c needed es
         \<and> (\<not> needed c \<longrightarrow> v_cluster v = c))"
    by (rule triple_bind_carry [OF put upd]) (use n assms(2) in \<open>auto simp: default_step_events_def\<close>)
qed (auto intro: triple_ret simp: default_step_events_def)

definition image_missing :: "RabbitmqCluster \<Rightarrow> bool" where
  "image_missing c = (sp_image (cl_spec c) = [])"

definition pull_secrets_missing :: "RabbitmqCluster \<Rightarrow> bool" where
  "pull_secrets_missing c = (sp_imagePullSecrets (cl_spec c) = None)"

definition updates_of :: "RabbitmqCluster \<Rightarrow> event list \<Rightarrow> bool" where
  "updates_of c es = (\<forall>e \<in> set es. \<exists>c'. fst e = UpdateObject Cached (ClusterObject c') \<and> cluster_id c' = cluster_id c)"

lemma triple_default_image_step:
  assumes "env_ok E"
  shows "triple (\<lambda>v. v_cluster v = c) (default_image_step E) (\<lambda>r es v. cluster_id (v_cluster v) = cluster_id c
    \<and> default_step_events c image_missing es \<and> (\<not> image_missing c \<longrightarrow> v_cluster v = c))"
proof -
  note step = triple_fill_default [OF assms, where needed = image_missing and c = c
      and f = "\<lambda>c. c\<lparr>cl_spec := (cl_spec c)\<lparr>sp_image := default_image E\<rparr>\<rparr>"]
  show ?thesis
    unfolding default_image_step_def by (rule triple_at_cluster) (use step in \<open>simp add: image_missing_def\<close>)
qed

lemma triple_default_pull_secrets_step:
  assumes "env_ok E"
  shows "triple (\<lambda>v. v_cluster v = c) (default_pull_secrets_step E) (\<lambda>r es v. cluster_id (v_cluster v) = cluster_id c
    \<and> default_step_events c pull_secrets_missing es \<and> (\<not> pull_secrets_missing c \<longrightarrow> v_cluster v = c))"
proof -
  note step = triple_fill_default [OF assms, where needed = pull_secrets_missing and c = c
      and f = "\<lambda>c. c\<lparr>cl_spec := (cl_spec c)\<lparr>sp_imagePullSecrets := default_pull_secret_list (default_pull_secrets E)\<rparr>\<rparr>"]
  show ?thesis
    unfolding default_pull_secrets_step_def by (rule triple_at_cluster) (use step in \<open>simp add: pull_secrets_missing_def\<close>)
qed

lemma triple_default_updater_step:
  assumes "env_ok E"
  shows "triple (\<lambda>v. v_cluster v = c) (default_updater_step E) (\<lambda>r es v. cluster_id (v_cluster v) = cluster_id c
    \<and> default_step_events c UsesDefaultUserUpdaterImage es \<and> (\<not> UsesDefaultUserUpdaterImage c \<longrightarrow> v_cluster v = c))"
proof (cases "sb_vault (sp_secretBackend (cl_spec c))")
  case None
  then have "\<not> UsesDefaultUserUpdaterImage c" by (simp add: UsesDefaultUserUpdaterImage_def)
  then show ?thesis
    unfolding default_updater_step_def
    by (intro triple_at_cluster) (auto simp: None default_step_events_def intro: triple_ret)
next
  case (Some v)
  note step = triple_fill_default [OF assms, where needed = UsesDefaultUserUpdaterImage and c = c
      and f = "\<lambda>c. c\<lparr>cl_spec := (cl_spec c)\<lparr>sp_secretBackend :=
        \<lparr>sb_vault = Some (v\<lparr>vs_defaultUserUpdaterImage := Some (default_updater_image E)\<rparr>)\<rparr>\<rparr>\<rparr>"]
  show ?thesis
    unfolding default_updater_step_def by (rule triple_at_cluster) (use step in \<open>simp add: Some\<close>)
qed

lemma default_step_updates: "default_step_events c needed es \<Longrightarrow> updates_of c es \<and> length es \<le> 1"
  by (auto simp: default_step_events_def updates_of_def split: if_splits)

lemma updates_of_append: "updates_of c (xs @ ys) \<longleftrightarrow> updates_of c xs \<and> updates_of c ys"
  by (auto simp: updates_of_def)

lemma updates_of_same: "cluster_id c' = cluster_id c \<Longrightarrow> updates_of c' es = updates_of c es"
  by (simp add: updates_of_def)

text \<open>
  What any of the steps does from a custom resource of the identity of \<open>c\<close>, and from \<open>c\<close>
  itself if its defaults are there.
\<close>

lemma triple_default_step_any:
  assumes "\<And>c. triple (\<lambda>v. v_cluster v = c) m (\<lambda>r es v. cluster_id (v_cluster v) = cluster_id c
    \<and> default_step_events c needed es \<and> (\<not> needed c \<longrightarrow> v_cluster v = c))"
  shows "triple (\<lambda>v. cluster_id (v_cluster v) = cluster_id c) m (\<lambda>r es v. cluster_id (v_cluster v) = cluster_id c
    \<and> (updates_of c es \<and> length es \<le> 1))"
proof (rule tripleI)
  fix s :: "'a sys" assume c: "cluster_id (v_cluster (sys_vars s)) = cluster_id c"
  obtain r s' where run: "m s = (r, s')" by fastforce
  obtain es where "sys_trace s' = sys_trace s @ es"
    "cluster_id (v_cluster (sys_vars s')) = cluster_id (v_cluster (sys_vars s))"
    "default_step_events (v_cluster (sys_vars s)) needed es"
    using tripleD [OF assms refl run] by blast
  then show "\<exists>es. sys_trace (snd (m s)) = sys_trace s @ es \<and> cluster_id (v_cluster (sys_vars (snd (m s)))) = cluster_id c
      \<and> updates_of c es \<and> length es \<le> 1"
    using run c default_step_updates updates_of_same [OF c] by (metis snd_conv)
qed

definition defaults_present :: "RabbitmqCluster \<Rightarrow> bool" where
  "defaults_present c = (\<not> image_missing c \<and> \<not> pull_secrets_missing c \<and> \<not> UsesDefaultUserUpdaterImage c)"

lemma triple_defaults_any:
  assumes "env_ok E"
  shows "triple (\<lambda>v. cluster_id (v_cluster v) = cluster_id c) (reconcileOperatorDefaults E)
    (\<lambda>r es v. cluster_id (v_cluster v) = cluster_id c \<and> (updates_of c es \<and> length es \<le> 3 \<and> (\<forall>d. r = Ok d \<longrightarrow> d = 0)))"
proof -
  let ?J = "\<lambda>v. cluster_id (v_cluster v) = cluster_id c"
  note image = triple_default_step_any [OF triple_default_image_step [OF assms], of c]
  note pull = triple_default_step_any [OF triple_default_pull_secrets_step [OF assms], of c]
  note updater = triple_default_step_any [OF triple_default_updater_step [OF assms], of c]
  have last: "triple ?J (act_then (default_updater_step E) (act_ret 0))
      (\<lambda>r es v. ?J v \<and> updates_of c es \<and> length es \<le> 1 \<and> (\<forall>d. r = Ok d \<longrightarrow> d = 0))"
    by (rule triple_bind_carry [OF updater triple_ret [where Q = "\<lambda>r es v. ?J v \<and> r = Ok 0 \<and> es = []"]]) simp_all
  have two: "triple ?J (act_then (default_pull_secrets_step E) (act_then (default_updater_step E) (act_ret 0)))
      (\<lambda>r es v. ?J v \<and> updates_of c es \<and> length es \<le> 2 \<and> (\<forall>d. r = Ok d \<longrightarrow> d = 0))"
    by (rule triple_bind_carry [OF pull last]) (auto simp: updates_of_append)
  show ?thesis
    unfolding reconcileOperatorDefaults_def
    by (rule triple_bind_carry [OF image two]) (auto simp: updates_of_append)
qed

lemma defaults_present_run:
  assumes "defaults_present (v_cluster (sys_vars s))"
  shows "reconcileOperatorDefaults E s = (Ok 0, s)"
proof (cases "sb_vault (sp_secretBackend (cl_spec (v_cluster (sys_vars s))))")
  case None
  then show ?thesis
    using assms by (auto simp: reconcileOperatorDefaults_def default_image_step_def default_pull_secrets_step_def
        default_updater_step_def with_cluster_def act_bind_def act_ret_def defaults_present_def image_missing_def
        pull_secrets_missing_def)
next
  case (Some v)
  then show ?thesis
    using assms by (auto simp: reconcileOperatorDefaults_def default_image_step_def default_pull_secrets_step_def
        default_updater_step_def with_cluster_def act_bind_def act_ret_def defaults_present_def image_missing_def
        pull_secrets_missing_def)
qed


definition is_Ok :: "'a outcome \<Rightarrow> bool" where
  "is_Ok r = (case r of Ok x \<Rightarrow> True | _ \<Rightarrow> False)"

text \<open>The sample server, refusing every update as a conflict.\<close>

definition conflict_env :: "server env" where
  "conflict_env = sample_env\<lparr>api_update := (\<lambda>cl x w. (Err (StatusError Conflict ''modified''), w))\<rparr>"

lemma conflict_env_ok: "env_ok conflict_env"
  using sample_env_ok by (auto simp: env_ok_def conflict_env_def keeps_identity_def edits_finalizers_def)


end
