(* ===== verification/Spec2Isabelle.thy ===== *)
theory Spec2Isabelle
  imports Ctl_Properties
begin

text \<open>
  A verification library for the RabbitmqCluster operator, the Go program of this repository:
  deployment/cloud/k8/data-services/rabbitmq/install\_commericial/cluster-operator. All file
  names below are relative to that directory.

  The program. A \<open>RabbitmqCluster\<close> is a custom resource of Kubernetes; the operator brings
  the cluster it describes into being and keeps it in line. The manager of
  controller-runtime calls \<open>Reconcile\<close> (controllers/rabbitmqcluster\_controller.go) with the
  name of a resource. \<open>Reconcile\<close> reads the resource, fills in defaults, sets a
  finalizer, updates the status conditions, checks the TLS secrets and then runs through a list of
  builders (internal/resource). Each builder makes one object (services, secrets, config maps,
  service account, role, role binding, stateful set) and brings an existing one in line;
  \<open>controllerutil.CreateOrUpdate\<close> joins the two. Before the stateful set, a scale
  down is refused and persistent volumes are expanded (internal/scaling). Afterwards the stateful
  set is restarted if the server configuration is newer than the last restart, and commands are
  run in the pods where annotations ask for them. The deletion of a resource marks the pods,
  deletes the stateful set and gives the finalizer up. What the next reconciliation must do is
  left in annotations and conditions: the API server is the only state that lasts.

  The theories, in the order in which they build on each other.

  \<^item> \<open>Op_Prelude\<close>: outcomes of Go calls (value, error, panic), maps with a nil value, and the
    functions of strings, strconv and fmt that the operator uses.
  \<^item> \<open>K8s_Types\<close>: the Kubernetes structs as records, with the fields the operator reads or writes.
  \<^item> \<open>Status_Conditions\<close>: internal/status. \<open>Cluster_Types\<close>: api/v1beta1 (the custom resource, its
    predicates, \<open>SetConditions\<close>, \<open>SetCondition\<close>). \<open>Op_Metadata\<close>: internal/metadata.
  \<^item> \<open>Builder_Interface\<close>: the Go interface \<open>ResourceBuilder\<close> as the locale \<open>resource_builder\<close>, with
    \<open>labelled_builder\<close> and \<open>metadata_builder\<close> for the builders that share their metadata handling,
    and the record \<open>lib\<close> of the library functions that are parameters. Every
    builder interprets one of the locales in its own theory.
  \<^item> \<open>Op_Plugins\<close> (rabbitmq\_plugins.go), \<open>Op_Secrets\<close> (erlang\_cookie.go, default\_user\_secret.go),
    \<open>Op_Access\<close> (service\_account.go, role.go, role\_binding.go), \<open>Op_Services\<close> (headless\_service.go,
    service.go), \<open>Op_Config\<close> (configmap.go), \<open>Op_PodTemplate\<close> and \<open>Op_StatefulSet\<close>
    (statefulset.go): one group of definitions per builder, \<open>x_Build\<close> and \<open>x_Update\<close> for its
    two methods, and one definition per helper of the source under the helper's name.
  \<^item> \<open>Op_Builders\<close>: rabbitmq\_resource\_builder.go; the list \<open>ResourceBuilders\<close> and the dispatch
    \<open>builder_Build\<close>, \<open>builder_Update\<close> over objects of all kinds (\<open>api_object\<close>).
  \<^item> \<open>Go_Time\<close>: RFC 3339 times, as package time formats and parses them, and the order of strings.
  \<^item> \<open>Op_Effects\<close>: actions. A call of the API server, of a pod's command line, of the clock or of
    the random source is a function of the record \<open>env\<close> on a world of any type; each request and its
    answer are appended to a trace. The pointer to the custom resource and the variables captured
    by closures are the record \<open>vars\<close>. The theory ends with a Hoare logic over results,
    events and variables (\<open>triple\<close>) and its special cases \<open>safe\<close> and \<open>yields\<close>.
  \<^item> \<open>Sample_Server\<close>: a small API server to evaluate the actions on; it meets all assumptions.
  \<^item> \<open>Op_Scaling\<close>: internal/scaling. \<open>Ctl_Utils\<close>: controllers/utils.go, reconcile\_operator\_defaults.go,
    reconcile\_status.go, reconcile\_tls.go and the status helpers. \<open>Ctl_Deletion\<close>:
    reconcile\_finalizer.go. \<open>Ctl_Config\<close>: reconcile\_rabbitmq\_configurations.go, reconcile\_cli.go,
    reconcile\_scale\_down.go, reconcile\_persistence.go. \<open>Op_Reconcile\<close>:
    rabbitmqcluster\_controller.go, \<open>Reconcile\<close> in the order of the source.
  \<^item> \<open>Op_Confined\<close>, \<open>Del_Properties\<close>, \<open>Op_Properties\<close>, \<open>Ctl_Properties\<close>: properties of these actions.

  What the lemmas show. Of the builders: they keep the identity of an object, make the custom
  resource its controller, and a further update changes nothing (the locale's contract, for every
  builder of the list); which ports, listeners, labels, annotations, plugins, volumes and
  mounts they produce, and how these agree across objects. Of the conditions: their statuses,
  shape and stability. Of the scaler: the order of reading, deleting, waiting and expanding, and what
  is refused. Of the reconciliation: every request stays within the cluster that is reconciled;
  deletion happens in its order; a paused cluster is left alone. These hold for every world, that is
  for every answer of the API server.

  Bounds. Machine integers are words where they can wrap (the memory limit of the
  configuration); replicas and ports are mathematical integers, since the source only compares and
  prints them and the API server validates their range. All loops recurse over a list or
  count down: the wait for a deleted stateful set makes ten rounds of three seconds, as in the
  source. No definition uses fuel. \<open>retry.OnError\<close> is a parameter; the relation
  \<open>attempts\<close> says which runs it may make.

  What is assumed (\<open>env_ok\<close>, \<open>lib_ok\<close>; the sample server and the sample library meet both).
  \<open>SetControllerReference\<close> changes owner references only and is idempotent. A read answers with an
  object of the kind, name and namespace asked for; an update, a status update and \<open>CreateOrUpdate\<close>
  answer with the object's own kind, name and namespace. Adding and removing a finalizer
  changes the set of finalizers by that one. A retried action is repeated only after an
  error its predicate admits. Not assumed: that the cache is current, that an answer
  agrees with earlier ones, or that anything stays as it was between two requests.

  Not modelled. Logging has no effect on the program and is left out; times are formatted in UTC,
  the zone of the operator's container image; the texts of parse errors are abridged.
  Strategic merge patches, JSON and ini files are parameters. controllers/pod\_executor.go is
  pure input and output and appears as the parameter \<open>pod_exec\<close>. \<open>SetupWithManager\<close>, main.go,
  pkg/profiling and groupversion\_info.go only wire the program up; the deep copy functions are generated;
  system\_tests and tools are not part of the operator. The other directories of the repository hold
  manifests, documents and demo applications in other languages.
\<close>

end
